theory Spec2Isabelle
  imports Complex_Main
begin

section \<open>Data model\<close>

text \<open>
  The interview application keeps one global \<^verbatim>\<open>session\<close> object (core/state/session), a
  small UI state (core/state/ui-state) and a snapshot of the session in \<^verbatim>\<open>localStorage\<close>
  (infrastructure/storage/session-cache). The JavaScript objects become records, the
  global variables become the fields of one application state that every function takes
  and returns, and a \<^verbatim>\<open>throw\<close> becomes the value \<open>Throw\<close> carrying the error message.
\<close>

datatype topic_status = NOT_STARTED | PROBING | DONE

definition ASK :: string where
  "ASK = ''ask''"

definition FINAL :: string where
  "FINAL = ''final''"

text \<open>A JSON number is a rational (every finite double is one).\<close>

record topic =
  name :: string
  importance :: rat
  required_level :: string
  merged_from :: "string list"

record qa_pair =
  question :: string
  answer :: string

record verdict =
  v_name :: string
  assessed_level :: string
  score :: rat
  confidence :: rat
  strengths :: "string list"
  gaps :: "string list"

record topic_state =
  status :: topic_status
  qaList :: "qa_pair list"
  verdict :: "verdict option"

text \<open>
  The TopicAgent's parsed JSON output \<^verbatim>\<open>{status, question: {text} | null, verdict | null}\<close>.
  A field that is \<^verbatim>\<open>null\<close> or missing is \<open>None\<close>: the code only tests such fields for
  truthiness.
\<close>

record agent_question =
  q_text :: string

record topic_agent_output =
  out_status :: string
  out_question :: "agent_question option"
  out_verdict :: "verdict option"

record prefetch_entry =
  pf_text :: string
  pf_topicIndex :: nat
  topicAgentOutput :: "topic_agent_output option"

record current_question =
  cq_text :: string
  cq_topicIndex :: nat

text \<open>
  \<^verbatim>\<open>topicStates\<close> and \<^verbatim>\<open>prefetchedQuestions\<close> are objects keyed by topic index: maps. A
  background verdict promise is represented by the topic index its handler captured.
\<close>

record session =
  apiKey :: string
  topics :: "topic list"
  topicStates :: "nat \<rightharpoonup> topic_state"
  currentTopicIndex :: nat
  enableFinalSummary :: bool
  maxQuestionsPerTopic :: nat
  prefetchedQuestions :: "nat \<rightharpoonup> prefetch_entry"
  backgroundVerdictPromises :: "nat list"

text \<open>The snapshot \<^verbatim>\<open>saveSessionToCache\<close> builds: \<^verbatim>\<open>sessionData\<close> inside \<^verbatim>\<open>cacheData\<close>.\<close>

record session_data =
  sd_topics :: "topic list"
  sd_topicStates :: "nat \<rightharpoonup> topic_state"
  sd_currentTopicIndex :: nat
  sd_enableFinalSummary :: bool
  sd_maxQuestionsPerTopic :: nat
  sd_prefetchedQuestions :: "nat \<rightharpoonup> prefetch_entry"

record cache_data =
  version :: string
  timestamp :: nat
  cd_session :: session_data
  cd_currentQuestion :: "current_question option"
  cd_currentScreen :: string

text \<open>
  \<^verbatim>\<open>localStorage\<close>: the item under \<^verbatim>\<open>CACHE_KEY\<close>, the item under \<^verbatim>\<open>'openai_api_key'\<close>, and
  whether \<^verbatim>\<open>setItem\<close> throws (quota exceeded). \<^verbatim>\<open>JSON.stringify\<close> followed by
  \<^verbatim>\<open>JSON.parse\<close> returns a structurally equal copy of the snapshot, whose fields are
  strings, numbers, booleans, arrays, objects and \<^verbatim>\<open>null\<close> only; the stored item is
  therefore kept as the snapshot value itself.
\<close>

record storage =
  interview_session_cache :: "cache_data option"
  openai_api_key :: "string option"
  quota_exceeded :: bool

text \<open>
  A background call in flight, with the topic index its continuation captured when it
  was launched. The list \<open>tasks\<close> of the application state records the launches.
\<close>

datatype task = VerdictTask nat | PrefetchTask nat

record app =
  session :: "session option"
  currentQuestion :: "current_question option"
  isProcessing :: bool
  localStorage :: storage
  clock :: nat
  notifications :: "(string \<times> string) list"
  console :: "string list"
  tasks :: "task list"

datatype 'a result = Ok 'a | Throw string

text \<open>What a call of \<^verbatim>\<open>callTopicAgent\<close> settles to: the promise rejects with an error
  message, or resolves with the parsed output (\<open>None\<close> when it is a falsy value).\<close>

datatype reply = Rejected string | Resolved "topic_agent_output option"

section \<open>Session cache\<close>

definition CACHE_VERSION :: string where
  "CACHE_VERSION = ''2.0''"

definition session_data_of :: "session \<Rightarrow> session_data" where
  "session_data_of s =
     \<lparr>sd_topics = topics s,
      sd_topicStates = topicStates s,
      sd_currentTopicIndex = currentTopicIndex s,
      sd_enableFinalSummary = enableFinalSummary s,
      sd_maxQuestionsPerTopic = maxQuestionsPerTopic s,
      sd_prefetchedQuestions = prefetchedQuestions s\<rparr>"

definition saveSessionToCache :: "current_question option \<Rightarrow> string \<Rightarrow> app \<Rightarrow> app" where
  "saveSessionToCache cq scr st =
     (case session st of
        None \<Rightarrow> st
      | Some s \<Rightarrow>
          if quota_exceeded (localStorage st)
          then st\<lparr>console := console st @ [''Error saving session to cache:'']\<rparr>
          else st\<lparr>localStorage := (localStorage st)
                 \<lparr>interview_session_cache := Some
                    \<lparr>version = CACHE_VERSION,
                     timestamp = clock st,
                     cd_session = session_data_of s,
                     cd_currentQuestion = cq,
                     cd_currentScreen = (if scr = [] then ''interview'' else scr)\<rparr>\<rparr>\<rparr>)"

definition clearSessionCache :: "app \<Rightarrow> app" where
  "clearSessionCache st =
     st\<lparr>localStorage := (localStorage st)\<lparr>interview_session_cache := None\<rparr>\<rparr>"

record loaded =
  ld_session :: session
  ld_currentQuestion :: "current_question option"
  ld_currentScreen :: string

text \<open>
  \<^verbatim>\<open>loadSessionFromCache\<close>. The checks that the parsed item has a \<^verbatim>\<open>session\<close> with an
  array \<^verbatim>\<open>topics\<close>, an object \<^verbatim>\<open>topicStates\<close> and a number \<^verbatim>\<open>currentTopicIndex\<close> hold for
  every value of type \<open>cache_data\<close>; the check of \<^verbatim>\<open>version\<close> fails on the empty string.
  Of the defaults, \<^verbatim>\<open>currentTopicIndex || 0\<close> and \<^verbatim>\<open>enableFinalSummary || false\<close> return
  their left operand, and \<^verbatim>\<open>maxQuestionsPerTopic || 5\<close> replaces 0 by 5.
\<close>

definition loadSessionFromCache :: "app \<Rightarrow> app \<times> loaded option" where
  "loadSessionFromCache st =
     (case interview_session_cache (localStorage st) of
        None \<Rightarrow> (st, None)
      | Some cacheData \<Rightarrow>
          if version cacheData = []
          then (clearSessionCache
                  (st\<lparr>console := console st @ [''Invalid cache structure, clearing cache'']\<rparr>),
                None)
          else
            let sessionData = cd_session cacheData;
                s = \<lparr>apiKey = (case openai_api_key (localStorage st) of
                                  None \<Rightarrow> [] | Some k \<Rightarrow> k),
                     topics = sd_topics sessionData,
                     topicStates = sd_topicStates sessionData,
                     currentTopicIndex = sd_currentTopicIndex sessionData,
                     enableFinalSummary = sd_enableFinalSummary sessionData,
                     maxQuestionsPerTopic =
                       (if sd_maxQuestionsPerTopic sessionData = 0 then 5
                        else sd_maxQuestionsPerTopic sessionData),
                     prefetchedQuestions = sd_prefetchedQuestions sessionData,
                     backgroundVerdictPromises = []\<rparr>
            in (st\<lparr>session := Some s\<rparr>,
                Some \<lparr>ld_session = s,
                      ld_currentQuestion = cd_currentQuestion cacheData,
                      ld_currentScreen =
                        (if cd_currentScreen cacheData = [] then ''interview''
                         else cd_currentScreen cacheData)\<rparr>))"

section \<open>Session state\<close>

text \<open>
  The callback of the validating \<^verbatim>\<open>forEach\<close>: the message it throws, if any (the index
  and the importance the messages interpolate are left out). The fields have the types
  of the record, so \<^verbatim>\<open>typeof\<close> tests hold and a falsy string is the empty one.
\<close>

definition validate_topic :: "topic \<Rightarrow> string option" where
  "validate_topic t =
     (if name t = [] then Some ''Topic at index is missing name''
      else if importance t < 1 \<or> importance t > 5
      then Some (''Topic '' @ name t @ '' has invalid importance'')
      else if required_level t = [] \<or> required_level t \<notin> set [''basic'', ''solid'', ''deep'']
      then Some (''Topic '' @ name t @ '' has invalid required_level: '' @ required_level t)
      else None)"

fun validate_topics :: "topic list \<Rightarrow> string option" where
  "validate_topics [] = None"
| "validate_topics (t # ts) =
     (case validate_topic t of Some e \<Rightarrow> Some e | None \<Rightarrow> validate_topics ts)"

definition fresh_topic_state :: topic_state where
  "fresh_topic_state = \<lparr>status = NOT_STARTED, qaList = [], verdict = None\<rparr>"

definition init_topicStates :: "topic list \<Rightarrow> (nat \<rightharpoonup> topic_state)" where
  "init_topicStates ts =
     fold (\<lambda>index m. m(index \<mapsto> fresh_topic_state)) [0..<length ts] Map.empty"

definition initializeSession ::
  "topic list \<Rightarrow> string \<Rightarrow> nat \<Rightarrow> bool \<Rightarrow> app \<Rightarrow> app result" where
  "initializeSession ts key maxQ efs st =
     (if ts = [] then Throw ''Topics array must be non-empty''
      else case validate_topics ts of
             Some e \<Rightarrow> Throw e
           | None \<Rightarrow>
               Ok (saveSessionToCache None ''interview''
                     (st\<lparr>session := Some
                        \<lparr>apiKey = key,
                         topics = ts,
                         topicStates = init_topicStates ts,
                         currentTopicIndex = 0,
                         enableFinalSummary = efs,
                         maxQuestionsPerTopic = (if maxQ = 0 then 5 else maxQ),
                         prefetchedQuestions = Map.empty,
                         backgroundVerdictPromises = []\<rparr>\<rparr>)))"

definition getCurrentTopic :: "app \<Rightarrow> topic option" where
  "getCurrentTopic st =
     (case session st of
        None \<Rightarrow> None
      | Some s \<Rightarrow>
          if currentTopicIndex s \<ge> length (topics s) then None
          else Some (topics s ! currentTopicIndex s))"

definition getCurrentTopicState :: "app \<Rightarrow> topic_state option" where
  "getCurrentTopicState st =
     (case session st of
        None \<Rightarrow> None
      | Some s \<Rightarrow>
          if currentTopicIndex s \<ge> length (topics s) then None
          else topicStates s (currentTopicIndex s))"

definition addQaToCurrentTopic :: "string \<Rightarrow> string \<Rightarrow> app \<Rightarrow> app" where
  "addQaToCurrentTopic q a st =
     (case session st of
        None \<Rightarrow> st
      | Some s \<Rightarrow>
          (case getCurrentTopicState st of
             None \<Rightarrow> st
           | Some topicState \<Rightarrow>
               saveSessionToCache None ''interview''
                 (st\<lparr>session := Some (s\<lparr>topicStates := (topicStates s)
                    (currentTopicIndex s \<mapsto>
                       topicState\<lparr>qaList := qaList topicState @ [\<lparr>question = q, answer = a\<rparr>],
                                  status := PROBING\<rparr>)\<rparr>)\<rparr>)))"

definition setCurrentTopicVerdict :: "verdict option \<Rightarrow> app \<Rightarrow> app" where
  "setCurrentTopicVerdict v st =
     (case session st of
        None \<Rightarrow> st
      | Some s \<Rightarrow>
          (case getCurrentTopicState st of
             None \<Rightarrow> st
           | Some topicState \<Rightarrow>
               saveSessionToCache None ''interview''
                 (st\<lparr>session := Some (s\<lparr>topicStates := (topicStates s)
                    (currentTopicIndex s \<mapsto> topicState\<lparr>verdict := v, status := DONE\<rparr>)\<rparr>)\<rparr>)))"

text \<open>\<^verbatim>\<open>topics.length - 1\<close> is \<open>-1\<close> on an empty array: the comparison is made on integers.\<close>

definition moveToNextTopic :: "app \<Rightarrow> app \<times> bool" where
  "moveToNextTopic st =
     (case session st of
        None \<Rightarrow> (st, False)
      | Some s \<Rightarrow>
          if int (currentTopicIndex s) < int (length (topics s)) - 1
          then (saveSessionToCache None ''interview''
                  (st\<lparr>session := Some (s\<lparr>currentTopicIndex := currentTopicIndex s + 1\<rparr>)\<rparr>),
                True)
          else (st, False))"

definition hasMoreTopics :: "app \<Rightarrow> bool" where
  "hasMoreTopics st =
     (case session st of
        None \<Rightarrow> False
      | Some s \<Rightarrow> int (currentTopicIndex s) < int (length (topics s)) - 1)"

definition getAllTopicVerdicts :: "app \<Rightarrow> verdict list" where
  "getAllTopicVerdicts st =
     (case session st of
        None \<Rightarrow> []
      | Some s \<Rightarrow>
          concat (map (\<lambda>index.
            case topicStates s index of
              None \<Rightarrow> []
            | Some state \<Rightarrow> (case verdict state of None \<Rightarrow> [] | Some v \<Rightarrow> [v]))
            [0..<length (topics s)]))"

definition getIncompleteTopics :: "app \<Rightarrow> (topic \<times> nat \<times> topic_state) list" where
  "getIncompleteTopics st =
     (case session st of
        None \<Rightarrow> []
      | Some s \<Rightarrow>
          concat (map (\<lambda>index.
            case topicStates s index of
              None \<Rightarrow> []
            | Some state \<Rightarrow>
                if status state = NOT_STARTED \<or> status state = PROBING
                then [(topics s ! index, index, state)] else [])
            [0..<length (topics s)]))"

definition shouldContinueCurrentTopic :: "app \<Rightarrow> bool" where
  "shouldContinueCurrentTopic st =
     (case session st of
        None \<Rightarrow> False
      | Some s \<Rightarrow>
          (case getCurrentTopicState st of
             None \<Rightarrow> False
           | Some topicState \<Rightarrow>
               length (qaList topicState) < maxQuestionsPerTopic s \<and>
               status topicState \<noteq> DONE))"

section \<open>UI state, notifications and error handling\<close>

text \<open>The module's initial bindings: no session, no current question, not processing.\<close>

definition initial_app :: app where
  "initial_app =
     \<lparr>session = None, currentQuestion = None, isProcessing = False,
      localStorage = \<lparr>interview_session_cache = None, openai_api_key = None,
                      quota_exceeded = False\<rparr>,
      clock = 0, notifications = [], console = [], tasks = []\<rparr>"

definition setCurrentQuestion :: "current_question option \<Rightarrow> app \<Rightarrow> app" where
  "setCurrentQuestion q st = st\<lparr>currentQuestion := q\<rparr>"

definition setProcessing :: "bool \<Rightarrow> app \<Rightarrow> app" where
  "setProcessing flag st = st\<lparr>isProcessing := flag\<rparr>"

definition showNotification :: "string \<Rightarrow> string \<Rightarrow> app \<Rightarrow> app" where
  "showNotification message kind st = st\<lparr>notifications := notifications st @ [(message, kind)]\<rparr>"

definition console_write :: "string \<Rightarrow> app \<Rightarrow> app" where
  "console_write line st = st\<lparr>console := console st @ [line]\<rparr>"

fun str_includes :: "string \<Rightarrow> string \<Rightarrow> bool" where
  "str_includes [] sub = (sub = [])"
| "str_includes (c # cs) sub = (take (length sub) (c # cs) = sub \<or> str_includes cs sub)"

datatype ErrorType = NETWORK | API | VALIDATION | UNKNOWN

definition userMessage :: "string \<Rightarrow> ErrorType \<Rightarrow> string" where
  "userMessage message errorType =
     (if errorType = NETWORK
      then ''Network error. Please check your internet connection and try again.''
      else if errorType = API then
        (if message \<noteq> [] \<and> str_includes message ''401''
         then ''Invalid API key. Please check your API key and try again.''
         else if message \<noteq> [] \<and> str_includes message ''429''
         then ''Rate limit exceeded. Please wait a moment and try again.''
         else if message \<noteq> [] \<and> str_includes message ''500''
         then ''Server error. Please try again later.''
         else if message \<noteq> [] then ''API Error: '' @ message
         else ''API request failed. Please try again.'')
      else if errorType = VALIDATION
      then (if message \<noteq> [] then message else ''Validation error occurred'')
      else if message \<noteq> [] then message
      else ''An unexpected error occurred'')"

definition handleError :: "string \<Rightarrow> string \<Rightarrow> ErrorType \<Rightarrow> app \<Rightarrow> app" where
  "handleError message ctx errorType st =
     showNotification (userMessage message errorType) ''error''
       (console_write (''Error in '' @ ctx @ '':'') st)"

section \<open>Validation\<close>

datatype validation = Valid | Invalid string

text \<open>
  \<^verbatim>\<open>String.prototype.trim\<close> strips white space and line terminators from both ends.
  Strings are lists of characters of code 0 to 255; among these, the characters stripped
  are the tab, the line feed, the vertical tab, the form feed, the carriage return, the
  space and the no-break space (U+00A0).
\<close>

definition is_space :: "char \<Rightarrow> bool" where
  "is_space c =
     (c \<in> set [CHR '' '', CHR 0x09, CHR 0x0A, CHR 0x0B, CHR 0x0C, CHR 0x0D, CHR 0xA0])"

definition trim :: "string \<Rightarrow> string" where
  "trim s = rev (dropWhile is_space (rev (dropWhile is_space s)))"

definition validateAnswer :: "string \<Rightarrow> validation" where
  "validateAnswer a =
     (if a = [] \<or> trim a = [] then Invalid ''Please enter an answer''
      else if length a > 5000 then Invalid ''Answer is too long (maximum 5,000 characters)''
      else Valid)"

fun join_errors :: "string list \<Rightarrow> string" where
  "join_errors [] = []"
| "join_errors [e] = e"
| "join_errors (e # es) = e @ ''; '' @ join_errors es"

text \<open>\<^verbatim>\<open>output.question && output.question.text\<close> is truthy.\<close>

definition has_question :: "topic_agent_output \<Rightarrow> bool" where
  "has_question out = (case out_question out of None \<Rightarrow> False | Some q \<Rightarrow> q_text q \<noteq> [])"

definition question_text :: "topic_agent_output \<Rightarrow> string" where
  "question_text out = (case out_question out of None \<Rightarrow> [] | Some q \<Rightarrow> q_text q)"

text \<open>
  The validators of agent-validator. Their first argument \<open>vr\<close> stands for
  \<^verbatim>\<open>validateResponse(ROLE_NAMES.TOPIC_AGENT, output)\<close>: the list of errors the generic
  schema walk finds in the output under the schema loaded at run time.
\<close>

definition validateTopicAgentAsk ::
  "(topic_agent_output \<Rightarrow> string list) \<Rightarrow> topic_agent_output option \<Rightarrow> validation" where
  "validateTopicAgentAsk vr output =
     (case output of
        None \<Rightarrow> Invalid ''TopicAgent returned empty response''
      | Some out \<Rightarrow>
          if vr out \<noteq> []
          then Invalid (''TopicAgent validation failed: '' @ join_errors (vr out))
          else if out_status out \<noteq> ASK \<or> \<not> has_question out
          then Invalid ''TopicAgent did not return a question''
          else Valid)"

definition validateTopicAgentFinal ::
  "(topic_agent_output \<Rightarrow> string list) \<Rightarrow> topic_agent_output option \<Rightarrow> validation" where
  "validateTopicAgentFinal vr output =
     (case output of
        None \<Rightarrow> Invalid ''TopicAgent returned empty response''
      | Some out \<Rightarrow>
          if vr out \<noteq> []
          then Invalid (''TopicAgent validation failed: '' @ join_errors (vr out))
          else if out_status out \<noteq> FINAL \<or> out_verdict out = None
          then Invalid ''TopicAgent did not provide final verdict''
          else Valid)"

definition validateTopicAgentResponse ::
  "(topic_agent_output \<Rightarrow> string list) \<Rightarrow> topic_agent_output option \<Rightarrow> validation" where
  "validateTopicAgentResponse vr output =
     (case output of
        None \<Rightarrow> Invalid ''TopicAgent returned empty response''
      | Some out \<Rightarrow>
          if vr out \<noteq> []
          then Invalid (''TopicAgent validation failed: '' @ join_errors (vr out))
          else if out_status out = ASK
          then (if \<not> has_question out then Invalid ''TopicAgent did not return a question''
                else Valid)
          else if out_status out = FINAL
          then (if out_verdict out = None
                then Invalid ''TopicAgent did not provide final verdict'' else Valid)
          else Invalid (''Invalid TopicAgent status: '' @ out_status out))"

section \<open>Prefetch manager\<close>

definition setPrefetchedQuestion :: "nat \<Rightarrow> prefetch_entry \<Rightarrow> app \<Rightarrow> app" where
  "setPrefetchedQuestion topicIndex questionData st =
     (case session st of
        None \<Rightarrow> st
      | Some s \<Rightarrow>
          if topicIndex \<ge> length (topics s)
          then console_write ''Invalid topic index for prefetch'' st
          else saveSessionToCache None ''interview''
                 (st\<lparr>session := Some (s\<lparr>prefetchedQuestions :=
                    (prefetchedQuestions s)(topicIndex \<mapsto> questionData)\<rparr>)\<rparr>))"

definition getPrefetchedQuestion :: "nat \<Rightarrow> app \<Rightarrow> prefetch_entry option" where
  "getPrefetchedQuestion topicIndex st =
     (case session st of
        None \<Rightarrow> None
      | Some s \<Rightarrow>
          if topicIndex \<ge> length (topics s) then None
          else prefetchedQuestions s topicIndex)"

definition clearPrefetchedQuestion :: "nat \<Rightarrow> app \<Rightarrow> app" where
  "clearPrefetchedQuestion topicIndex st =
     (case session st of
        None \<Rightarrow> st
      | Some s \<Rightarrow>
          if prefetchedQuestions s topicIndex \<noteq> None
          then saveSessionToCache None ''interview''
                 (st\<lparr>session := Some (s\<lparr>prefetchedQuestions :=
                    (prefetchedQuestions s)(topicIndex := None)\<rparr>)\<rparr>)
          else st)"

definition clearAllPrefetchedQuestions :: "app \<Rightarrow> app" where
  "clearAllPrefetchedQuestions st =
     (case session st of
        None \<Rightarrow> st
      | Some s \<Rightarrow>
          saveSessionToCache None ''interview''
            (st\<lparr>session := Some (s\<lparr>prefetchedQuestions := Map.empty\<rparr>)\<rparr>))"

definition addBackgroundVerdictPromise :: "nat \<Rightarrow> app \<Rightarrow> app" where
  "addBackgroundVerdictPromise p st =
     (case session st of
        None \<Rightarrow> st
      | Some s \<Rightarrow>
          st\<lparr>session := Some (s\<lparr>backgroundVerdictPromises :=
             backgroundVerdictPromises s @ [p]\<rparr>)\<rparr>)"

definition getAllBackgroundVerdictPromises :: "app \<Rightarrow> nat list" where
  "getAllBackgroundVerdictPromises st =
     (case session st of None \<Rightarrow> [] | Some s \<Rightarrow> backgroundVerdictPromises s)"

definition clearBackgroundVerdictPromises :: "app \<Rightarrow> app" where
  "clearBackgroundVerdictPromises st =
     (case session st of
        None \<Rightarrow> st
      | Some s \<Rightarrow> st\<lparr>session := Some (s\<lparr>backgroundVerdictPromises := []\<rparr>)\<rparr>)"

text \<open>A background call is issued: it is in flight from now on.\<close>

definition launch :: "task \<Rightarrow> app \<Rightarrow> app" where
  "launch t st = st\<lparr>tasks := tasks st @ [t]\<rparr>"

text \<open>
  \<^verbatim>\<open>prefetchNextTopicQuestion\<close> runs synchronously up to its \<^verbatim>\<open>await callTopicAgent(...)\<close>:
  the guards, then the call is in flight with \<^verbatim>\<open>nextTopicIndex\<close> captured.
\<close>

definition prefetchNextTopicQuestion :: "app \<Rightarrow> app" where
  "prefetchNextTopicQuestion st =
     (case session st of
        None \<Rightarrow> st
      | Some s \<Rightarrow>
          let nextTopicIndex = currentTopicIndex s + 1 in
          if nextTopicIndex \<ge> length (topics s) then st
          else if getPrefetchedQuestion nextTopicIndex st \<noteq> None then st
          else if (case topicStates s nextTopicIndex of
                     None \<Rightarrow> False
                   | Some nextTopicState \<Rightarrow> qaList nextTopicState \<noteq> [])
          then st
          else launch (PrefetchTask nextTopicIndex) st)"

definition try_catch :: "'a result \<Rightarrow> (string \<Rightarrow> 'a result) \<Rightarrow> 'a result" where
  "try_catch body handler = (case body of Ok x \<Rightarrow> Ok x | Throw e \<Rightarrow> handler e)"

text \<open>
  The rest of \<^verbatim>\<open>prefetchNextTopicQuestion\<close>, run when the call settles, on the state the
  application has by then: the body of the \<^verbatim>\<open>try\<close> after the \<^verbatim>\<open>await\<close>, and the \<^verbatim>\<open>catch\<close>.
  The lines written to the console are kept without the topic index and name that the
  source interpolates into them.
\<close>

definition prefetch_try ::
  "(topic_agent_output \<Rightarrow> string list) \<Rightarrow> nat \<Rightarrow> reply \<Rightarrow> app \<Rightarrow> app result" where
  "prefetch_try vr nextTopicIndex r st =
     (case r of
        Rejected e \<Rightarrow> Throw e
      | Resolved agentOutput \<Rightarrow>
          (case validateTopicAgentAsk vr agentOutput of
             Invalid e \<Rightarrow> Ok st
           | Valid \<Rightarrow>
               Ok (console_write ''Prefetched question for topic''
                     (setPrefetchedQuestion nextTopicIndex
                        \<lparr>pf_text = (case agentOutput of
                                      None \<Rightarrow> [] | Some out \<Rightarrow> question_text out),
                         pf_topicIndex = nextTopicIndex,
                         topicAgentOutput = agentOutput\<rparr> st))))"

definition prefetchNextTopicQuestion_resume ::
  "(topic_agent_output \<Rightarrow> string list) \<Rightarrow> nat \<Rightarrow> reply \<Rightarrow> app \<Rightarrow> app result" where
  "prefetchNextTopicQuestion_resume vr nextTopicIndex r st =
     try_catch (prefetch_try vr nextTopicIndex r st)
       (\<lambda>e. Ok (console_write ''Failed to prefetch question for topic'' st))"

section \<open>Interview flow\<close>

text \<open>
  \<^verbatim>\<open>handleAnswerSubmit\<close> is an \<^verbatim>\<open>async\<close> function: it runs without interruption up to an
  \<^verbatim>\<open>await\<close>, and its continuation runs later, on the state the application has by then.
  \<open>flow\<close> says where a run stopped; a \<open>resumption\<close> carries what the awaited calls
  settled to. The constant \<^verbatim>\<open>session\<close> of the function is the global session object
  (the binding is not reassigned while a submission is in flight); \<^verbatim>\<open>topicState\<close> is
  the state object of the topic that was current when the submission began, kept in
  \<open>AwaitingSameTopic\<close> as its index. DOM updates are left out.
\<close>

datatype flow =
    Finished
  | AwaitingVerdictAndNext
  | AwaitingLastVerdict
  | AwaitingSameTopic nat
  | AwaitingNextTopic
  | AwaitingEndInterview

datatype resumption =
    VerdictAndNext reply reply
  | LastVerdict reply
  | SameTopic nat reply
  | NextTopic reply
  | EndInterviewDone

definition cursor :: "app \<Rightarrow> nat" where
  "cursor st = (case session st of None \<Rightarrow> 0 | Some s \<Rightarrow> currentTopicIndex s)"

definition topicState_at :: "nat \<Rightarrow> app \<Rightarrow> topic_state option" where
  "topicState_at index st = (case session st of None \<Rightarrow> None | Some s \<Rightarrow> topicStates s index)"

text \<open>\<^verbatim>\<open>session.topicStates[index].verdict = v; session.topicStates[index].status = DONE\<close>,
  guarded by \<^verbatim>\<open>session.topicStates[index]\<close> being there.\<close>

definition write_verdict :: "nat \<Rightarrow> verdict option \<Rightarrow> app \<Rightarrow> app" where
  "write_verdict index v st =
     (case session st of
        None \<Rightarrow> st
      | Some s \<Rightarrow>
          (case topicStates s index of
             None \<Rightarrow> st
           | Some ts \<Rightarrow>
               st\<lparr>session := Some (s\<lparr>topicStates := (topicStates s)
                  (index \<mapsto> ts\<lparr>verdict := v, status := DONE\<rparr>)\<rparr>)\<rparr>))"

text \<open>
  The handlers chained on the background verdict call: \<^verbatim>\<open>.then(...)\<close> with the topic
  index captured before the move, and \<^verbatim>\<open>.catch(...)\<close>. With no session,
  \<^verbatim>\<open>session.topicStates\<close> is a TypeError, which the \<^verbatim>\<open>catch\<close> logs.
\<close>

definition verdict_then ::
  "(topic_agent_output \<Rightarrow> string list) \<Rightarrow> nat \<Rightarrow> reply \<Rightarrow> app \<Rightarrow> app result" where
  "verdict_then vr capturedIndex r st =
     (case r of
        Rejected e \<Rightarrow> Throw e
      | Resolved None \<Rightarrow> Ok st
      | Resolved (Some out) \<Rightarrow>
          (case validateTopicAgentFinal vr (Some out) of
             Invalid e \<Rightarrow> Ok st
           | Valid \<Rightarrow>
               (case session st of
                  None \<Rightarrow> Throw ''TypeError''
                | Some s \<Rightarrow>
                    if topicStates s capturedIndex \<noteq> None
                    then Ok (saveSessionToCache None ''interview''
                               (write_verdict capturedIndex (out_verdict out) st))
                    else Ok st)))"

definition verdict_task_resume ::
  "(topic_agent_output \<Rightarrow> string list) \<Rightarrow> nat \<Rightarrow> reply \<Rightarrow> app \<Rightarrow> app result" where
  "verdict_task_resume vr capturedIndex r st =
     try_catch (verdict_then vr capturedIndex r st)
       (\<lambda>e. Ok (console_write ''Error fetching background verdict:'' st))"

text \<open>\<^verbatim>\<open>setCurrentQuestion({text, topicIndex: session.currentTopicIndex})\<close> and
  \<^verbatim>\<open>saveSessionToCache(getCurrentQuestion(), 'interview')\<close>, as every branch does.\<close>

definition show_question :: "string \<Rightarrow> app \<Rightarrow> app" where
  "show_question txt st =
     (let st1 = setCurrentQuestion (Some \<lparr>cq_text = txt, cq_topicIndex = cursor st\<rparr>) st
      in saveSessionToCache (currentQuestion st1) ''interview'' st1)"

definition valid_ask_inline :: "topic_agent_output option \<Rightarrow> bool" where
  "valid_ask_inline output =
     (case output of
        None \<Rightarrow> False
      | Some out \<Rightarrow> out_status out = ASK \<and> has_question out)"

definition output_text :: "topic_agent_output option \<Rightarrow> string" where
  "output_text output = (case output of None \<Rightarrow> [] | Some out \<Rightarrow> question_text out)"

text \<open>
  The branch of \<^verbatim>\<open>handleAnswerSubmit\<close> that leaves a finished topic with a prefetched
  question at hand: the question is shown at once, and the verdict of the topic being
  left is fetched in the background, its handler holding the index captured before the
  move.
\<close>

definition consume_prefetched :: "prefetch_entry \<Rightarrow> app \<Rightarrow> app \<times> flow result" where
  "consume_prefetched prefetched st =
     (if \<not> valid_ask_inline (topicAgentOutput prefetched)
      then (st, Throw ''Prefetched question is invalid'')
      else
        let capturedIndex = cursor st;
            st2 = clearPrefetchedQuestion (cursor st + 1) st;
            st3 = fst (moveToNextTopic st2);
            st4 = show_question (output_text (topicAgentOutput prefetched)) st3;
            st5 = launch (VerdictTask capturedIndex) st4;
            st6 = addBackgroundVerdictPromise capturedIndex st5
        in (prefetchNextTopicQuestion st6, Ok Finished))"

text \<open>
  The body of the \<^verbatim>\<open>try\<close> of \<^verbatim>\<open>handleAnswerSubmit\<close>, up to the first \<^verbatim>\<open>await\<close>. Where no
  prefetched question is there, the arguments of the call for the next topic read
  \<^verbatim>\<open>nextTopicState.qaList\<close>: a TypeError when that topic has no state object.
\<close>

definition submit_try ::
  "string \<Rightarrow> current_question \<Rightarrow> app \<Rightarrow> app \<times> flow result" where
  "submit_try ans cq st =
     (if getCurrentTopic st = None \<or> getCurrentTopicState st = None
      then (st, Throw ''Current topic not found'')
      else
        let st1 = addQaToCurrentTopic (cq_text cq) ans st in
        if \<not> shouldContinueCurrentTopic st1 then
          (if hasMoreTopics st1 then
             (case getPrefetchedQuestion (cursor st1 + 1) st1 of
                Some prefetched \<Rightarrow> consume_prefetched prefetched st1
              | None \<Rightarrow>
                  if topicState_at (cursor st1 + 1) st1 = None
                  then (st1, Throw ''TypeError'')
                  else (st1, Ok AwaitingVerdictAndNext))
           else (st1, Ok AwaitingLastVerdict))
        else (st1, Ok (AwaitingSameTopic (cursor st1))))"

text \<open>
  The \<^verbatim>\<open>catch\<close> and \<^verbatim>\<open>finally\<close> of \<^verbatim>\<open>handleAnswerSubmit\<close>: they run when the function
  returns or throws, not while it is suspended at an \<^verbatim>\<open>await\<close>. The \<^verbatim>\<open>catch\<close> turns
  every throw of the body into a call of \<^verbatim>\<open>handleError\<close>, which logs the error and shows
  a notification of kind \<^verbatim>\<open>error\<close>.
\<close>

definition settle :: "app \<times> flow result \<Rightarrow> app \<times> flow" where
  "settle x =
     (case x of
        (st, Throw e) \<Rightarrow>
          (setProcessing False (handleError e ''handleAnswerSubmit'' API st), Finished)
      | (st, Ok Finished) \<Rightarrow> (setProcessing False st, Finished)
      | (st, Ok awaiting) \<Rightarrow> (st, awaiting))"

text \<open>
  \<^verbatim>\<open>handleAnswerSubmit\<close> up to its first \<^verbatim>\<open>await\<close>. The argument is the value of the answer
  input, if the input element is there. The guards before the \<^verbatim>\<open>try\<close> end the call by a
  plain \<^verbatim>\<open>return\<close>, after a notification; nothing before the \<^verbatim>\<open>try\<close> throws and the
  \<^verbatim>\<open>catch\<close> lets no throw escape, so the promise the function returns is never rejected:
  a call either ends (\<open>Finished\<close>) or is suspended, and what it reports to the user is in
  the notifications.
\<close>

definition handleAnswerSubmit :: "string option \<Rightarrow> app \<Rightarrow> app \<times> flow" where
  "handleAnswerSubmit answerInput st =
     (if isProcessing st
      then (showNotification ''Please wait, processing your answer...'' ''info'' st, Finished)
      else case answerInput of
        None \<Rightarrow> (st, Finished)
      | Some v \<Rightarrow>
          (case validateAnswer (trim v) of
             Invalid e \<Rightarrow> (showNotification e ''error'' st, Finished)
           | Valid \<Rightarrow>
               (case (session st, currentQuestion st) of
                  (Some s, Some cq) \<Rightarrow> settle (submit_try (trim v) cq (setProcessing True st))
                | _ \<Rightarrow> (showNotification ''Session not initialized'' ''error'' st, Finished))))"

text \<open>Entering the next topic with its opening question, fetched or prefetched
  (the early-final branch).\<close>

definition enter_next_topic :: "topic_agent_output option \<Rightarrow> app \<Rightarrow> app \<times> flow result" where
  "enter_next_topic nextOutput st =
     (if \<not> valid_ask_inline nextOutput
      then (st, Throw ''TopicAgent did not return a question'')
      else
        let st1 = fst (moveToNextTopic st);
            st2 = show_question (output_text nextOutput) st1
        in (prefetchNextTopicQuestion st2, Ok Finished))"

text \<open>
  The continuations of \<^verbatim>\<open>handleAnswerSubmit\<close> after each \<^verbatim>\<open>await\<close>. First the one
  after \<^verbatim>\<open>Promise.all([verdictPromise, nextQuestionPromise])\<close>, which rejects when one
  of its two calls rejects.
\<close>

definition after_verdict_and_next ::
  "(topic_agent_output \<Rightarrow> string list) \<Rightarrow> reply \<Rightarrow> reply \<Rightarrow> app \<Rightarrow> app \<times> flow result" where
  "after_verdict_and_next vr r1 r2 st =
     (case r1 of
        Rejected e \<Rightarrow> (st, Throw e)
      | Resolved verdictOutput \<Rightarrow>
          (case r2 of
             Rejected e \<Rightarrow> (st, Throw e)
           | Resolved nextOutput \<Rightarrow>
               (case validateTopicAgentFinal vr verdictOutput of
                  Invalid e \<Rightarrow> (st, Throw e)
                | Valid \<Rightarrow>
                    let st1 = setCurrentTopicVerdict
                                (case verdictOutput of
                                   None \<Rightarrow> None | Some out \<Rightarrow> out_verdict out) st
                    in (case validateTopicAgentAsk vr nextOutput of
                          Invalid e \<Rightarrow> (st1, Throw e)
                        | Valid \<Rightarrow>
                            let st2 = fst (moveToNextTopic st1);
                                st3 = show_question (output_text nextOutput) st2
                            in (prefetchNextTopicQuestion st3, Ok Finished)))))"

text \<open>After the verdict call of the last topic.\<close>

definition after_last_verdict ::
  "(topic_agent_output \<Rightarrow> string list) \<Rightarrow> reply \<Rightarrow> app \<Rightarrow> app \<times> flow result" where
  "after_last_verdict vr r st =
     (case r of
        Rejected e \<Rightarrow> (st, Throw e)
      | Resolved verdictOutput \<Rightarrow>
          (case validateTopicAgentFinal vr verdictOutput of
             Invalid e \<Rightarrow> (st, Throw e)
           | Valid \<Rightarrow>
               (setCurrentTopicVerdict
                  (case verdictOutput of None \<Rightarrow> None | Some out \<Rightarrow> out_verdict out) st,
                Ok AwaitingEndInterview)))"

text \<open>
  After the call for the next question of the same topic: the agent finalised early
  (\<open>finalize_early\<close>), or asked again (\<open>ask_again\<close>, which prefetches when the topic is
  on its penultimate question).
\<close>

definition finalize_early :: "verdict option \<Rightarrow> app \<Rightarrow> app \<times> flow result" where
  "finalize_early v st =
     (let st1 = setCurrentTopicVerdict v st in
      if hasMoreTopics st1 then
        (case getPrefetchedQuestion (cursor st1 + 1) st1 of
           Some prefetched \<Rightarrow>
             enter_next_topic (topicAgentOutput prefetched)
               (clearPrefetchedQuestion (cursor st1 + 1) st1)
         | None \<Rightarrow>
             if topicState_at (cursor st1 + 1) st1 = None
             then (st1, Throw ''TypeError'')
             else (st1, Ok AwaitingNextTopic))
      else (st1, Ok AwaitingEndInterview))"

definition on_penultimate_question :: "nat \<Rightarrow> app \<Rightarrow> bool" where
  "on_penultimate_question topicIndex st =
     (case session st of
        None \<Rightarrow> False
      | Some s \<Rightarrow>
          (case topicStates s topicIndex of
             None \<Rightarrow> False
           | Some ts \<Rightarrow> int (length (qaList ts)) = int (maxQuestionsPerTopic s) - 1))"

definition ask_again :: "nat \<Rightarrow> string \<Rightarrow> app \<Rightarrow> app \<times> flow result" where
  "ask_again topicIndex txt st =
     (let st1 = show_question txt st in
      if on_penultimate_question topicIndex st1 \<and> hasMoreTopics st1
      then (prefetchNextTopicQuestion st1, Ok Finished)
      else (st1, Ok Finished))"

definition after_same_topic ::
  "(topic_agent_output \<Rightarrow> string list) \<Rightarrow> nat \<Rightarrow> reply \<Rightarrow> app \<Rightarrow> app \<times> flow result" where
  "after_same_topic vr topicIndex r st =
     (case r of
        Rejected e \<Rightarrow> (st, Throw e)
      | Resolved output \<Rightarrow>
          (case validateTopicAgentResponse vr output of
             Invalid e \<Rightarrow> (st, Throw e)
           | Valid \<Rightarrow>
               (case output of
                  None \<Rightarrow> (st, Throw ''TypeError'')
                | Some out \<Rightarrow>
                    if out_status out = FINAL \<and> out_verdict out \<noteq> None
                    then finalize_early (out_verdict out) st
                    else if out_status out = ASK \<and> has_question out
                    then ask_again topicIndex (question_text out) st
                    else (st, Throw ''TopicAgent returned invalid response''))))"

text \<open>After the call for the opening question of the next topic (early-final branch).\<close>

definition after_next_topic :: "reply \<Rightarrow> app \<Rightarrow> app \<times> flow result" where
  "after_next_topic r st =
     (case r of
        Rejected e \<Rightarrow> (st, Throw e)
      | Resolved nextOutput \<Rightarrow> enter_next_topic nextOutput st)"

definition resume_try ::
  "(topic_agent_output \<Rightarrow> string list) \<Rightarrow> resumption \<Rightarrow> app \<Rightarrow> app \<times> flow result" where
  "resume_try vr k st =
     (case k of
        VerdictAndNext r1 r2 \<Rightarrow> after_verdict_and_next vr r1 r2 st
      | LastVerdict r \<Rightarrow> after_last_verdict vr r st
      | SameTopic topicIndex r \<Rightarrow> after_same_topic vr topicIndex r st
      | NextTopic r \<Rightarrow> after_next_topic r st
      | EndInterviewDone \<Rightarrow> (st, Ok Finished))"

definition handleAnswerSubmit_resume ::
  "(topic_agent_output \<Rightarrow> string list) \<Rightarrow> resumption \<Rightarrow> app \<Rightarrow> app \<times> flow" where
  "handleAnswerSubmit_resume vr k st = settle (resume_try vr k st)"

text \<open>
  \<^verbatim>\<open>endInterview\<close>, after the background verdict promises have settled (their handlers
  are \<open>verdict_task_resume\<close>): the loop over the incomplete topics, with the reply of the
  call made for each topic index, then the clearing. The final summary and the
  rendering of the results change no state and are left out.
\<close>

fun finalize_incomplete ::
  "(topic \<times> nat \<times> topic_state) list \<Rightarrow> (nat \<Rightarrow> reply) \<Rightarrow> app \<Rightarrow> app \<times> unit result" where
  "finalize_incomplete [] replies st = (st, Ok ())"
| "finalize_incomplete ((t, index, topicState) # rest) replies st =
     (if qaList topicState \<noteq> [] then
        (case replies index of
           Rejected e \<Rightarrow> (st, Throw e)
         | Resolved output \<Rightarrow>
             finalize_incomplete rest replies
               (case output of
                  None \<Rightarrow> st
                | Some out \<Rightarrow>
                    if out_status out = FINAL \<and> out_verdict out \<noteq> None
                    then write_verdict index (out_verdict out) st else st))
      else finalize_incomplete rest replies st)"

definition endInterview :: "(nat \<Rightarrow> reply) \<Rightarrow> app \<Rightarrow> app" where
  "endInterview replies st =
     (case session st of
        None \<Rightarrow> st
      | Some s \<Rightarrow>
          let st1 = setProcessing True st in
          (case finalize_incomplete (getIncompleteTopics st1) replies st1 of
             (st2, Throw e) \<Rightarrow> setProcessing False (handleError e ''endInterview'' API st2)
           | (st2, Ok u) \<Rightarrow>
               setProcessing False (clearSessionCache (clearBackgroundVerdictPromises st2))))"

text \<open>The events of an interview in progress, and the step each one makes.\<close>

datatype event =
    Submit "string option"
  | Resume resumption
  | PrefetchSettled nat reply
  | VerdictSettled nat reply
  | EndInterview "nat \<Rightarrow> reply"

definition step :: "(topic_agent_output \<Rightarrow> string list) \<Rightarrow> event \<Rightarrow> app \<Rightarrow> app" where
  "step vr ev st =
     (case ev of
        Submit answerInput \<Rightarrow> fst (handleAnswerSubmit answerInput st)
      | Resume k \<Rightarrow> fst (handleAnswerSubmit_resume vr k st)
      | PrefetchSettled i r \<Rightarrow>
          (case prefetchNextTopicQuestion_resume vr i r st of Ok st' \<Rightarrow> st' | Throw e \<Rightarrow> st)
      | VerdictSettled i r \<Rightarrow>
          (case verdict_task_resume vr i r st of Ok st' \<Rightarrow> st' | Throw e \<Rightarrow> st)
      | EndInterview replies \<Rightarrow> endInterview replies st)"

definition run :: "(topic_agent_output \<Rightarrow> string list) \<Rightarrow> event list \<Rightarrow> app \<Rightarrow> app" where
  "run vr evs st = fold (step vr) evs st"

section \<open>Predicates of the statements and example states\<close>

text \<open>
  \<open>keeps st st'\<close>: the session is still there, with the same topics and the same cursor.
  \<open>advances st st'\<close>: the same, except that the cursor may have moved forward by one,
  staying inside the topic list when it was inside.
\<close>

definition keeps :: "app \<Rightarrow> app \<Rightarrow> bool" where
  "keeps st st' =
     (case session st of
        None \<Rightarrow> session st' = None
      | Some s \<Rightarrow>
          (case session st' of
             None \<Rightarrow> False
           | Some s' \<Rightarrow> topics s' = topics s \<and> currentTopicIndex s' = currentTopicIndex s))"

definition advances :: "app \<Rightarrow> app \<Rightarrow> bool" where
  "advances st st' =
     (case session st of
        None \<Rightarrow> session st' = None
      | Some s \<Rightarrow>
          (case session st' of
             None \<Rightarrow> False
           | Some s' \<Rightarrow>
               topics s' = topics s \<and>
               currentTopicIndex s \<le> currentTopicIndex s' \<and>
               currentTopicIndex s' \<le> currentTopicIndex s + 1 \<and>
               (currentTopicIndex s < length (topics s) \<longrightarrow>
                  currentTopicIndex s' < length (topics s'))))"

text \<open>\<^verbatim>\<open>validateResponse\<close> when no schema is loaded: \<^verbatim>\<open>{valid: true, errors: []}\<close>.\<close>

definition schema_not_loaded :: "topic_agent_output \<Rightarrow> string list" where
  "schema_not_loaded out = []"

text \<open>
  An interview over two topics with one question per topic, as \<^verbatim>\<open>startInterview\<close> leaves
  it: the first question is asked and the prefetch for topic 1 is in flight.
\<close>

definition demo_topics :: "topic list" where
  "demo_topics =
     [\<lparr>name = ''SQL'', importance = 3, required_level = ''solid'', merged_from = []\<rparr>,
      \<lparr>name = ''Testing'', importance = 2, required_level = ''basic'', merged_from = []\<rparr>]"

definition demo_session :: session where
  "demo_session =
     \<lparr>apiKey = ''sk-demo'', topics = demo_topics,
      topicStates = [0 \<mapsto> fresh_topic_state, 1 \<mapsto> fresh_topic_state],
      currentTopicIndex = 0, enableFinalSummary = False, maxQuestionsPerTopic = 1,
      prefetchedQuestions = Map.empty, backgroundVerdictPromises = []\<rparr>"

definition demo_app :: app where
  "demo_app = initial_app
     \<lparr>session := Some demo_session,
      currentQuestion := Some \<lparr>cq_text = ''What is a join?'', cq_topicIndex = 0\<rparr>,
      tasks := [PrefetchTask 1]\<rparr>"

text \<open>
  The answer that reaches the cap is recorded, the two calls of the transition fail on
  the network, and the user submits again: the topic now holds more answers than the cap.
\<close>

definition over_cap_app :: app where
  "over_cap_app =
     run schema_not_loaded
       [Submit (Some ''a''),
        Resume (VerdictAndNext (Rejected ''Network request failed'')
                  (Rejected ''Network request failed'')),
        Submit (Some ''b'')]
       demo_app"

text \<open>The first topic in progress with \<open>n\<close> recorded answers, under a cap of five.\<close>

definition probing_app :: "nat \<Rightarrow> app" where
  "probing_app n = demo_app
     \<lparr>session := Some (demo_session
        \<lparr>maxQuestionsPerTopic := 5,
         topicStates :=
           [0 \<mapsto> \<lparr>status = PROBING,
                      qaList = replicate n \<lparr>question = ''q'', answer = ''a''\<rparr>,
                      verdict = None\<rparr>,
            1 \<mapsto> fresh_topic_state]\<rparr>)\<rparr>"

text \<open>
  The first topic under a cap of five after its first answer was submitted: the call for
  the next question of the same topic is in flight.
\<close>

definition continuing_app :: app where
  "continuing_app = fst (handleAnswerSubmit (Some ''a'') (probing_app 0))"

definition last_topic_app :: app where
  "last_topic_app = demo_app\<lparr>session := Some (demo_session\<lparr>currentTopicIndex := 1\<rparr>)\<rparr>"

text \<open>
  Agent outputs for the examples: a final verdict, a question with a given text, and an
  output whose status is neither \<^verbatim>\<open>ask\<close> nor \<^verbatim>\<open>final\<close>.
\<close>

definition demo_verdict :: verdict where
  "demo_verdict =
     \<lparr>v_name = ''SQL'', assessed_level = ''solid'', score = 4, confidence = 4 / 5,
      strengths = [''joins''], gaps = []\<rparr>"

definition final_output :: topic_agent_output where
  "final_output = \<lparr>out_status = ''final'', out_question = None, out_verdict = Some demo_verdict\<rparr>"

definition ask_output :: "string \<Rightarrow> topic_agent_output" where
  "ask_output txt = \<lparr>out_status = ''ask'', out_question = Some \<lparr>q_text = txt\<rparr>, out_verdict = None\<rparr>"

definition odd_output :: topic_agent_output where
  "odd_output =
     \<lparr>out_status = ''maybe'', out_question = Some \<lparr>q_text = ''Fetched question?''\<rparr>,
      out_verdict = None\<rparr>"

text \<open>
  An instance of \<open>vr\<close> for the examples: the check the default topicAgent schema makes
  on \<^verbatim>\<open>status\<close> (\<^verbatim>\<open>"enum": ["ask", "final"]\<close>), with the message of \<^verbatim>\<open>validateResponse\<close>.
\<close>

definition example_schema_errors :: "topic_agent_output \<Rightarrow> string list" where
  "example_schema_errors out =
     (if out_status out \<in> set [''ask'', ''final''] then []
      else [''Field status must be one of [ask, final], got '' @ out_status out])"

text \<open>
  The demo interview after its first answer was submitted: the two calls of the
  transition are in flight.
\<close>

definition submitted_app :: app where
  "submitted_app = fst (handleAnswerSubmit (Some ''a'') demo_app)"

text \<open>
  The prefetch for topic 1 settles while the fallback fetch of a submission is in flight
  (\<open>racing_app\<close>), and the submission then resumes with the question it fetched itself
  (\<open>raced_app\<close>).
\<close>

definition demo_entry :: prefetch_entry where
  "demo_entry =
     \<lparr>pf_text = ''Prefetched question?'', pf_topicIndex = 1,
      topicAgentOutput = Some (ask_output ''Prefetched question?'')\<rparr>"

definition racing_app :: app where
  "racing_app =
     run example_schema_errors
       [Submit (Some ''a''),
        PrefetchSettled 1 (Resolved (Some (ask_output ''Prefetched question?'')))]
       demo_app"

definition raced_app :: app where
  "raced_app =
     step example_schema_errors
       (Resume (VerdictAndNext (Resolved (Some final_output))
                  (Resolved (Some (ask_output ''Fetched question?'')))))
       racing_app"

text \<open>
  The demo interview once the prefetch for topic 1 has settled (\<open>prefetched_app\<close>), and
  after the submission that consumes the prefetched question (\<open>left_app\<close>).
\<close>

definition prefetched_app :: app where
  "prefetched_app =
     step example_schema_errors
       (PrefetchSettled 1 (Resolved (Some (ask_output ''Prefetched question?'')))) demo_app"

definition left_app :: app where
  "left_app = step example_schema_errors (Submit (Some ''a'')) prefetched_app"

text \<open>
  \<open>no_verdict_launch st st'\<close>: the calls launched between the two states include no
  background verdict call.
\<close>

definition no_verdict_launch :: "app \<Rightarrow> app \<Rightarrow> bool" where
  "no_verdict_launch st st' =
     (\<exists>new. tasks st' = tasks st @ new \<and> (\<forall>K. VerdictTask K \<notin> set new))"

section \<open>Frame lemmas\<close>

lemma saveSessionToCache_frame [simp]:
  "session (saveSessionToCache cq scr st) = session st"
  "currentQuestion (saveSessionToCache cq scr st) = currentQuestion st"
  "isProcessing (saveSessionToCache cq scr st) = isProcessing st"
  "notifications (saveSessionToCache cq scr st) = notifications st"
  "tasks (saveSessionToCache cq scr st) = tasks st"
  "clock (saveSessionToCache cq scr st) = clock st"
  "quota_exceeded (localStorage (saveSessionToCache cq scr st)) = quota_exceeded (localStorage st)"
  "openai_api_key (localStorage (saveSessionToCache cq scr st)) = openai_api_key (localStorage st)"
  by (simp_all add: saveSessionToCache_def split: option.splits)

lemma ui_frame [simp]:
  "session (setCurrentQuestion q st) = session st"
  "session (setProcessing b st) = session st"
  "session (showNotification m k st) = session st"
  "session (console_write l st) = session st"
  "session (handleError e c t st) = session st"
  "session (clearSessionCache st) = session st"
  by (simp_all add: setCurrentQuestion_def setProcessing_def showNotification_def
      console_write_def handleError_def clearSessionCache_def)

lemma cursor_frame [simp]:
  "cursor (saveSessionToCache cq scr st) = cursor st"
  "cursor (setCurrentQuestion q st) = cursor st"
  "cursor (setProcessing b st) = cursor st"
  "cursor (showNotification m k st) = cursor st"
  "cursor (console_write l st) = cursor st"
  "cursor (handleError e c t st) = cursor st"
  "cursor (clearSessionCache st) = cursor st"
  by (simp_all add: cursor_def)

lemma advances_refl [simp]: "advances st st"
  by (simp add: advances_def split: option.splits)

lemma advances_same_session: "session st' = session st \<Longrightarrow> advances st st'"
  by (simp add: advances_def split: option.splits)

lemma keeps_refl [simp]: "keeps st st"
  by (simp add: keeps_def split: option.splits)

lemma keeps_trans: "keeps a b \<Longrightarrow> keeps b c \<Longrightarrow> keeps a c"
  by (auto simp: keeps_def split: option.splits)

lemma keeps_advances: "keeps a b \<Longrightarrow> advances a b"
  by (auto simp: keeps_def advances_def split: option.splits)

lemma keeps_advances_trans: "keeps a b \<Longrightarrow> advances b c \<Longrightarrow> advances a c"
  by (auto simp: keeps_def advances_def split: option.splits)

lemma advances_keeps_trans: "advances a b \<Longrightarrow> keeps b c \<Longrightarrow> advances a c"
  by (auto simp: keeps_def advances_def split: option.splits)

lemma keeps_same_session: "session st' = session st \<Longrightarrow> keeps st st'"
  by (simp add: keeps_def split: option.splits)

lemma keeps_simple [simp]:
  "keeps st (saveSessionToCache cq scr st)"
  "keeps st (setCurrentQuestion q st)"
  "keeps st (setProcessing b st)"
  "keeps st (showNotification m k st)"
  "keeps st (console_write l st)"
  "keeps st (handleError e c t st)"
  "keeps st (clearSessionCache st)"
  by (simp_all add: keeps_same_session)

lemma keeps_mutators [simp]:
  "keeps st (addQaToCurrentTopic q a st)"
  "keeps st (setCurrentTopicVerdict v st)"
  "keeps st (write_verdict i v st)"
  "keeps st (setPrefetchedQuestion i d st)"
  "keeps st (clearPrefetchedQuestion i st)"
  "keeps st (clearAllPrefetchedQuestions st)"
  "keeps st (addBackgroundVerdictPromise p st)"
  "keeps st (clearBackgroundVerdictPromises st)"
  "keeps st (prefetchNextTopicQuestion st)"
  "keeps st (show_question txt st)"
  by (auto simp: keeps_def addQaToCurrentTopic_def setCurrentTopicVerdict_def write_verdict_def
      setPrefetchedQuestion_def clearPrefetchedQuestion_def clearAllPrefetchedQuestions_def
      addBackgroundVerdictPromise_def clearBackgroundVerdictPromises_def
      prefetchNextTopicQuestion_def show_question_def launch_def Let_def
      split: option.splits)

lemma keeps_tasks [simp]: "keeps st (launch t st)"
  by (simp add: keeps_same_session launch_def)

lemma advances_moveToNextTopic: "advances st (fst (moveToNextTopic st))"
  by (auto simp: advances_def moveToNextTopic_def split: option.splits)

lemma keeps_after:
  assumes "keeps st x"
  shows "keeps st (saveSessionToCache cq scr x)"
    and "keeps st (setCurrentQuestion q x)"
    and "keeps st (setProcessing b x)"
    and "keeps st (showNotification m k x)"
    and "keeps st (console_write l x)"
    and "keeps st (handleError e1 c1 t1 x)"
    and "keeps st (clearSessionCache x)"
    and "keeps st (addQaToCurrentTopic q1 a1 x)"
    and "keeps st (setCurrentTopicVerdict v x)"
    and "keeps st (write_verdict i v x)"
    and "keeps st (setPrefetchedQuestion i d x)"
    and "keeps st (clearPrefetchedQuestion i x)"
    and "keeps st (clearAllPrefetchedQuestions x)"
    and "keeps st (addBackgroundVerdictPromise p x)"
    and "keeps st (clearBackgroundVerdictPromises x)"
    and "keeps st (prefetchNextTopicQuestion x)"
    and "keeps st (show_question txt x)"
    and "keeps st (launch ta x)"
  using assms by (blast intro: keeps_trans keeps_simple keeps_mutators keeps_tasks)+

lemma advances_after:
  assumes "advances st x"
  shows "advances st (saveSessionToCache cq scr x)"
    and "advances st (setCurrentQuestion q x)"
    and "advances st (setProcessing b x)"
    and "advances st (showNotification m k x)"
    and "advances st (console_write l x)"
    and "advances st (handleError e1 c1 t1 x)"
    and "advances st (clearSessionCache x)"
    and "advances st (addQaToCurrentTopic q1 a1 x)"
    and "advances st (setCurrentTopicVerdict v x)"
    and "advances st (write_verdict i v x)"
    and "advances st (setPrefetchedQuestion i d x)"
    and "advances st (clearPrefetchedQuestion i x)"
    and "advances st (clearAllPrefetchedQuestions x)"
    and "advances st (addBackgroundVerdictPromise p x)"
    and "advances st (clearBackgroundVerdictPromises x)"
    and "advances st (prefetchNextTopicQuestion x)"
    and "advances st (show_question txt x)"
    and "advances st (launch ta x)"
  using assms by (blast intro: advances_keeps_trans keeps_simple keeps_mutators keeps_tasks)+

lemma advances_move_after: "keeps st x \<Longrightarrow> advances st (fst (moveToNextTopic x))"
  by (rule keeps_advances_trans[OF _ advances_moveToNextTopic])

lemma advances_consume_prefetched:
  "keeps st x \<Longrightarrow> advances st (fst (consume_prefetched e x))"
  unfolding consume_prefetched_def Let_def
  by (auto intro!: advances_after advances_move_after keeps_after intro: keeps_advances)

lemma advances_submit_try: "advances st (fst (submit_try ans cq st))"
  unfolding submit_try_def Let_def
  by (auto split: option.splits intro!: advances_consume_prefetched keeps_after
      intro: keeps_advances)

lemma advances_enter_next_topic:
  "keeps st x \<Longrightarrow> advances st (fst (enter_next_topic out x))"
  unfolding enter_next_topic_def Let_def
  by (auto intro!: advances_after advances_move_after keeps_after intro: keeps_advances)

lemma advances_after_verdict_and_next:
  "advances st (fst (after_verdict_and_next vr r1 r2 st))"
  unfolding after_verdict_and_next_def Let_def
  by (auto split: reply.splits validation.splits
      intro!: advances_after advances_move_after keeps_after intro: keeps_advances)

lemma advances_after_last_verdict: "advances st (fst (after_last_verdict vr r st))"
  unfolding after_last_verdict_def
  by (auto split: reply.splits validation.splits intro!: keeps_advances keeps_after)

lemma advances_finalize_early: "advances st (fst (finalize_early v st))"
  unfolding finalize_early_def Let_def
  by (auto split: option.splits intro!: advances_enter_next_topic keeps_after
      intro: keeps_advances)

lemma advances_ask_again: "advances st (fst (ask_again i txt st))"
  unfolding ask_again_def Let_def
  by (auto intro!: keeps_advances keeps_after)

lemma advances_after_same_topic: "advances st (fst (after_same_topic vr i r st))"
  unfolding after_same_topic_def
  by (auto split: reply.splits validation.splits option.splits
      simp: advances_finalize_early advances_ask_again)

lemma advances_after_next_topic: "advances st (fst (after_next_topic r st))"
  unfolding after_next_topic_def
  by (auto split: reply.splits intro!: advances_enter_next_topic)

lemma advances_resume_try: "advances st (fst (resume_try vr k st))"
  unfolding resume_try_def
  by (auto split: resumption.splits
      simp: advances_after_verdict_and_next advances_after_last_verdict
        advances_after_same_topic advances_after_next_topic)

lemma advances_settle: "advances st (fst x) \<Longrightarrow> advances st (fst (settle x))"
  unfolding settle_def
  by (auto split: prod.splits result.splits flow.splits intro!: advances_after)

lemma advances_submit_try_after:
  "keeps st x \<Longrightarrow> advances st (fst (submit_try ans cq x))"
  by (rule keeps_advances_trans[OF _ advances_submit_try])

lemma advances_handleAnswerSubmit: "advances st (fst (handleAnswerSubmit inp st))"
  unfolding handleAnswerSubmit_def
  by (auto split: option.splits validation.splits
      intro!: advances_settle advances_submit_try_after keeps_after
      intro: keeps_advances advances_after)

lemma advances_handleAnswerSubmit_resume:
  "advances st (fst (handleAnswerSubmit_resume vr k st))"
  unfolding handleAnswerSubmit_resume_def
  by (intro advances_settle advances_resume_try)

lemma keeps_prefetch_resume:
  "\<exists>st'. prefetchNextTopicQuestion_resume vr i r st = Ok st' \<and> keeps st st'"
  unfolding prefetchNextTopicQuestion_resume_def prefetch_try_def try_catch_def
  by (auto split: reply.splits validation.splits intro!: keeps_after)

lemma keeps_verdict_resume:
  "\<exists>st'. verdict_task_resume vr i r st = Ok st' \<and> keeps st st'"
  unfolding verdict_task_resume_def verdict_then_def try_catch_def
  by (auto split: reply.splits validation.splits option.splits intro!: keeps_after)

lemma keeps_finalize_incomplete:
  "keeps st x \<Longrightarrow> keeps st (fst (finalize_incomplete xs replies x))"
  by (induction xs replies x rule: finalize_incomplete.induct)
     (auto split: reply.splits option.splits simp: keeps_after)

lemma keeps_endInterview: "keeps st (endInterview replies st)"
  unfolding endInterview_def Let_def
  by (auto split: option.splits prod.splits result.splits
      intro!: keeps_after
      dest!: arg_cong[where f=fst] simp: keeps_finalize_incomplete)

lemma advances_step: "advances st (step vr ev st)"
proof (cases ev)
  case (Submit inp)
  then show ?thesis by (simp add: step_def advances_handleAnswerSubmit)
next
  case (Resume k)
  then show ?thesis by (simp add: step_def advances_handleAnswerSubmit_resume)
next
  case (PrefetchSettled i r)
  from keeps_prefetch_resume[of vr i r st] obtain st' where
    "prefetchNextTopicQuestion_resume vr i r st = Ok st'" "keeps st st'" by blast
  with PrefetchSettled show ?thesis by (simp add: step_def keeps_advances)
next
  case (VerdictSettled i r)
  from keeps_verdict_resume[of vr i r st] obtain st' where
    "verdict_task_resume vr i r st = Ok st'" "keeps st st'" by blast
  with VerdictSettled show ?thesis by (simp add: step_def keeps_advances)
next
  case (EndInterview replies)
  then show ?thesis by (simp add: step_def keeps_advances keeps_endInterview)
qed

lemma run_cursor:
  "session st = Some s \<Longrightarrow>
   \<exists>s'. session (run vr evs st) = Some s' \<and> topics s' = topics s \<and>
        currentTopicIndex s \<le> currentTopicIndex s' \<and>
        (currentTopicIndex s < length (topics s) \<longrightarrow> currentTopicIndex s' < length (topics s'))"
proof (induction evs arbitrary: st s)
  case Nil
  then show ?case by (simp add: run_def)
next
  case (Cons ev evs)
  from advances_step[of st vr ev] Cons.prems
  obtain s1 where s1: "session (step vr ev st) = Some s1" "topics s1 = topics s"
    "currentTopicIndex s \<le> currentTopicIndex s1"
    "currentTopicIndex s < length (topics s) \<longrightarrow> currentTopicIndex s1 < length (topics s1)"
    by (auto simp: advances_def split: option.splits)
  from Cons.IH[OF s1(1)] s1 show ?case
    by (auto simp: run_def)
qed

section \<open>Evaluating the example states\<close>

lemmas demo_defs = demo_app_def demo_session_def demo_topics_def initial_app_def
  fresh_topic_state_def schema_not_loaded_def

lemmas flow_defs = run_def step_def handleAnswerSubmit_def handleAnswerSubmit_resume_def
  settle_def submit_try_def consume_prefetched_def resume_try_def
  after_verdict_and_next_def after_last_verdict_def after_same_topic_def
  after_next_topic_def finalize_early_def ask_again_def on_penultimate_question_def
  enter_next_topic_def show_question_def
  validateAnswer_def trim_def is_space_def
  getCurrentTopic_def getCurrentTopicState_def addQaToCurrentTopic_def
  setCurrentTopicVerdict_def moveToNextTopic_def hasMoreTopics_def
  shouldContinueCurrentTopic_def cursor_def topicState_at_def write_verdict_def
  setPrefetchedQuestion_def getPrefetchedQuestion_def clearPrefetchedQuestion_def
  addBackgroundVerdictPromise_def prefetchNextTopicQuestion_def launch_def
  saveSessionToCache_def session_data_of_def CACHE_VERSION_def
  setCurrentQuestion_def setProcessing_def showNotification_def console_write_def
  handleError_def userMessage_def
  validateTopicAgentAsk_def validateTopicAgentFinal_def validateTopicAgentResponse_def
  valid_ask_inline_def output_text_def has_question_def question_text_def ASK_def FINAL_def
  try_catch_def verdict_task_resume_def verdict_then_def
  prefetchNextTopicQuestion_resume_def prefetch_try_def

lemma over_cap_session:
  "session over_cap_app = Some (demo_session\<lparr>topicStates :=
     [0 \<mapsto> \<lparr>status = PROBING,
                qaList = [\<lparr>question = ''What is a join?'', answer = ''a''\<rparr>,
                          \<lparr>question = ''What is a join?'', answer = ''b''\<rparr>],
                verdict = None\<rparr>,
      1 \<mapsto> fresh_topic_state]\<rparr>)"
  by (simp add: over_cap_app_def demo_defs flow_defs Let_def fun_upd_twist)

section \<open>Lemmas on the flow\<close>

lemma prefetch_launch:
  "prefetchNextTopicQuestion st = st \<or>
   prefetchNextTopicQuestion st = launch (PrefetchTask (cursor st + 1)) st"
  by (simp add: prefetchNextTopicQuestion_def cursor_def Let_def split: option.splits)

lemma other_frame [simp]:
  "currentQuestion (console_write l st) = currentQuestion st"
  "isProcessing (console_write l st) = isProcessing st"
  "notifications (console_write l st) = notifications st"
  "tasks (console_write l st) = tasks st"
  "console (console_write l st) = console st @ [l]"
  "localStorage (console_write l st) = localStorage st"
  "currentQuestion (setPrefetchedQuestion i d st) = currentQuestion st"
  "isProcessing (setPrefetchedQuestion i d st) = isProcessing st"
  "notifications (setPrefetchedQuestion i d st) = notifications st"
  "tasks (setPrefetchedQuestion i d st) = tasks st"
  "cursor (setPrefetchedQuestion i d st) = cursor st"
  by (simp_all add: console_write_def setPrefetchedQuestion_def cursor_def split: option.splits)

lemma session_setPrefetchedQuestion:
  "session (setPrefetchedQuestion i d st) =
     (case session st of
        None \<Rightarrow> None
      | Some s \<Rightarrow> Some (s\<lparr>prefetchedQuestions :=
          (if i < length (topics s) then (prefetchedQuestions s)(i \<mapsto> d)
           else prefetchedQuestions s)\<rparr>))"
  by (simp add: setPrefetchedQuestion_def split: option.splits)

lemma ASK_neq_FINAL [simp]: "ASK \<noteq> FINAL" "FINAL \<noteq> ASK"
  by (simp_all add: ASK_def FINAL_def)

text \<open>The functions of the flow do not read the notifications.\<close>

lemma notif_query:
  "getCurrentTopic (st\<lparr>notifications := n\<rparr>) = getCurrentTopic st"
  "getCurrentTopicState (st\<lparr>notifications := n\<rparr>) = getCurrentTopicState st"
  "hasMoreTopics (st\<lparr>notifications := n\<rparr>) = hasMoreTopics st"
  "getPrefetchedQuestion i (st\<lparr>notifications := n\<rparr>) = getPrefetchedQuestion i st"
  "cursor (st\<lparr>notifications := n\<rparr>) = cursor st"
  "topicState_at i (st\<lparr>notifications := n\<rparr>) = topicState_at i st"
  "shouldContinueCurrentTopic (st\<lparr>notifications := n\<rparr>) = shouldContinueCurrentTopic st"
  by (simp_all add: getCurrentTopic_def getCurrentTopicState_def hasMoreTopics_def
      getPrefetchedQuestion_def cursor_def topicState_at_def shouldContinueCurrentTopic_def
      cong: option.case_cong)

lemma notif_commute:
  "saveSessionToCache cq scr (st\<lparr>notifications := n\<rparr>) =
     (saveSessionToCache cq scr st)\<lparr>notifications := n\<rparr>"
  "setCurrentQuestion q (st\<lparr>notifications := n\<rparr>) = (setCurrentQuestion q st)\<lparr>notifications := n\<rparr>"
  "setProcessing b (st\<lparr>notifications := n\<rparr>) = (setProcessing b st)\<lparr>notifications := n\<rparr>"
  "console_write l (st\<lparr>notifications := n\<rparr>) = (console_write l st)\<lparr>notifications := n\<rparr>"
  "launch t (st\<lparr>notifications := n\<rparr>) = (launch t st)\<lparr>notifications := n\<rparr>"
  by (simp_all add: saveSessionToCache_def setCurrentQuestion_def setProcessing_def
      console_write_def launch_def split: option.splits)

lemma notif_commute2:
  "addQaToCurrentTopic q1 a1 (st\<lparr>notifications := n\<rparr>) =
     (addQaToCurrentTopic q1 a1 st)\<lparr>notifications := n\<rparr>"
  "setCurrentTopicVerdict v (st\<lparr>notifications := n\<rparr>) =
     (setCurrentTopicVerdict v st)\<lparr>notifications := n\<rparr>"
  by (simp_all add: addQaToCurrentTopic_def setCurrentTopicVerdict_def notif_query
      saveSessionToCache_def split: option.splits)

lemma notif_commute3:
  "clearPrefetchedQuestion i (st\<lparr>notifications := n\<rparr>) =
     (clearPrefetchedQuestion i st)\<lparr>notifications := n\<rparr>"
  "addBackgroundVerdictPromise p (st\<lparr>notifications := n\<rparr>) =
     (addBackgroundVerdictPromise p st)\<lparr>notifications := n\<rparr>"
  by (simp_all add: clearPrefetchedQuestion_def addBackgroundVerdictPromise_def
      saveSessionToCache_def split: option.splits)

lemma notif_commute4:
  "prefetchNextTopicQuestion (st\<lparr>notifications := n\<rparr>) =
     (prefetchNextTopicQuestion st)\<lparr>notifications := n\<rparr>"
  by (simp add: prefetchNextTopicQuestion_def Let_def notif_query notif_commute
      split: option.splits)

lemma notif_commute5:
  "fst (moveToNextTopic (st\<lparr>notifications := n\<rparr>)) =
     (fst (moveToNextTopic st))\<lparr>notifications := n\<rparr>"
  by (simp add: moveToNextTopic_def saveSessionToCache_def split: option.splits)

lemma notif_commute6:
  "show_question txt (st\<lparr>notifications := n\<rparr>) = (show_question txt st)\<lparr>notifications := n\<rparr>"
  by (simp add: show_question_def Let_def notif_query setCurrentQuestion_def
      saveSessionToCache_def split: option.splits)

lemmas notif_simps = notif_query notif_commute notif_commute2 notif_commute3 notif_commute4
  notif_commute5 notif_commute6

lemma notif_enter_next_topic:
  "enter_next_topic out (st\<lparr>notifications := n\<rparr>) =
     ((fst (enter_next_topic out st))\<lparr>notifications := n\<rparr>, snd (enter_next_topic out st))"
  by (simp add: enter_next_topic_def Let_def notif_simps)

lemma notif_after_verdict_and_next:
  "after_verdict_and_next vr r1 r2 (st\<lparr>notifications := n\<rparr>) =
     ((fst (after_verdict_and_next vr r1 r2 st))\<lparr>notifications := n\<rparr>,
      snd (after_verdict_and_next vr r1 r2 st))"
  by (cases r1; cases r2)
     (simp_all add: after_verdict_and_next_def Let_def notif_simps split: validation.splits)

lemma notif_after_last_verdict:
  "after_last_verdict vr r (st\<lparr>notifications := n\<rparr>) =
     ((fst (after_last_verdict vr r st))\<lparr>notifications := n\<rparr>,
      snd (after_last_verdict vr r st))"
  by (cases r) (simp_all add: after_last_verdict_def notif_simps split: validation.splits)

lemma notif_after_next_topic:
  "after_next_topic r (st\<lparr>notifications := n\<rparr>) =
     ((fst (after_next_topic r st))\<lparr>notifications := n\<rparr>, snd (after_next_topic r st))"
  by (cases r) (simp_all add: after_next_topic_def notif_enter_next_topic)

lemma notif_finalize_early:
  "finalize_early v (st\<lparr>notifications := n\<rparr>) =
     ((fst (finalize_early v st))\<lparr>notifications := n\<rparr>, snd (finalize_early v st))"
proof (cases "hasMoreTopics (setCurrentTopicVerdict v st)")
  case False
  then show ?thesis by (simp add: finalize_early_def Let_def notif_simps)
next
  case True
  show ?thesis
  proof (cases "getPrefetchedQuestion (cursor (setCurrentTopicVerdict v st) + 1)
                  (setCurrentTopicVerdict v st)")
    case None
    with True show ?thesis by (simp add: finalize_early_def Let_def notif_simps)
  next
    case (Some e)
    with True show ?thesis
      by (simp add: finalize_early_def Let_def notif_simps notif_enter_next_topic)
  qed
qed

lemma notif_on_penultimate_question:
  "on_penultimate_question i (st\<lparr>notifications := n\<rparr>) = on_penultimate_question i st"
  by (simp add: on_penultimate_question_def)

lemma notif_ask_again:
  "ask_again i txt (st\<lparr>notifications := n\<rparr>) =
     ((fst (ask_again i txt st))\<lparr>notifications := n\<rparr>, snd (ask_again i txt st))"
  by (simp add: ask_again_def Let_def notif_simps notif_on_penultimate_question)

lemma notif_after_same_topic:
  "after_same_topic vr i r (st\<lparr>notifications := n\<rparr>) =
     ((fst (after_same_topic vr i r st))\<lparr>notifications := n\<rparr>,
      snd (after_same_topic vr i r st))"
proof (cases r)
  case (Rejected e)
  then show ?thesis by (simp add: after_same_topic_def)
next
  case (Resolved agentOut)
  show ?thesis
  proof (cases "validateTopicAgentResponse vr agentOut")
    case (Invalid e)
    with Resolved show ?thesis by (simp add: after_same_topic_def)
  next
    case Valid
    show ?thesis
    proof (cases agentOut)
      case None
      with Resolved Valid show ?thesis by (simp add: after_same_topic_def)
    next
      case (Some out)
      show ?thesis
      proof (cases "out_status out = FINAL \<and> out_verdict out \<noteq> None")
        case True
        with Resolved Valid Some show ?thesis
          by (simp add: after_same_topic_def notif_finalize_early del: not_None_eq)
      next
        case False
        with Resolved Valid Some show ?thesis
          by (cases "out_status out = ASK \<and> has_question out")
             (auto simp add: after_same_topic_def notif_ask_again simp del: not_None_eq)
      qed
    qed
  qed
qed

lemma notif_resume_try:
  "resume_try vr k (st\<lparr>notifications := n\<rparr>) =
     ((fst (resume_try vr k st))\<lparr>notifications := n\<rparr>, snd (resume_try vr k st))"
  by (cases k)
     (simp_all add: resume_try_def notif_after_verdict_and_next notif_after_last_verdict
        notif_after_same_topic notif_after_next_topic)

lemma session_frame2 [simp]:
  "session (launch t st) = session st"
  "session (show_question txt st) = session st"
  "session (prefetchNextTopicQuestion st) = session st"
  by (simp_all add: launch_def show_question_def prefetchNextTopicQuestion_def Let_def
      setCurrentQuestion_def split: option.splits)

lemma session_clearPrefetchedQuestion:
  "session (clearPrefetchedQuestion i st) =
     map_option (\<lambda>s. s\<lparr>prefetchedQuestions := (prefetchedQuestions s)(i := None)\<rparr>) (session st)"
  by (auto simp: clearPrefetchedQuestion_def fun_upd_idem split: option.splits)

lemma session_moveToNextTopic:
  "session (fst (moveToNextTopic st)) =
     map_option (\<lambda>s. if int (currentTopicIndex s) < int (length (topics s)) - 1
                      then s\<lparr>currentTopicIndex := currentTopicIndex s + 1\<rparr> else s) (session st)"
  by (simp add: moveToNextTopic_def split: option.splits)

lemma session_addBackgroundVerdictPromise:
  "session (addBackgroundVerdictPromise p st) =
     map_option (\<lambda>s. s\<lparr>backgroundVerdictPromises := backgroundVerdictPromises s @ [p]\<rparr>)
       (session st)"
  by (simp add: addBackgroundVerdictPromise_def split: option.splits)

lemma session_addQaToCurrentTopic:
  "session (addQaToCurrentTopic q1 a1 st) =
     (case getCurrentTopicState st of
        None \<Rightarrow> session st
      | Some ts \<Rightarrow>
          map_option (\<lambda>s. s\<lparr>topicStates := (topicStates s)
            (currentTopicIndex s \<mapsto> ts\<lparr>qaList := qaList ts @ [\<lparr>question = q1, answer = a1\<rparr>],
                                         status := PROBING\<rparr>)\<rparr>) (session st))"
  by (simp add: addQaToCurrentTopic_def getCurrentTopicState_def split: option.splits)

lemma session_setCurrentTopicVerdict:
  "session (setCurrentTopicVerdict v st) =
     (case getCurrentTopicState st of
        None \<Rightarrow> session st
      | Some ts \<Rightarrow>
          map_option (\<lambda>s. s\<lparr>topicStates := (topicStates s)
            (currentTopicIndex s \<mapsto> ts\<lparr>verdict := v, status := DONE\<rparr>)\<rparr>) (session st))"
  by (simp add: setCurrentTopicVerdict_def getCurrentTopicState_def split: option.splits)

lemma currentQuestion_frame [simp]:
  "currentQuestion (launch t st) = currentQuestion st"
  "currentQuestion (setProcessing b st) = currentQuestion st"
  "currentQuestion (showNotification m k st) = currentQuestion st"
  "currentQuestion (handleError e1 c1 t1 st) = currentQuestion st"
  "currentQuestion (addQaToCurrentTopic q1 a1 st) = currentQuestion st"
  "currentQuestion (setCurrentTopicVerdict v st) = currentQuestion st"
  "currentQuestion (clearPrefetchedQuestion i st) = currentQuestion st"
  "currentQuestion (addBackgroundVerdictPromise p st) = currentQuestion st"
  "currentQuestion (prefetchNextTopicQuestion st) = currentQuestion st"
  "currentQuestion (fst (moveToNextTopic st)) = currentQuestion st"
  "currentQuestion (show_question txt st) = Some \<lparr>cq_text = txt, cq_topicIndex = cursor st\<rparr>"
  by (simp_all add: launch_def setProcessing_def showNotification_def handleError_def
      console_write_def addQaToCurrentTopic_def setCurrentTopicVerdict_def
      clearPrefetchedQuestion_def addBackgroundVerdictPromise_def
      prefetchNextTopicQuestion_def moveToNextTopic_def show_question_def
      setCurrentQuestion_def Let_def split: option.splits)

lemma isProcessing_frame [simp]:
  "isProcessing (launch t st) = isProcessing st"
  "isProcessing (setProcessing b st) = b"
  "isProcessing (showNotification m k st) = isProcessing st"
  "isProcessing (handleError e1 c1 t1 st) = isProcessing st"
  "isProcessing (addQaToCurrentTopic q1 a1 st) = isProcessing st"
  "isProcessing (setCurrentTopicVerdict v st) = isProcessing st"
  "isProcessing (clearPrefetchedQuestion i st) = isProcessing st"
  "isProcessing (addBackgroundVerdictPromise p st) = isProcessing st"
  "isProcessing (prefetchNextTopicQuestion st) = isProcessing st"
  "isProcessing (fst (moveToNextTopic st)) = isProcessing st"
  "isProcessing (show_question txt st) = isProcessing st"
  by (simp_all add: launch_def setProcessing_def showNotification_def handleError_def
      console_write_def addQaToCurrentTopic_def setCurrentTopicVerdict_def
      clearPrefetchedQuestion_def addBackgroundVerdictPromise_def
      prefetchNextTopicQuestion_def moveToNextTopic_def show_question_def
      setCurrentQuestion_def Let_def split: option.splits)

lemma tasks_frame [simp]:
  "tasks (launch t st) = tasks st @ [t]"
  "tasks (setProcessing b st) = tasks st"
  "tasks (showNotification m k st) = tasks st"
  "tasks (handleError e1 c1 t1 st) = tasks st"
  "tasks (addQaToCurrentTopic q1 a1 st) = tasks st"
  "tasks (setCurrentTopicVerdict v st) = tasks st"
  "tasks (clearPrefetchedQuestion i st) = tasks st"
  "tasks (addBackgroundVerdictPromise p st) = tasks st"
  "tasks (fst (moveToNextTopic st)) = tasks st"
  "tasks (show_question txt st) = tasks st"
  by (simp_all add: launch_def setProcessing_def showNotification_def handleError_def
      console_write_def addQaToCurrentTopic_def setCurrentTopicVerdict_def
      clearPrefetchedQuestion_def addBackgroundVerdictPromise_def
      moveToNextTopic_def show_question_def
      setCurrentQuestion_def Let_def split: option.splits)

lemma tasks_prefetchNextTopicQuestion:
  "tasks (prefetchNextTopicQuestion st) = tasks st \<or>
   tasks (prefetchNextTopicQuestion st) = tasks st @ [PrefetchTask (cursor st + 1)]"
  using prefetch_launch[of st] by (auto simp: launch_def)

lemma cursor_frame2 [simp]:
  "cursor (launch t st) = cursor st"
  "cursor (show_question txt st) = cursor st"
  "cursor (prefetchNextTopicQuestion st) = cursor st"
  "cursor (addQaToCurrentTopic q1 a1 st) = cursor st"
  "cursor (setCurrentTopicVerdict v st) = cursor st"
  "cursor (clearPrefetchedQuestion i st) = cursor st"
  "cursor (addBackgroundVerdictPromise p st) = cursor st"
  by (auto simp: cursor_def session_clearPrefetchedQuestion
      session_addBackgroundVerdictPromise session_addQaToCurrentTopic
      session_setCurrentTopicVerdict split: option.splits)

lemma hasMoreTopics_cursor:
  "hasMoreTopics st \<Longrightarrow> cursor (fst (moveToNextTopic st)) = cursor st + 1"
  by (auto simp: hasMoreTopics_def cursor_def session_moveToNextTopic split: option.splits)

lemma not_hasMoreTopics_move:
  "\<not> hasMoreTopics st \<Longrightarrow> fst (moveToNextTopic st) = st"
  by (simp add: hasMoreTopics_def moveToNextTopic_def split: option.splits)

lemma hasMoreTopics_frame [simp]:
  "hasMoreTopics (clearPrefetchedQuestion i st) = hasMoreTopics st"
  "hasMoreTopics (addQaToCurrentTopic q1 a1 st) = hasMoreTopics st"
  "hasMoreTopics (setCurrentTopicVerdict v st) = hasMoreTopics st"
  by (auto simp: hasMoreTopics_def session_clearPrefetchedQuestion
      session_addQaToCurrentTopic session_setCurrentTopicVerdict split: option.splits)

lemma getPrefetchedQuestion_frame [simp]:
  "getPrefetchedQuestion i (addQaToCurrentTopic q1 a1 st) = getPrefetchedQuestion i st"
  "getPrefetchedQuestion i (setCurrentTopicVerdict v st) = getPrefetchedQuestion i st"
  "getPrefetchedQuestion i (setProcessing b st) = getPrefetchedQuestion i st"
  by (auto simp: getPrefetchedQuestion_def session_addQaToCurrentTopic
      session_setCurrentTopicVerdict setProcessing_def split: option.splits)

text \<open>What consuming a valid prefetched question does.\<close>

lemma consume_prefetched_valid:
  assumes "valid_ask_inline (topicAgentOutput e)" and "hasMoreTopics st"
  shows "snd (consume_prefetched e st) = Ok Finished"
    and "currentQuestion (fst (consume_prefetched e st)) =
           Some \<lparr>cq_text = output_text (topicAgentOutput e), cq_topicIndex = cursor st + 1\<rparr>"
    and "cursor (fst (consume_prefetched e st)) = cursor st + 1"
    and "getPrefetchedQuestion (cursor st + 1) (fst (consume_prefetched e st)) = None"
    and "session (fst (consume_prefetched e st)) =
           map_option (\<lambda>s. s\<lparr>prefetchedQuestions :=
                               (prefetchedQuestions s)(currentTopicIndex s + 1 := None),
                             currentTopicIndex := currentTopicIndex s + 1,
                             backgroundVerdictPromises :=
                               backgroundVerdictPromises s @ [currentTopicIndex s]\<rparr>)
             (session st)"
  using assms
  by (auto simp: consume_prefetched_def Let_def hasMoreTopics_cursor
      session_addBackgroundVerdictPromise session_moveToNextTopic
      session_clearPrefetchedQuestion getPrefetchedQuestion_def hasMoreTopics_def cursor_def
      split: option.splits)

lemma consume_prefetched_invalid:
  "\<not> valid_ask_inline (topicAgentOutput e) \<Longrightarrow>
     consume_prefetched e st = (st, Throw ''Prefetched question is invalid'')"
  by (simp add: consume_prefetched_def)

lemma consume_prefetched_tasks:
  assumes "valid_ask_inline (topicAgentOutput e)"
  shows "tasks (fst (consume_prefetched e st)) = tasks st @ [VerdictTask (cursor st)] \<or>
         tasks (fst (consume_prefetched e st)) =
           tasks st @ [VerdictTask (cursor st),
                       PrefetchTask (cursor (fst (consume_prefetched e st)) + 1)]"
  using assms
    tasks_prefetchNextTopicQuestion[of "addBackgroundVerdictPromise (cursor st)
      (launch (VerdictTask (cursor st))
        (show_question (output_text (topicAgentOutput e))
          (fst (moveToNextTopic (clearPrefetchedQuestion (cursor st + 1) st)))))"]
  by (auto simp: consume_prefetched_def Let_def)

lemmas example_defs = demo_defs demo_verdict_def final_output_def ask_output_def
  odd_output_def example_schema_errors_def

lemma submitted_app_eq:
  "submitted_app = demo_app
     \<lparr>session := Some (demo_session\<lparr>topicStates :=
        [0 \<mapsto> \<lparr>status = PROBING,
                   qaList = [\<lparr>question = ''What is a join?'', answer = ''a''\<rparr>],
                   verdict = None\<rparr>,
         1 \<mapsto> fresh_topic_state]\<rparr>),
      isProcessing := True,
      localStorage := \<lparr>interview_session_cache = Some
          \<lparr>version = ''2.0'', timestamp = 0,
           cd_session = session_data_of (demo_session\<lparr>topicStates :=
              [0 \<mapsto> \<lparr>status = PROBING,
                   qaList = [\<lparr>question = ''What is a join?'', answer = ''a''\<rparr>],
                   verdict = None\<rparr>,
               1 \<mapsto> fresh_topic_state]\<rparr>),
           cd_currentQuestion = None, cd_currentScreen = ''interview''\<rparr>,
        openai_api_key = None, quota_exceeded = False\<rparr>\<rparr>"
  by (simp add: submitted_app_def demo_defs flow_defs Let_def fun_upd_twist)

lemma topicState_at_setCurrentTopicVerdict:
  "j \<noteq> cursor st \<Longrightarrow> topicState_at j (setCurrentTopicVerdict v st) = topicState_at j st"
  by (auto simp: topicState_at_def cursor_def session_setCurrentTopicVerdict
      split: option.splits)

lemma localStorage_abort [simp]:
  "localStorage (setProcessing b st) = localStorage st"
  "localStorage (handleError e c t st) = localStorage st"
  "localStorage (showNotification m k st) = localStorage st"
  by (simp_all add: setProcessing_def handleError_def showNotification_def console_write_def)

lemma notifications_abort [simp]:
  "notifications (setProcessing b st) = notifications st"
  "notifications (handleError e c t st) = notifications st @ [(userMessage e t, ''error'')]"
  by (simp_all add: setProcessing_def handleError_def showNotification_def console_write_def)

lemma enter_next_topic_valid:
  assumes "valid_ask_inline out" and "hasMoreTopics st"
  shows "snd (enter_next_topic out st) = Ok Finished"
    and "currentQuestion (fst (enter_next_topic out st)) =
           Some \<lparr>cq_text = output_text out, cq_topicIndex = cursor st + 1\<rparr>"
    and "cursor (fst (enter_next_topic out st)) = cursor st + 1"
    and "session (fst (enter_next_topic out st)) = session (fst (moveToNextTopic st))"
  using assms by (simp_all add: enter_next_topic_def Let_def hasMoreTopics_cursor)

lemma enter_next_topic_cursor:
  "cursor (fst (enter_next_topic out st)) \<noteq> cursor st \<Longrightarrow>
     valid_ask_inline out \<and> hasMoreTopics st"
  by (cases "valid_ask_inline out"; cases "hasMoreTopics st")
     (simp_all add: enter_next_topic_def Let_def not_hasMoreTopics_move)

lemma consume_prefetched_cursor:
  "cursor (fst (consume_prefetched e st)) \<noteq> cursor st \<Longrightarrow>
     valid_ask_inline (topicAgentOutput e) \<and> hasMoreTopics st"
  by (cases "valid_ask_inline (topicAgentOutput e)"; cases "hasMoreTopics st")
     (simp_all add: consume_prefetched_def Let_def not_hasMoreTopics_move)

lemma getPrefetchedQuestion_cleared:
  "getPrefetchedQuestion i (clearPrefetchedQuestion i st) = None"
  by (auto simp: getPrefetchedQuestion_def session_clearPrefetchedQuestion split: option.splits)

lemma getPrefetchedQuestion_session:
  "session st' = session st \<Longrightarrow> getPrefetchedQuestion i st' = getPrefetchedQuestion i st"
  by (simp add: getPrefetchedQuestion_def)

lemma getPrefetchedQuestion_move:
  "getPrefetchedQuestion i (fst (moveToNextTopic st)) = getPrefetchedQuestion i st"
  by (auto simp: getPrefetchedQuestion_def session_moveToNextTopic split: option.splits)

lemma enter_next_topic_prefetched:
  "getPrefetchedQuestion i (fst (enter_next_topic out st)) = getPrefetchedQuestion i st"
  by (simp add: enter_next_topic_def Let_def getPrefetchedQuestion_move
      getPrefetchedQuestion_session[of "prefetchNextTopicQuestion _"]
      getPrefetchedQuestion_session[of "show_question _ _"])

text \<open>The transition made by the synchronous part of a submission.\<close>

lemma submit_try_transition:
  assumes "getPrefetchedQuestion (cursor st + 1) st = Some e"
    and "cursor (fst (submit_try a cq st)) \<noteq> cursor st"
  shows "submit_try a cq st = consume_prefetched e (addQaToCurrentTopic (cq_text cq) a st)"
    and "valid_ask_inline (topicAgentOutput e)"
    and "hasMoreTopics (addQaToCurrentTopic (cq_text cq) a st)"
proof -
  let ?st1 = "addQaToCurrentTopic (cq_text cq) a st"
  have 1: "\<not> (getCurrentTopic st = None \<or> getCurrentTopicState st = None)"
  proof
    assume "getCurrentTopic st = None \<or> getCurrentTopicState st = None"
    then have "submit_try a cq st = (st, Throw ''Current topic not found'')"
      by (simp add: submit_try_def)
    with assms(2) show False by simp
  qed
  have 2: "\<not> shouldContinueCurrentTopic ?st1"
  proof
    assume "shouldContinueCurrentTopic ?st1"
    with 1 have "fst (submit_try a cq st) = ?st1"
      by (auto simp: submit_try_def Let_def)
    with assms(2) show False by simp
  qed
  have 3: "hasMoreTopics ?st1"
  proof (rule ccontr)
    assume "\<not> hasMoreTopics ?st1"
    with 1 2 have "fst (submit_try a cq st) = ?st1"
      by (auto simp: submit_try_def Let_def simp del: hasMoreTopics_frame)
    with assms(2) show False by simp
  qed
  from 1 2 3 assms(1) show 4: "submit_try a cq st = consume_prefetched e ?st1"
    by (auto simp: submit_try_def Let_def simp del: hasMoreTopics_frame)
  from assms(2) 4 consume_prefetched_cursor[of e ?st1]
  show "valid_ask_inline (topicAgentOutput e)" by simp
  from 3 show "hasMoreTopics ?st1" .
qed

lemma finalize_early_transition:
  assumes "getPrefetchedQuestion (cursor st + 1) st = Some e"
    and "cursor (fst (finalize_early v st)) \<noteq> cursor st"
  shows "finalize_early v st =
           enter_next_topic (topicAgentOutput e)
             (clearPrefetchedQuestion (cursor st + 1) (setCurrentTopicVerdict v st))"
    and "valid_ask_inline (topicAgentOutput e)"
    and "hasMoreTopics st"
proof -
  let ?st1 = "setCurrentTopicVerdict v st"
  from assms(2) have 3: "hasMoreTopics ?st1"
    by (cases "hasMoreTopics ?st1") (auto simp: finalize_early_def Let_def simp del: hasMoreTopics_frame)
  with assms(1) show 4: "finalize_early v st =
           enter_next_topic (topicAgentOutput e)
             (clearPrefetchedQuestion (cursor st + 1) ?st1)"
    by (simp add: finalize_early_def Let_def)
  from assms(2) 4
    enter_next_topic_cursor[of "topicAgentOutput e" "clearPrefetchedQuestion (cursor st + 1) ?st1"]
  show "valid_ask_inline (topicAgentOutput e)" by simp
  from 3 show "hasMoreTopics st" by simp
qed

lemma cursor_ask_again [simp]: "cursor (fst (ask_again i txt st)) = cursor st"
  by (simp add: ask_again_def Let_def)

lemma after_same_topic_transition:
  assumes "cursor (fst (after_same_topic vr i r st)) \<noteq> cursor st"
  shows "\<exists>v. after_same_topic vr i r st = finalize_early v st"
  using assms
  by (auto simp: after_same_topic_def split: reply.splits validation.splits option.splits if_splits)

lemma settle_finished:
  "snd x = Ok Finished \<Longrightarrow> settle x = (setProcessing False (fst x), Finished)"
  by (cases x) (simp add: settle_def)

lemma cursor_settle [simp]: "cursor (fst (settle x)) = cursor (fst x)"
  by (cases x) (auto simp: settle_def split: result.splits flow.splits)

lemma handleAnswerSubmit_transition:
  assumes "cursor (fst (handleAnswerSubmit inp st)) \<noteq> cursor st"
  shows "\<exists>a cq. \<not> isProcessing st \<and> currentQuestion st = Some cq \<and>
           fst (handleAnswerSubmit inp st) =
             fst (settle (submit_try a cq (setProcessing True st))) \<and>
           cursor (fst (submit_try a cq (setProcessing True st))) \<noteq> cursor st"
  using assms
  by (auto simp: handleAnswerSubmit_def split: option.splits validation.splits if_splits)

lemma nvl_refl [simp]: "no_verdict_launch st st"
  by (simp add: no_verdict_launch_def)

lemma nvl_trans: "no_verdict_launch a b \<Longrightarrow> no_verdict_launch b c \<Longrightarrow> no_verdict_launch a c"
  by (auto simp: no_verdict_launch_def)

lemma nvl_same_tasks: "tasks st' = tasks st \<Longrightarrow> no_verdict_launch st st'"
  by (simp add: no_verdict_launch_def)

lemma nvl_prefetch: "no_verdict_launch st (prefetchNextTopicQuestion st)"
  using tasks_prefetchNextTopicQuestion[of st] by (auto simp: no_verdict_launch_def)

lemma nvl_basic:
  "no_verdict_launch st (setProcessing b st)"
  "no_verdict_launch st (showNotification m k st)"
  "no_verdict_launch st (handleError e1 c1 t1 st)"
  "no_verdict_launch st (addQaToCurrentTopic q1 a1 st)"
  "no_verdict_launch st (setCurrentTopicVerdict v st)"
  "no_verdict_launch st (clearPrefetchedQuestion i st)"
  "no_verdict_launch st (addBackgroundVerdictPromise p st)"
  "no_verdict_launch st (fst (moveToNextTopic st))"
  "no_verdict_launch st (show_question txt st)"
  "no_verdict_launch st (saveSessionToCache cq scr st)"
  "no_verdict_launch st (console_write l st)"
  "no_verdict_launch st (clearSessionCache st)"
  "no_verdict_launch st (write_verdict i v st)"
  "no_verdict_launch st (setPrefetchedQuestion i d st)"
  "no_verdict_launch st (clearBackgroundVerdictPromises st)"
  by (simp_all add: nvl_same_tasks clearSessionCache_def write_verdict_def
      clearBackgroundVerdictPromises_def split: option.splits)

lemma nvl_after:
  assumes "no_verdict_launch st x"
  shows "no_verdict_launch st (setProcessing b x)"
    and "no_verdict_launch st (showNotification m k x)"
    and "no_verdict_launch st (handleError e1 c1 t1 x)"
    and "no_verdict_launch st (addQaToCurrentTopic q1 a1 x)"
    and "no_verdict_launch st (setCurrentTopicVerdict v x)"
    and "no_verdict_launch st (clearPrefetchedQuestion i x)"
    and "no_verdict_launch st (addBackgroundVerdictPromise p x)"
    and "no_verdict_launch st (fst (moveToNextTopic x))"
    and "no_verdict_launch st (show_question txt x)"
    and "no_verdict_launch st (saveSessionToCache cq scr x)"
    and "no_verdict_launch st (console_write l x)"
    and "no_verdict_launch st (clearSessionCache x)"
    and "no_verdict_launch st (write_verdict i v x)"
    and "no_verdict_launch st (setPrefetchedQuestion i d x)"
    and "no_verdict_launch st (clearBackgroundVerdictPromises x)"
    and "no_verdict_launch st (prefetchNextTopicQuestion x)"
  using assms by (blast intro: nvl_trans nvl_basic nvl_prefetch)+

lemma nvl_enter_next_topic:
  "no_verdict_launch st x \<Longrightarrow> no_verdict_launch st (fst (enter_next_topic out x))"
  by (simp add: enter_next_topic_def Let_def nvl_after)

lemma nvl_finalize_early: "no_verdict_launch st (fst (finalize_early v st))"
  by (simp add: finalize_early_def Let_def nvl_after nvl_enter_next_topic nvl_basic
      split: option.splits)

lemma nvl_ask_again: "no_verdict_launch st (fst (ask_again i txt st))"
  by (simp add: ask_again_def Let_def nvl_after nvl_basic)

lemma nvl_resume_try: "no_verdict_launch st (fst (resume_try vr k st))"
  by (simp add: resume_try_def after_verdict_and_next_def after_last_verdict_def
      after_same_topic_def after_next_topic_def Let_def nvl_after nvl_basic
      nvl_enter_next_topic nvl_finalize_early nvl_ask_again
      split: resumption.splits reply.splits validation.splits option.splits)

lemma nvl_settle: "no_verdict_launch st (fst x) \<Longrightarrow> no_verdict_launch st (fst (settle x))"
  by (cases x) (auto simp: settle_def nvl_after split: result.splits flow.splits)

lemma nvl_finalize_incomplete:
  "no_verdict_launch st x \<Longrightarrow> no_verdict_launch st (fst (finalize_incomplete xs replies x))"
  by (induction xs replies x rule: finalize_incomplete.induct)
     (auto split: reply.splits option.splits simp: nvl_after)

lemma nvl_endInterview: "no_verdict_launch st (endInterview replies st)"
  unfolding endInterview_def Let_def
  by (auto split: option.splits prod.splits result.splits
      intro!: nvl_after dest!: arg_cong[where f=fst]
      simp: nvl_finalize_incomplete nvl_basic)

lemma tasks_submit_try_stay:
  "cursor (fst (submit_try a cq st)) = cursor st \<Longrightarrow>
     no_verdict_launch st (fst (submit_try a cq st))"
  by (auto simp: submit_try_def Let_def consume_prefetched_def nvl_basic hasMoreTopics_cursor
      split: option.splits if_splits)

lemma nvl_new:
  "no_verdict_launch st st' \<Longrightarrow> VerdictTask K \<notin> set (drop (length (tasks st)) (tasks st'))"
  by (auto simp: no_verdict_launch_def)

lemma tasks_verdict_task_resume:
  "\<exists>st'. verdict_task_resume vr K r st = Ok st' \<and> tasks st' = tasks st"
  by (auto simp: verdict_task_resume_def verdict_then_def try_catch_def write_verdict_def
      console_write_def split: reply.splits option.splits validation.splits)

lemma tasks_prefetch_resume:
  "\<exists>st'. prefetchNextTopicQuestion_resume vr i r st = Ok st' \<and> tasks st' = tasks st"
  by (auto simp: prefetchNextTopicQuestion_resume_def prefetch_try_def try_catch_def
      split: reply.splits validation.splits)

lemma nvl_step:
  assumes "\<And>inp. ev \<noteq> Submit inp"
  shows "no_verdict_launch st (step vr ev st)"
proof (cases ev)
  case (Submit inp)
  with assms show ?thesis by blast
next
  case (Resume k)
  then show ?thesis
    by (simp add: step_def handleAnswerSubmit_resume_def nvl_settle nvl_resume_try)
next
  case (PrefetchSettled i r)
  with tasks_prefetch_resume[of vr i r st] show ?thesis
    by (auto simp: step_def nvl_same_tasks)
next
  case (VerdictSettled i r)
  with tasks_verdict_task_resume[of vr i r st] show ?thesis
    by (auto simp: step_def nvl_same_tasks)
next
  case (EndInterview replies)
  then show ?thesis by (simp add: step_def nvl_endInterview)
qed

lemma submit_try_moves:
  assumes "cursor (fst (submit_try a cq st)) \<noteq> cursor st"
  shows "\<exists>e. getPrefetchedQuestion (cursor st + 1) st = Some e"
proof (rule ccontr)
  assume "\<nexists>e. getPrefetchedQuestion (cursor st + 1) st = Some e"
  then have "getPrefetchedQuestion (cursor st + 1) st = None" by simp
  then have "cursor (fst (submit_try a cq st)) = cursor st"
    by (simp add: submit_try_def Let_def)
  with assms show False by simp
qed

lemma tasks_settle [simp]: "tasks (fst (settle x)) = tasks (fst x)"
  by (cases x) (auto simp: settle_def split: result.splits flow.splits)

lemma handleAnswerSubmit_stay:
  "cursor (fst (handleAnswerSubmit inp st)) = cursor st \<Longrightarrow>
     no_verdict_launch st (fst (handleAnswerSubmit inp st))"
  by (auto simp: handleAnswerSubmit_def nvl_basic
      intro!: nvl_settle nvl_trans[OF nvl_basic(1) tasks_submit_try_stay]
      split: option.splits validation.splits)

lemma handleAnswerSubmit_launch:
  assumes "VerdictTask K \<in> set (drop (length (tasks st)) (tasks (fst (handleAnswerSubmit inp st))))"
  shows "K = cursor st \<and> cursor (fst (handleAnswerSubmit inp st)) = K + 1 \<and> session st \<noteq> None"
proof -
  have mv: "cursor (fst (handleAnswerSubmit inp st)) \<noteq> cursor st"
    using assms handleAnswerSubmit_stay[of inp st] nvl_new by blast
  from handleAnswerSubmit_transition[OF mv] obtain a cq where
    h: "fst (handleAnswerSubmit inp st) = fst (settle (submit_try a cq (setProcessing True st)))"
       "cursor (fst (submit_try a cq (setProcessing True st))) \<noteq> cursor st"
    by blast
  let ?st0 = "setProcessing True st"
  let ?st1 = "addQaToCurrentTopic (cq_text cq) a ?st0"
  from h(2) have mv0: "cursor (fst (submit_try a cq ?st0)) \<noteq> cursor ?st0" by simp
  from submit_try_moves[OF mv0] obtain e where
    pf: "getPrefetchedQuestion (cursor ?st0 + 1) ?st0 = Some e" by blast
  note t = submit_try_transition[OF pf mv0]
  note v = consume_prefetched_valid[OF t(2) t(3)]
  from consume_prefetched_tasks[OF t(2), of ?st1]
  have tk: "VerdictTask K \<in> set (drop (length (tasks st)) (tasks (fst (consume_prefetched e ?st1))))
      \<Longrightarrow> K = cursor st"
    by auto
  from assms h(1) t(1) have "K = cursor st" using tk by simp
  moreover have "cursor (fst (handleAnswerSubmit inp st)) = cursor st + 1"
    using h(1) t(1) v(3) by simp
  moreover have "session st \<noteq> None"
    using pf by (auto simp: getPrefetchedQuestion_def setProcessing_def split: option.splits)
  ultimately show ?thesis by simp
qed

lemma run_cursor_mono:
  "session st \<noteq> None \<Longrightarrow> cursor st \<le> cursor (run vr evs st)"
  using run_cursor[of st _ vr evs] by (auto simp: cursor_def)

lemma session_handleAnswerSubmit:
  "session st \<noteq> None \<Longrightarrow> session (fst (handleAnswerSubmit inp st)) \<noteq> None"
  using advances_handleAnswerSubmit[of st inp] by (auto simp: advances_def split: option.splits)

lemma topicState_at_frame [simp]:
  "topicState_at j (saveSessionToCache cq scr st) = topicState_at j st"
  "topicState_at j (console_write l st) = topicState_at j st"
  by (simp_all add: topicState_at_def)

lemma topicState_at_write_verdict:
  "topicState_at j (write_verdict K v st) =
     (if j = K then map_option (\<lambda>ts. ts\<lparr>verdict := v, status := DONE\<rparr>) (topicState_at K st)
      else topicState_at j st)"
  by (auto simp: topicState_at_def write_verdict_def split: option.splits)

lemma cursor_write_verdict [simp]: "cursor (write_verdict K v st) = cursor st"
  by (auto simp: cursor_def write_verdict_def split: option.splits)

lemma verdict_task_resume_frame:
  "\<exists>st2. verdict_task_resume vr K r st1 = Ok st2 \<and> cursor st2 = cursor st1 \<and>
      (\<forall>j. j \<noteq> K \<longrightarrow> topicState_at j st2 = topicState_at j st1) \<and>
      (\<forall>out ts. r = Resolved (Some out) \<and> validateTopicAgentFinal vr (Some out) = Valid \<and>
          topicState_at K st1 = Some ts \<longrightarrow>
          topicState_at K st2 = Some (ts\<lparr>verdict := out_verdict out, status := DONE\<rparr>))"
proof (cases r)
  case (Rejected e)
  then show ?thesis
    by (simp add: verdict_task_resume_def verdict_then_def try_catch_def)
next
  case (Resolved agentOut)
  show ?thesis
  proof (cases agentOut)
    case None
    with Resolved show ?thesis
      by (simp add: verdict_task_resume_def verdict_then_def try_catch_def)
  next
    case (Some out)
    show ?thesis
    proof (cases "validateTopicAgentFinal vr (Some out)")
      case (Invalid e)
      with Resolved Some show ?thesis
        by (simp add: verdict_task_resume_def verdict_then_def try_catch_def)
    next
      case Valid
      show ?thesis
      proof (cases "session st1")
        case None
        with Resolved Some Valid show ?thesis
          by (simp add: verdict_task_resume_def verdict_then_def try_catch_def
              topicState_at_def)
      next
        case (Some s1)
        with Resolved \<open>agentOut = Some out\<close> Valid show ?thesis
          by (cases "topicStates s1 K")
             (simp_all add: verdict_task_resume_def verdict_then_def try_catch_def
                topicState_at_write_verdict, simp_all add: topicState_at_def)
      qed
    qed
  qed
qed

lemmas flow_defs2 = flow_defs demo_entry_def

lemma prefetched_app_session:
  "session prefetched_app = Some (demo_session\<lparr>prefetchedQuestions := [1 \<mapsto> demo_entry]\<rparr>)"
  by (simp add: prefetched_app_def example_defs flow_defs2)

lemma prefetched_app_entry: "getPrefetchedQuestion 1 prefetched_app = Some demo_entry"
  by (simp add: prefetched_app_session getPrefetchedQuestion_def demo_defs)

lemma prefetched_app_fields:
  "isProcessing prefetched_app = False"
  "currentQuestion prefetched_app = Some \<lparr>cq_text = ''What is a join?'', cq_topicIndex = 0\<rparr>"
  "tasks prefetched_app = [PrefetchTask 1]"
  "cursor prefetched_app = 0"
  by (simp_all add: prefetched_app_def example_defs flow_defs2)

lemma left_app_facts:
  "cursor left_app = 1 \<and> tasks left_app = [PrefetchTask 1, VerdictTask 0] \<and>
   topicState_at 0 left_app =
     Some \<lparr>status = PROBING,
           qaList = [\<lparr>question = ''What is a join?'', answer = ''a''\<rparr>],
           verdict = None\<rparr> \<and>
   topicState_at 1 left_app = Some fresh_topic_state"
  by (simp add: left_app_def example_defs flow_defs2 Let_def
      prefetched_app_def fun_upd_twist)

lemma racing_app_facts:
  "cursor racing_app = 0 \<and> getPrefetchedQuestion 1 racing_app = Some demo_entry"
  by (simp add: racing_app_def example_defs flow_defs2 Let_def fun_upd_twist)

lemma isProcessing_submit_try [simp]:
  "isProcessing (fst (submit_try a cq st)) = isProcessing st"
  by (simp add: submit_try_def consume_prefetched_def Let_def split: option.splits)

lemma settle_awaiting:
  "snd (settle x) \<noteq> Finished \<Longrightarrow> fst (settle x) = fst x"
  by (cases x) (auto simp: settle_def split: result.splits flow.splits)

lemma handleAnswerSubmit_in_flight:
  "snd (handleAnswerSubmit inp st) \<noteq> Finished \<Longrightarrow> isProcessing (fst (handleAnswerSubmit inp st))"
  by (auto simp: handleAnswerSubmit_def settle_awaiting
      split: option.splits validation.splits if_splits)

text \<open>A submission that is suspended has recorded its answer, and nothing else.\<close>

lemma getCurrentTopicState_setProcessing [simp]:
  "getCurrentTopicState (setProcessing b st) = getCurrentTopicState st"
  "getCurrentTopic (setProcessing b st) = getCurrentTopic st"
  by (simp_all add: getCurrentTopicState_def getCurrentTopic_def)

lemma topicState_at_addQaToCurrentTopic:
  "getCurrentTopicState st = Some ts \<Longrightarrow>
     topicState_at (cursor st) (addQaToCurrentTopic q1 a1 st) =
       Some (ts\<lparr>qaList := qaList ts @ [\<lparr>question = q1, answer = a1\<rparr>], status := PROBING\<rparr>)"
  by (auto simp: topicState_at_def cursor_def session_addQaToCurrentTopic
      getCurrentTopicState_def split: option.splits if_splits)

lemma submit_try_awaiting:
  assumes "snd (settle (submit_try a cq st)) \<noteq> Finished"
  shows "getCurrentTopicState st \<noteq> None \<and>
         fst (settle (submit_try a cq st)) = addQaToCurrentTopic (cq_text cq) a st"
proof -
  have 1: "\<not> (getCurrentTopic st = None \<or> getCurrentTopicState st = None)"
  proof
    assume "getCurrentTopic st = None \<or> getCurrentTopicState st = None"
    then have "submit_try a cq st = (st, Throw ''Current topic not found'')"
      by (simp add: submit_try_def)
    with assms show False by (simp add: settle_def)
  qed
  have 2: "snd (settle (consume_prefetched e st')) = Finished" for e st'
    by (simp add: consume_prefetched_def settle_def Let_def)
  from assms 1 2 have "fst (submit_try a cq st) = addQaToCurrentTopic (cq_text cq) a st"
    by (auto simp: submit_try_def Let_def settle_def split: option.splits if_splits)
  with assms 1 show ?thesis by (simp add: settle_awaiting)
qed

lemma handleAnswerSubmit_recorded:
  assumes "snd (handleAnswerSubmit inp st) \<noteq> Finished"
  shows "\<exists>v cq ts. inp = Some v \<and> currentQuestion st = Some cq \<and>
           getCurrentTopicState st = Some ts \<and>
           fst (handleAnswerSubmit inp st) =
             addQaToCurrentTopic (cq_text cq) (trim v) (setProcessing True st) \<and>
           topicState_at (cursor st) (fst (handleAnswerSubmit inp st)) =
             Some (ts\<lparr>qaList := qaList ts @ [\<lparr>question = cq_text cq, answer = trim v\<rparr>],
                       status := PROBING\<rparr>)"
proof -
  from assms obtain v cq where
    a: "inp = Some v" "currentQuestion st = Some cq"
       "handleAnswerSubmit inp st = settle (submit_try (trim v) cq (setProcessing True st))"
    by (auto simp: handleAnswerSubmit_def split: option.splits validation.splits if_splits)
  from assms a(3) have "snd (settle (submit_try (trim v) cq (setProcessing True st))) \<noteq> Finished"
    by simp
  from submit_try_awaiting[OF this] obtain ts where
    b: "getCurrentTopicState st = Some ts"
       "fst (settle (submit_try (trim v) cq (setProcessing True st))) =
          addQaToCurrentTopic (cq_text cq) (trim v) (setProcessing True st)"
    by auto
  from b(1) have "getCurrentTopicState (setProcessing True st) = Some ts" by simp
  from topicState_at_addQaToCurrentTopic[OF this, of "cq_text cq" "trim v"]
  have "topicState_at (cursor st) (addQaToCurrentTopic (cq_text cq) (trim v) (setProcessing True st)) =
       Some (ts\<lparr>qaList := qaList ts @ [\<lparr>question = cq_text cq, answer = trim v\<rparr>], status := PROBING\<rparr>)"
    by simp
  with a b show ?thesis by simp
qed

text \<open>The early final verdict, and an entry of the prefetch map that is no question.\<close>

lemma response_final_verdict:
  assumes "validateTopicAgentResponse vr (Some out) = Valid" and "out_status out = FINAL"
  shows "out_verdict out \<noteq> None"
  using assms by (auto simp: validateTopicAgentResponse_def split: if_splits)

lemma after_same_topic_final:
  assumes "validateTopicAgentResponse vr (Some out) = Valid" and "out_status out = FINAL"
  shows "after_same_topic vr i (Resolved (Some out)) st = finalize_early (out_verdict out) st"
  using assms response_final_verdict[OF assms] by (simp add: after_same_topic_def)

lemma finalize_early_fetch:
  assumes "hasMoreTopics st" and "getPrefetchedQuestion (cursor st + 1) st = None"
    and "topicState_at (cursor st + 1) st \<noteq> None"
  shows "finalize_early v st = (setCurrentTopicVerdict v st, Ok AwaitingNextTopic)"
  using assms by (simp add: finalize_early_def Let_def topicState_at_setCurrentTopicVerdict)

lemma finalize_early_prefetched_invalid:
  assumes "hasMoreTopics st" and "getPrefetchedQuestion (cursor st + 1) st = Some pe"
    and "\<not> valid_ask_inline (topicAgentOutput pe)"
  shows "finalize_early v st =
     (clearPrefetchedQuestion (cursor st + 1) (setCurrentTopicVerdict v st),
      Throw ''TopicAgent did not return a question'')"
  using assms by (simp add: finalize_early_def Let_def enter_next_topic_def)

lemma submit_prefetched_invalid:
  assumes "\<not> isProcessing st" and "validateAnswer (trim v) = Valid"
    and "session st \<noteq> None" and "currentQuestion st = Some cq"
    and "getCurrentTopic st \<noteq> None" and "getCurrentTopicState st \<noteq> None"
    and "\<not> shouldContinueCurrentTopic
           (addQaToCurrentTopic (cq_text cq) (trim v) (setProcessing True st))"
    and "hasMoreTopics st"
    and "getPrefetchedQuestion (cursor st + 1) st = Some pe"
    and "\<not> valid_ask_inline (topicAgentOutput pe)"
  shows "handleAnswerSubmit (Some v) st =
     (setProcessing False
        (handleError ''Prefetched question is invalid'' ''handleAnswerSubmit'' API
           (addQaToCurrentTopic (cq_text cq) (trim v) (setProcessing True st))), Finished)"
proof -
  have h: "hasMoreTopics (setProcessing True st)"
    using assms(8) by (simp add: hasMoreTopics_def)
  have "submit_try (trim v) cq (setProcessing True st) =
      (addQaToCurrentTopic (cq_text cq) (trim v) (setProcessing True st),
       Throw ''Prefetched question is invalid'')"
    using assms h by (simp add: submit_try_def Let_def consume_prefetched_def)
  with assms show ?thesis
    by (auto simp: handleAnswerSubmit_def settle_def)
qed

lemma verdict_task_invalid:
  assumes "validateTopicAgentFinal vr o1 = Invalid e"
  shows "verdict_task_resume vr K (Resolved o1) st = Ok st"
  using assms by (cases o1) (simp_all add: verdict_task_resume_def verdict_then_def try_catch_def)

lemma continuing_app_eq:
  "continuing_app = demo_app
     \<lparr>session := Some (demo_session
        \<lparr>maxQuestionsPerTopic := 5,
         topicStates :=
           [0 \<mapsto> \<lparr>status = PROBING,
                      qaList = [\<lparr>question = ''What is a join?'', answer = ''a''\<rparr>],
                      verdict = None\<rparr>,
            1 \<mapsto> fresh_topic_state]\<rparr>),
      isProcessing := True,
      localStorage := \<lparr>interview_session_cache = Some
          \<lparr>version = ''2.0'', timestamp = 0,
           cd_session = session_data_of (demo_session
             \<lparr>maxQuestionsPerTopic := 5,
              topicStates :=
                [0 \<mapsto> \<lparr>status = PROBING,
                           qaList = [\<lparr>question = ''What is a join?'', answer = ''a''\<rparr>],
                           verdict = None\<rparr>,
                 1 \<mapsto> fresh_topic_state]\<rparr>),
           cd_currentQuestion = None, cd_currentScreen = ''interview''\<rparr>,
        openai_api_key = None, quota_exceeded = False\<rparr>\<rparr>"
  by (simp add: continuing_app_def probing_app_def demo_defs flow_defs Let_def fun_upd_twist)

lemma continuing_app_facts:
  "snd (handleAnswerSubmit (Some ''a'') (probing_app 0)) = AwaitingSameTopic 0"
  "hasMoreTopics continuing_app"
  "cursor continuing_app = 0"
  "getPrefetchedQuestion 1 continuing_app = None"
  "topicState_at 1 continuing_app = Some fresh_topic_state"
  "topicState_at 0 continuing_app =
     Some \<lparr>status = PROBING,
           qaList = [\<lparr>question = ''What is a join?'', answer = ''a''\<rparr>],
           verdict = None\<rparr>"
  "topicState_at 0 (setCurrentTopicVerdict (Some demo_verdict) continuing_app) =
     Some \<lparr>status = DONE,
           qaList = [\<lparr>question = ''What is a join?'', answer = ''a''\<rparr>],
           verdict = Some demo_verdict\<rparr>"
       apply (simp add: probing_app_def demo_defs flow_defs Let_def fun_upd_twist)
      apply (simp_all add: continuing_app_eq hasMoreTopics_def cursor_def getPrefetchedQuestion_def
        topicState_at_def demo_defs setCurrentTopicVerdict_def getCurrentTopicState_def)
  done

lemma submitted_app_facts:
  "snd (handleAnswerSubmit (Some ''a'') demo_app) = AwaitingVerdictAndNext"
  "cursor submitted_app = 0"
  "hasMoreTopics submitted_app"
  "notifications submitted_app = []"
  "getCurrentTopicState submitted_app =
     Some \<lparr>status = PROBING,
           qaList = [\<lparr>question = ''What is a join?'', answer = ''a''\<rparr>],
           verdict = None\<rparr>"
      apply (simp add: demo_defs flow_defs Let_def)
     apply (simp_all add: submitted_app_eq cursor_def hasMoreTopics_def getCurrentTopicState_def
        demo_defs)
  done

lemma topicState_at_session:
  "session st' = session st \<Longrightarrow> topicState_at j st' = topicState_at j st"
  by (simp add: topicState_at_def)

lemma topicState_at_moveToNextTopic [simp]:
  "topicState_at j (fst (moveToNextTopic st)) = topicState_at j st"
  by (auto simp: topicState_at_def session_moveToNextTopic split: option.splits)

lemma topicState_at_frame2 [simp]:
  "topicState_at j (setProcessing b st) = topicState_at j st"
  "topicState_at j (show_question txt st) = topicState_at j st"
  "topicState_at j (prefetchNextTopicQuestion st) = topicState_at j st"
  by (simp_all add: topicState_at_def)

lemma topicState_at_current_verdict:
  "getCurrentTopicState st = Some ts \<Longrightarrow>
     topicState_at (cursor st) (setCurrentTopicVerdict v st) =
       Some (ts\<lparr>verdict := v, status := DONE\<rparr>)"
  by (auto simp: topicState_at_def cursor_def session_setCurrentTopicVerdict
      getCurrentTopicState_def split: option.splits if_splits)

text \<open>What the continuations do when the awaited responses are valid.\<close>

lemma verdict_and_next_completes:
  assumes "getCurrentTopicState st = Some ts" and "hasMoreTopics st"
    and "validateTopicAgentFinal vr (Some out) = Valid"
    and "validateTopicAgentAsk vr (Some nxt) = Valid"
  shows "\<exists>st'. handleAnswerSubmit_resume vr
            (VerdictAndNext (Resolved (Some out)) (Resolved (Some nxt))) st = (st', Finished) \<and>
          \<not> isProcessing st' \<and> cursor st' = cursor st + 1 \<and>
          topicState_at (cursor st) st' =
            Some (ts\<lparr>verdict := out_verdict out, status := DONE\<rparr>) \<and>
          currentQuestion st' =
            Some \<lparr>cq_text = question_text nxt, cq_topicIndex = cursor st + 1\<rparr>"
  using assms
  by (simp add: handleAnswerSubmit_resume_def resume_try_def settle_def
      after_verdict_and_next_def Let_def hasMoreTopics_cursor topicState_at_current_verdict
      output_text_def)

lemma response_ask_question:
  assumes "validateTopicAgentResponse vr (Some out) = Valid" and "out_status out = ASK"
  shows "has_question out"
  using assms by (auto simp: validateTopicAgentResponse_def split: if_splits)

lemma session_ask_again [simp]: "session (fst (ask_again i txt st)) = session st"
  by (simp add: ask_again_def Let_def)

lemma same_topic_completes:
  assumes "validateTopicAgentResponse vr (Some out) = Valid" and "out_status out = ASK"
  shows "\<exists>st'. handleAnswerSubmit_resume vr (SameTopic i (Resolved (Some out))) st =
            (st', Finished) \<and>
          \<not> isProcessing st' \<and> session st' = session st \<and>
          currentQuestion st' =
            Some \<lparr>cq_text = question_text out, cq_topicIndex = cursor st\<rparr>"
  using assms response_ask_question[OF assms]
  by (simp add: handleAnswerSubmit_resume_def resume_try_def settle_def
      after_same_topic_def ask_again_def Let_def)

lemma last_verdict_completes:
  assumes "getCurrentTopicState st = Some ts"
    and "validateTopicAgentFinal vr (Some out) = Valid"
  shows "\<exists>st'. handleAnswerSubmit_resume vr (LastVerdict (Resolved (Some out))) st =
            (st', AwaitingEndInterview) \<and>
          cursor st' = cursor st \<and>
          topicState_at (cursor st) st' =
            Some (ts\<lparr>verdict := out_verdict out, status := DONE\<rparr>)"
  using assms
  by (simp add: handleAnswerSubmit_resume_def resume_try_def settle_def
      after_last_verdict_def topicState_at_current_verdict)

section \<open>Verified properties\<close>

subsection \<open>C1: the background verdict writes at the captured index\<close>

text \<open>
  C1. Whenever an event launches a background verdict call, the index \<open>K\<close> its handler
  captures is the cursor before the event (the topic being left), and after the event
  and any further events the cursor is beyond \<open>K\<close>. When the call settles, in whatever
  state the application is by then, its handler never throws and leaves the cursor and
  every topic state other than that of \<open>K\<close> as they are, in particular the state of the
  topic that is current by then; on a valid final response it sets the verdict of
  topic \<open>K\<close> and its status \<^verbatim>\<open>done\<close>.
\<close>

theorem background_verdict_captured_index:
  "(VerdictTask K \<in> set (drop (length (tasks st)) (tasks (step vr ev st))) \<longrightarrow>
      K = cursor st \<and> (\<forall>evs. K < cursor (run vr evs (step vr ev st)))) \<and>
   (\<exists>st2. verdict_task_resume vr K r st1 = Ok st2 \<and> cursor st2 = cursor st1 \<and>
      (\<forall>j. j \<noteq> K \<longrightarrow> topicState_at j st2 = topicState_at j st1) \<and>
      (K < cursor st1 \<longrightarrow> topicState_at (cursor st1) st2 = topicState_at (cursor st1) st1) \<and>
      (\<forall>out ts. r = Resolved (Some out) \<and> validateTopicAgentFinal vr (Some out) = Valid \<and>
          topicState_at K st1 = Some ts \<longrightarrow>
          topicState_at K st2 = Some (ts\<lparr>verdict := out_verdict out, status := DONE\<rparr>)))"
proof (intro conjI impI)
  assume l: "VerdictTask K \<in> set (drop (length (tasks st)) (tasks (step vr ev st)))"
  have "\<exists>inp. ev = Submit inp"
    using l nvl_step[of ev st vr] nvl_new by blast
  then obtain inp where ev: "ev = Submit inp" by blast
  with l have l': "VerdictTask K \<in> set (drop (length (tasks st))
      (tasks (fst (handleAnswerSubmit inp st))))"
    by (simp add: step_def)
  note h = handleAnswerSubmit_launch[OF l']
  from h show "K = cursor st" by simp
  have s: "session (step vr ev st) \<noteq> None"
    using h ev session_handleAnswerSubmit[of st inp] by (simp add: step_def)
  show "\<forall>evs. K < cursor (run vr evs (step vr ev st))"
  proof
    fix evs
    from run_cursor_mono[OF s, of vr evs] h ev
    show "K < cursor (run vr evs (step vr ev st))" by (simp add: step_def)
  qed
next
  from verdict_task_resume_frame[of vr K r st1]
  show "\<exists>st2. verdict_task_resume vr K r st1 = Ok st2 \<and> cursor st2 = cursor st1 \<and>
      (\<forall>j. j \<noteq> K \<longrightarrow> topicState_at j st2 = topicState_at j st1) \<and>
      (K < cursor st1 \<longrightarrow> topicState_at (cursor st1) st2 = topicState_at (cursor st1) st1) \<and>
      (\<forall>out ts. r = Resolved (Some out) \<and> validateTopicAgentFinal vr (Some out) = Valid \<and>
          topicState_at K st1 = Some ts \<longrightarrow>
          topicState_at K st2 = Some (ts\<lparr>verdict := out_verdict out, status := DONE\<rparr>))"
    by (metis less_irrefl)
qed

text \<open>
  The submission that consumes the prefetched question of the demo interview launches
  the verdict call for topic 0; its handler, run after the move to topic 1, completes
  topic 0 and leaves topic 1 untouched.
\<close>

theorem background_verdict_captured_index_witness:
  "VerdictTask 0 \<in> set (drop (length (tasks prefetched_app)) (tasks left_app)) \<and>
   0 = cursor prefetched_app \<and>
   0 < cursor (run example_schema_errors [] left_app) \<and>
   (\<exists>st2. verdict_task_resume example_schema_errors 0 (Resolved (Some final_output)) left_app
            = Ok st2 \<and>
      cursor st2 = 1 \<and>
      topicState_at 1 st2 = Some fresh_topic_state \<and>
      topicState_at 0 st2 =
        Some \<lparr>status = DONE,
              qaList = [\<lparr>question = ''What is a join?'', answer = ''a''\<rparr>],
              verdict = Some demo_verdict\<rparr>)"
proof -
  have l: "VerdictTask 0 \<in> set (drop (length (tasks prefetched_app))
       (tasks (step example_schema_errors (Submit (Some ''a'')) prefetched_app)))"
    using left_app_facts by (simp add: left_app_def[symmetric] prefetched_app_fields)
  have ok: "validateTopicAgentFinal example_schema_errors (Some final_output) = Valid"
    by (simp add: validateTopicAgentFinal_def example_defs FINAL_def)
  from background_verdict_captured_index[of 0 prefetched_app example_schema_errors
      "Submit (Some ''a'')" "Resolved (Some final_output)" left_app] l
  have 1: "0 = cursor prefetched_app"
    and 2: "\<forall>evs. 0 < cursor (run example_schema_errors evs left_app)"
    and 3: "\<exists>st2. verdict_task_resume example_schema_errors 0 (Resolved (Some final_output))
              left_app = Ok st2 \<and> cursor st2 = cursor left_app \<and>
      (\<forall>j. j \<noteq> 0 \<longrightarrow> topicState_at j st2 = topicState_at j left_app) \<and>
      (0 < cursor left_app \<longrightarrow>
         topicState_at (cursor left_app) st2 = topicState_at (cursor left_app) left_app) \<and>
      (\<forall>out ts. Resolved (Some final_output) = Resolved (Some out) \<and>
          validateTopicAgentFinal example_schema_errors (Some out) = Valid \<and>
          topicState_at 0 left_app = Some ts \<longrightarrow>
          topicState_at 0 st2 = Some (ts\<lparr>verdict := out_verdict out, status := DONE\<rparr>))"
    by (simp_all add: left_app_def[symmetric])
  from 3 obtain st2 where st2:
    "verdict_task_resume example_schema_errors 0 (Resolved (Some final_output)) left_app = Ok st2"
    "cursor st2 = cursor left_app"
    "0 < cursor left_app \<longrightarrow>
         topicState_at (cursor left_app) st2 = topicState_at (cursor left_app) left_app"
    "\<forall>out ts. Resolved (Some final_output) = Resolved (Some out) \<and>
          validateTopicAgentFinal example_schema_errors (Some out) = Valid \<and>
          topicState_at 0 left_app = Some ts \<longrightarrow>
          topicState_at 0 st2 = Some (ts\<lparr>verdict := out_verdict out, status := DONE\<rparr>)"
    by blast
  from st2(4) ok left_app_facts have 4: "topicState_at 0 st2 =
        Some \<lparr>status = DONE,
              qaList = [\<lparr>question = ''What is a join?'', answer = ''a''\<rparr>],
              verdict = Some demo_verdict\<rparr>"
    by (simp add: final_output_def)
  from st2(2,3) left_app_facts have 5: "cursor st2 = 1" "topicState_at 1 st2 = Some fresh_topic_state"
    by simp_all
  from l 1 2 st2(1) 4 5 show ?thesis
    by (simp add: left_app_def[symmetric])
qed

subsection \<open>C2: a response that fails validation\<close>

text \<open>
  C2 (as amended). A submission that is suspended at an \<^verbatim>\<open>await\<close> has recorded its answer
  and set the busy flag, and has changed nothing else. When a response that
  \<^verbatim>\<open>handleAnswerSubmit\<close> then validates is invalid, the submission ends with the error
  notified and the busy flag cleared; the cursor and the current question are never
  changed.

  \<^item> When the invalid response is the first one the submission validates (the closing
    verdict, alone or fetched together with the next opening question; the response for
    the same topic; the prefetched question at hand when the topic is finished), the
    session is the one the continuation started from: nothing but the answer was
    recorded.

  \<^item> When a verdict has been validated before, it has been recorded by
    \<^verbatim>\<open>setCurrentTopicVerdict\<close>, and it stays: the current topic keeps the verdict and the
    status \<^verbatim>\<open>done\<close>, and nothing else in the session changes. This is so when the closing
    verdict is valid and the opening question fetched together with it is not, and when
    the agent gives a final verdict early and the opening question fetched afterwards is
    no question. When, after an early final verdict, the opening question is taken from
    the prefetch map and is no question, its entry has been removed as well.

  \<^item> A verdict fetched in the background is not awaited by the submission: when it is
    invalid its handler changes nothing and notifies nothing.
\<close>

theorem validation_failure_aborts:
  "(snd (handleAnswerSubmit inp st0) \<noteq> Finished \<longrightarrow>
      (\<exists>a cq. inp = Some a \<and> currentQuestion st0 = Some cq \<and>
         fst (handleAnswerSubmit inp st0) =
           addQaToCurrentTopic (cq_text cq) (trim a) (setProcessing True st0))) \<and>
   (validateTopicAgentFinal vr o1 = Invalid e \<longrightarrow>
      handleAnswerSubmit_resume vr (VerdictAndNext (Resolved o1) (Resolved o2)) st =
        (setProcessing False (handleError e ''handleAnswerSubmit'' API st), Finished) \<and>
      handleAnswerSubmit_resume vr (LastVerdict (Resolved o1)) st =
        (setProcessing False (handleError e ''handleAnswerSubmit'' API st), Finished) \<and>
      verdict_task_resume vr K (Resolved o1) st = Ok st) \<and>
   (validateTopicAgentResponse vr o1 = Invalid e \<longrightarrow>
      handleAnswerSubmit_resume vr (SameTopic i (Resolved o1)) st =
        (setProcessing False (handleError e ''handleAnswerSubmit'' API st), Finished)) \<and>
   (\<not> isProcessing st0 \<and> validateAnswer (trim a0) = Valid \<and> session st0 \<noteq> None \<and>
    currentQuestion st0 = Some cq0 \<and> getCurrentTopic st0 \<noteq> None \<and>
    getCurrentTopicState st0 \<noteq> None \<and>
    \<not> shouldContinueCurrentTopic
        (addQaToCurrentTopic (cq_text cq0) (trim a0) (setProcessing True st0)) \<and>
    hasMoreTopics st0 \<and> getPrefetchedQuestion (cursor st0 + 1) st0 = Some pe \<and>
    \<not> valid_ask_inline (topicAgentOutput pe) \<longrightarrow>
      handleAnswerSubmit (Some a0) st0 =
        (setProcessing False
           (handleError ''Prefetched question is invalid'' ''handleAnswerSubmit'' API
              (addQaToCurrentTopic (cq_text cq0) (trim a0) (setProcessing True st0))),
         Finished)) \<and>
   (validateTopicAgentFinal vr o1 = Valid \<and> validateTopicAgentAsk vr o2 = Invalid e \<longrightarrow>
      handleAnswerSubmit_resume vr (VerdictAndNext (Resolved o1) (Resolved o2)) st =
        (setProcessing False
           (handleError e ''handleAnswerSubmit'' API
              (setCurrentTopicVerdict
                 (case o1 of None \<Rightarrow> None | Some out \<Rightarrow> out_verdict out) st)),
         Finished)) \<and>
   (validateTopicAgentResponse vr (Some out) = Valid \<and> out_status out = FINAL \<and>
    hasMoreTopics st \<and> getPrefetchedQuestion (cursor st + 1) st = None \<and>
    topicState_at (cursor st + 1) st \<noteq> None \<longrightarrow>
      handleAnswerSubmit_resume vr (SameTopic i (Resolved (Some out))) st =
        (setCurrentTopicVerdict (out_verdict out) st, AwaitingNextTopic) \<and>
      (\<not> valid_ask_inline o2 \<longrightarrow>
         handleAnswerSubmit_resume vr (NextTopic (Resolved o2))
           (fst (handleAnswerSubmit_resume vr (SameTopic i (Resolved (Some out))) st)) =
         (setProcessing False
            (handleError ''TopicAgent did not return a question'' ''handleAnswerSubmit'' API
               (setCurrentTopicVerdict (out_verdict out) st)),
          Finished))) \<and>
   (validateTopicAgentResponse vr (Some out) = Valid \<and> out_status out = FINAL \<and>
    hasMoreTopics st \<and> getPrefetchedQuestion (cursor st + 1) st = Some pe \<and>
    \<not> valid_ask_inline (topicAgentOutput pe) \<longrightarrow>
      handleAnswerSubmit_resume vr (SameTopic i (Resolved (Some out))) st =
        (setProcessing False
           (handleError ''TopicAgent did not return a question'' ''handleAnswerSubmit'' API
              (clearPrefetchedQuestion (cursor st + 1)
                 (setCurrentTopicVerdict (out_verdict out) st))),
         Finished)) \<and>
   (\<not> valid_ask_inline o2 \<longrightarrow>
      handleAnswerSubmit_resume vr (NextTopic (Resolved o2)) st =
        (setProcessing False
           (handleError ''TopicAgent did not return a question'' ''handleAnswerSubmit'' API st),
         Finished)) \<and>
   session (setProcessing False (handleError e ''handleAnswerSubmit'' API st)) = session st \<and>
   currentQuestion (setProcessing False (handleError e ''handleAnswerSubmit'' API st)) =
     currentQuestion st \<and>
   localStorage (setProcessing False (handleError e ''handleAnswerSubmit'' API st)) =
     localStorage st \<and>
   notifications (setProcessing False (handleError e ''handleAnswerSubmit'' API st)) =
     notifications st @ [(userMessage e API, ''error'')] \<and>
   \<not> isProcessing (setProcessing False (handleError e ''handleAnswerSubmit'' API st)) \<and>
   session (setCurrentTopicVerdict v st) =
     (case getCurrentTopicState st of
        None \<Rightarrow> session st
      | Some ts \<Rightarrow>
          map_option (\<lambda>s. s\<lparr>topicStates := (topicStates s)
            (currentTopicIndex s \<mapsto> ts\<lparr>verdict := v, status := DONE\<rparr>)\<rparr>) (session st)) \<and>
   cursor (setCurrentTopicVerdict v st) = cursor st \<and>
   currentQuestion (setCurrentTopicVerdict v st) = currentQuestion st \<and>
   (\<forall>j. j \<noteq> cursor st \<longrightarrow>
      topicState_at j (setCurrentTopicVerdict v st) = topicState_at j st) \<and>
   session (clearPrefetchedQuestion n st) =
     map_option (\<lambda>s. s\<lparr>prefetchedQuestions := (prefetchedQuestions s)(n := None)\<rparr>)
       (session st) \<and>
   currentQuestion (clearPrefetchedQuestion n st) = currentQuestion st \<and>
   cursor (addQaToCurrentTopic q1 a1 st) = cursor st \<and>
   currentQuestion (addQaToCurrentTopic q1 a1 st) = currentQuestion st"
proof (intro conjI impI allI)
  assume "snd (handleAnswerSubmit inp st0) \<noteq> Finished"
  from handleAnswerSubmit_recorded[OF this]
  show "\<exists>a cq. inp = Some a \<and> currentQuestion st0 = Some cq \<and>
         fst (handleAnswerSubmit inp st0) =
           addQaToCurrentTopic (cq_text cq) (trim a) (setProcessing True st0)"
    by blast
next
  assume "validateTopicAgentFinal vr o1 = Invalid e"
  then show "handleAnswerSubmit_resume vr (VerdictAndNext (Resolved o1) (Resolved o2)) st =
        (setProcessing False (handleError e ''handleAnswerSubmit'' API st), Finished)"
    and "handleAnswerSubmit_resume vr (LastVerdict (Resolved o1)) st =
        (setProcessing False (handleError e ''handleAnswerSubmit'' API st), Finished)"
    and "verdict_task_resume vr K (Resolved o1) st = Ok st"
    by (simp_all add: handleAnswerSubmit_resume_def resume_try_def settle_def
        after_verdict_and_next_def after_last_verdict_def verdict_task_invalid)
next
  assume "validateTopicAgentResponse vr o1 = Invalid e"
  then show "handleAnswerSubmit_resume vr (SameTopic i (Resolved o1)) st =
        (setProcessing False (handleError e ''handleAnswerSubmit'' API st), Finished)"
    by (simp add: handleAnswerSubmit_resume_def resume_try_def settle_def after_same_topic_def)
next
  assume "\<not> isProcessing st0 \<and> validateAnswer (trim a0) = Valid \<and> session st0 \<noteq> None \<and>
    currentQuestion st0 = Some cq0 \<and> getCurrentTopic st0 \<noteq> None \<and>
    getCurrentTopicState st0 \<noteq> None \<and>
    \<not> shouldContinueCurrentTopic
        (addQaToCurrentTopic (cq_text cq0) (trim a0) (setProcessing True st0)) \<and>
    hasMoreTopics st0 \<and> getPrefetchedQuestion (cursor st0 + 1) st0 = Some pe \<and>
    \<not> valid_ask_inline (topicAgentOutput pe)"
  then show "handleAnswerSubmit (Some a0) st0 =
        (setProcessing False
           (handleError ''Prefetched question is invalid'' ''handleAnswerSubmit'' API
              (addQaToCurrentTopic (cq_text cq0) (trim a0) (setProcessing True st0))),
         Finished)"
    using submit_prefetched_invalid[of st0 a0 cq0 pe] by blast
next
  assume "validateTopicAgentFinal vr o1 = Valid \<and> validateTopicAgentAsk vr o2 = Invalid e"
  then show "handleAnswerSubmit_resume vr (VerdictAndNext (Resolved o1) (Resolved o2)) st =
        (setProcessing False
           (handleError e ''handleAnswerSubmit'' API
              (setCurrentTopicVerdict
                 (case o1 of None \<Rightarrow> None | Some out \<Rightarrow> out_verdict out) st)),
         Finished)"
    by (simp add: handleAnswerSubmit_resume_def resume_try_def settle_def
        after_verdict_and_next_def)
next
  assume a: "validateTopicAgentResponse vr (Some out) = Valid \<and> out_status out = FINAL \<and>
    hasMoreTopics st \<and> getPrefetchedQuestion (cursor st + 1) st = None \<and>
    topicState_at (cursor st + 1) st \<noteq> None"
  then have f: "after_same_topic vr i (Resolved (Some out)) st =
      (setCurrentTopicVerdict (out_verdict out) st, Ok AwaitingNextTopic)"
    by (simp add: after_same_topic_final finalize_early_fetch)
  then show 1: "handleAnswerSubmit_resume vr (SameTopic i (Resolved (Some out))) st =
        (setCurrentTopicVerdict (out_verdict out) st, AwaitingNextTopic)"
    by (simp add: handleAnswerSubmit_resume_def resume_try_def settle_def)
  assume "\<not> valid_ask_inline o2"
  then show "handleAnswerSubmit_resume vr (NextTopic (Resolved o2))
           (fst (handleAnswerSubmit_resume vr (SameTopic i (Resolved (Some out))) st)) =
         (setProcessing False
            (handleError ''TopicAgent did not return a question'' ''handleAnswerSubmit'' API
               (setCurrentTopicVerdict (out_verdict out) st)),
          Finished)"
    unfolding 1 fst_conv
    by (simp add: handleAnswerSubmit_resume_def resume_try_def settle_def
        after_next_topic_def enter_next_topic_def)
next
  assume a: "validateTopicAgentResponse vr (Some out) = Valid \<and> out_status out = FINAL \<and>
    hasMoreTopics st \<and> getPrefetchedQuestion (cursor st + 1) st = Some pe \<and>
    \<not> valid_ask_inline (topicAgentOutput pe)"
  then have "after_same_topic vr i (Resolved (Some out)) st =
     (clearPrefetchedQuestion (cursor st + 1) (setCurrentTopicVerdict (out_verdict out) st),
      Throw ''TopicAgent did not return a question'')"
    by (simp add: after_same_topic_final finalize_early_prefetched_invalid)
  then show "handleAnswerSubmit_resume vr (SameTopic i (Resolved (Some out))) st =
        (setProcessing False
           (handleError ''TopicAgent did not return a question'' ''handleAnswerSubmit'' API
              (clearPrefetchedQuestion (cursor st + 1)
                 (setCurrentTopicVerdict (out_verdict out) st))),
         Finished)"
    by (simp add: handleAnswerSubmit_resume_def resume_try_def settle_def)
next
  assume "\<not> valid_ask_inline o2"
  then show "handleAnswerSubmit_resume vr (NextTopic (Resolved o2)) st =
        (setProcessing False
           (handleError ''TopicAgent did not return a question'' ''handleAnswerSubmit'' API st),
         Finished)"
    by (simp add: handleAnswerSubmit_resume_def resume_try_def settle_def
        after_next_topic_def enter_next_topic_def)
next
  show "session (setCurrentTopicVerdict v st) =
     (case getCurrentTopicState st of
        None \<Rightarrow> session st
      | Some ts \<Rightarrow>
          map_option (\<lambda>s. s\<lparr>topicStates := (topicStates s)
            (currentTopicIndex s \<mapsto> ts\<lparr>verdict := v, status := DONE\<rparr>)\<rparr>) (session st))"
    by (rule session_setCurrentTopicVerdict)
next
  show "session (clearPrefetchedQuestion n st) =
     map_option (\<lambda>s. s\<lparr>prefetchedQuestions := (prefetchedQuestions s)(n := None)\<rparr>)
       (session st)"
    by (rule session_clearPrefetchedQuestion)
next
  fix j assume "j \<noteq> cursor st"
  then show "topicState_at j (setCurrentTopicVerdict v st) = topicState_at j st"
    by (rule topicState_at_setCurrentTopicVerdict)
qed simp_all

text \<open>
  On the demo interview after its first answer, with one question per topic: an output of
  unknown status where the verdict is expected, and a valid verdict with such an output
  as the next question. Under a cap of five questions: a final verdict given early,
  followed by such an output as the opening question of the next topic; the first topic
  is then \<^verbatim>\<open>done\<close> with its verdict.
\<close>

theorem validation_failure_aborts_witness:
  "handleAnswerSubmit_resume example_schema_errors
      (VerdictAndNext (Resolved (Some odd_output)) (Resolved None)) submitted_app =
     (setProcessing False
        (handleError ''TopicAgent validation failed: Field status must be one of [ask, final], got maybe''
           ''handleAnswerSubmit'' API submitted_app), Finished) \<and>
   handleAnswerSubmit_resume example_schema_errors
      (VerdictAndNext (Resolved (Some final_output)) (Resolved (Some odd_output)))
      submitted_app =
     (setProcessing False
        (handleError ''TopicAgent validation failed: Field status must be one of [ask, final], got maybe''
           ''handleAnswerSubmit'' API
           (setCurrentTopicVerdict (Some demo_verdict) submitted_app)), Finished) \<and>
   topicState_at 1 (setCurrentTopicVerdict (Some demo_verdict) submitted_app) =
     topicState_at 1 submitted_app \<and>
   handleAnswerSubmit_resume example_schema_errors
      (SameTopic 0 (Resolved (Some final_output))) continuing_app =
     (setCurrentTopicVerdict (Some demo_verdict) continuing_app, AwaitingNextTopic) \<and>
   handleAnswerSubmit_resume example_schema_errors (NextTopic (Resolved (Some odd_output)))
      (fst (handleAnswerSubmit_resume example_schema_errors
              (SameTopic 0 (Resolved (Some final_output))) continuing_app)) =
     (setProcessing False
        (handleError ''TopicAgent did not return a question'' ''handleAnswerSubmit'' API
           (setCurrentTopicVerdict (Some demo_verdict) continuing_app)), Finished) \<and>
   topicState_at 0 continuing_app =
     Some \<lparr>status = PROBING,
           qaList = [\<lparr>question = ''What is a join?'', answer = ''a''\<rparr>],
           verdict = None\<rparr> \<and>
   topicState_at 0 (setCurrentTopicVerdict (Some demo_verdict) continuing_app) =
     Some \<lparr>status = DONE,
           qaList = [\<lparr>question = ''What is a join?'', answer = ''a''\<rparr>],
           verdict = Some demo_verdict\<rparr>"
proof -
  have inv: "validateTopicAgentFinal example_schema_errors (Some odd_output) =
      Invalid ''TopicAgent validation failed: Field status must be one of [ask, final], got maybe''"
    by (simp add: validateTopicAgentFinal_def example_defs)
  have ok: "validateTopicAgentFinal example_schema_errors (Some final_output) = Valid"
    by (simp add: validateTopicAgentFinal_def example_defs FINAL_def)
  have bad: "validateTopicAgentAsk example_schema_errors (Some odd_output) =
      Invalid ''TopicAgent validation failed: Field status must be one of [ask, final], got maybe''"
    by (simp add: validateTopicAgentAsk_def example_defs)
  have fin: "validateTopicAgentResponse example_schema_errors (Some final_output) = Valid"
    "out_status final_output = FINAL" "out_verdict final_output = Some demo_verdict"
    by (simp_all add: validateTopicAgentResponse_def example_defs FINAL_def ASK_def)
  have noq: "\<not> valid_ask_inline (Some odd_output)"
    by (simp add: valid_ask_inline_def odd_output_def ASK_def)
  have c: "cursor submitted_app = 0"
    by (simp add: submitted_app_eq cursor_def demo_defs)
  note t1 = validation_failure_aborts[where vr = example_schema_errors
      and ?o1.0 = "Some odd_output" and ?o2.0 = None and st = submitted_app
      and e = "''TopicAgent validation failed: Field status must be one of [ask, final], got maybe''"]
  from t1 inv
  have 1: "handleAnswerSubmit_resume example_schema_errors
      (VerdictAndNext (Resolved (Some odd_output)) (Resolved None)) submitted_app =
     (setProcessing False
        (handleError ''TopicAgent validation failed: Field status must be one of [ask, final], got maybe''
           ''handleAnswerSubmit'' API submitted_app), Finished)"
    by blast
  note t2 = validation_failure_aborts[where vr = example_schema_errors
      and ?o1.0 = "Some final_output" and ?o2.0 = "Some odd_output" and st = submitted_app
      and e = "''TopicAgent validation failed: Field status must be one of [ask, final], got maybe''"
      and v = "Some demo_verdict"]
  from t2 ok bad c
  have 2: "handleAnswerSubmit_resume example_schema_errors
      (VerdictAndNext (Resolved (Some final_output)) (Resolved (Some odd_output)))
      submitted_app =
     (setProcessing False
        (handleError ''TopicAgent validation failed: Field status must be one of [ask, final], got maybe''
           ''handleAnswerSubmit'' API
           (setCurrentTopicVerdict (Some demo_verdict) submitted_app)), Finished)"
    and 3: "topicState_at 1 (setCurrentTopicVerdict (Some demo_verdict) submitted_app) =
     topicState_at 1 submitted_app"
    by (simp_all add: final_output_def)
  note t3 = validation_failure_aborts[where vr = example_schema_errors
      and out = final_output and ?o2.0 = "Some odd_output" and st = continuing_app and i = 0]
  have pre: "validateTopicAgentResponse example_schema_errors (Some final_output) = Valid \<and>
      out_status final_output = FINAL \<and> hasMoreTopics continuing_app \<and>
      getPrefetchedQuestion (cursor continuing_app + 1) continuing_app = None \<and>
      topicState_at (cursor continuing_app + 1) continuing_app \<noteq> None"
    using continuing_app_facts by (simp add: fin)
  from t3 pre noq
  have "handleAnswerSubmit_resume example_schema_errors
      (SameTopic 0 (Resolved (Some final_output))) continuing_app =
     (setCurrentTopicVerdict (out_verdict final_output) continuing_app, AwaitingNextTopic) \<and>
    handleAnswerSubmit_resume example_schema_errors (NextTopic (Resolved (Some odd_output)))
      (fst (handleAnswerSubmit_resume example_schema_errors
              (SameTopic 0 (Resolved (Some final_output))) continuing_app)) =
     (setProcessing False
        (handleError ''TopicAgent did not return a question'' ''handleAnswerSubmit'' API
           (setCurrentTopicVerdict (out_verdict final_output) continuing_app)), Finished)"
    by blast
  then have 4: "handleAnswerSubmit_resume example_schema_errors
      (SameTopic 0 (Resolved (Some final_output))) continuing_app =
     (setCurrentTopicVerdict (Some demo_verdict) continuing_app, AwaitingNextTopic)"
    and 5: "handleAnswerSubmit_resume example_schema_errors (NextTopic (Resolved (Some odd_output)))
      (fst (handleAnswerSubmit_resume example_schema_errors
              (SameTopic 0 (Resolved (Some final_output))) continuing_app)) =
     (setProcessing False
        (handleError ''TopicAgent did not return a question'' ''handleAnswerSubmit'' API
           (setCurrentTopicVerdict (Some demo_verdict) continuing_app)), Finished)"
    unfolding fin(3) by blast+
  from 1 2 3 4 5 continuing_app_facts(6,7) show ?thesis by blast
qed

text \<open>
  C2 as stated fails where the two calls of a transition were made together: the closing
  verdict validates and is recorded, then the response for the opening question of the
  next topic fails the schema (its status is not one of the two allowed). The submission
  aborts, yet the topic now has its verdict and the status \<^verbatim>\<open>done\<close>.
\<close>

theorem validation_failure_counterexample:
  "validateTopicAgentFinal example_schema_errors (Some final_output) = Valid \<and>
   validateTopicAgentAsk example_schema_errors (Some odd_output) =
     Invalid ''TopicAgent validation failed: Field status must be one of [ask, final], got maybe'' \<and>
   topicState_at 0 submitted_app =
     Some \<lparr>status = PROBING,
           qaList = [\<lparr>question = ''What is a join?'', answer = ''a''\<rparr>],
           verdict = None\<rparr> \<and>
   topicState_at 0 (fst (handleAnswerSubmit_resume example_schema_errors
       (VerdictAndNext (Resolved (Some final_output)) (Resolved (Some odd_output)))
       submitted_app)) =
     Some \<lparr>status = DONE,
           qaList = [\<lparr>question = ''What is a join?'', answer = ''a''\<rparr>],
           verdict = Some demo_verdict\<rparr>"
  by (simp add: submitted_app_eq example_defs flow_defs Let_def)

subsection \<open>C3: the prefetched question is consumed\<close>

text \<open>
  C3 (as amended). The prefetch map is looked up in the synchronous part of a submission
  (the answer that finishes the topic) and in the continuation for the same topic (a
  premature final verdict). Whenever one of these two steps moves the cursor and an
  entry for the next topic is in the map when the step begins, the cursor is then on that
  topic, the current question is the question text of the agent output the entry holds,
  and the map has no entry for that topic any more. (An entry stored by
  \<^verbatim>\<open>prefetchNextTopicQuestion\<close> has that same text as its \<^verbatim>\<open>text\<close> field.)
\<close>

theorem prefetched_question_consumed:
  assumes "session st = Some s"
    and "getPrefetchedQuestion (currentTopicIndex s + 1) st = Some e"
  shows "(cursor (fst (handleAnswerSubmit inp st)) \<noteq> cursor st \<longrightarrow>
            cursor (fst (handleAnswerSubmit inp st)) = currentTopicIndex s + 1 \<and>
            currentQuestion (fst (handleAnswerSubmit inp st)) =
              Some \<lparr>cq_text = output_text (topicAgentOutput e),
                    cq_topicIndex = currentTopicIndex s + 1\<rparr> \<and>
            getPrefetchedQuestion (currentTopicIndex s + 1) (fst (handleAnswerSubmit inp st)) = None) \<and>
         (cursor (fst (handleAnswerSubmit_resume vr (SameTopic i r) st)) \<noteq> cursor st \<longrightarrow>
            cursor (fst (handleAnswerSubmit_resume vr (SameTopic i r) st)) = currentTopicIndex s + 1 \<and>
            currentQuestion (fst (handleAnswerSubmit_resume vr (SameTopic i r) st)) =
              Some \<lparr>cq_text = output_text (topicAgentOutput e),
                    cq_topicIndex = currentTopicIndex s + 1\<rparr> \<and>
            getPrefetchedQuestion (currentTopicIndex s + 1)
              (fst (handleAnswerSubmit_resume vr (SameTopic i r) st)) = None)"
proof (intro conjI impI)
  from assms(1) have c: "cursor st = currentTopicIndex s" by (simp add: cursor_def)
  {
    assume mv: "cursor (fst (handleAnswerSubmit inp st)) \<noteq> cursor st"
    from handleAnswerSubmit_transition[OF mv] obtain a cq where
      h: "fst (handleAnswerSubmit inp st) = fst (settle (submit_try a cq (setProcessing True st)))"
         "cursor (fst (submit_try a cq (setProcessing True st))) \<noteq> cursor st"
      by blast
    let ?st0 = "setProcessing True st"
    let ?st1 = "addQaToCurrentTopic (cq_text cq) a ?st0"
    have pf: "getPrefetchedQuestion (cursor ?st0 + 1) ?st0 = Some e"
      using assms(2) c by simp
    from h(2) have mv0: "cursor (fst (submit_try a cq ?st0)) \<noteq> cursor ?st0" by simp
    note t = submit_try_transition[OF pf mv0]
    have pf1: "getPrefetchedQuestion (cursor ?st1 + 1) ?st1 = Some e"
      using pf by simp
    note v = consume_prefetched_valid[OF t(2) t(3)]
    have fin: "fst (handleAnswerSubmit inp st) =
        setProcessing False (fst (consume_prefetched e ?st1))"
      using h(1) t(1) v(1) by (simp add: settle_finished)
    show "cursor (fst (handleAnswerSubmit inp st)) = currentTopicIndex s + 1"
      using fin v(3) c by simp
    show "currentQuestion (fst (handleAnswerSubmit inp st)) =
              Some \<lparr>cq_text = output_text (topicAgentOutput e),
                    cq_topicIndex = currentTopicIndex s + 1\<rparr>"
      using fin v(2) c by simp
    show "getPrefetchedQuestion (currentTopicIndex s + 1) (fst (handleAnswerSubmit inp st)) = None"
      using fin v(4) c by simp
  }
  {
    assume mv: "cursor (fst (handleAnswerSubmit_resume vr (SameTopic i r) st)) \<noteq> cursor st"
    then have mv1: "cursor (fst (after_same_topic vr i r st)) \<noteq> cursor st"
      by (simp add: handleAnswerSubmit_resume_def resume_try_def)
    from after_same_topic_transition[OF mv1] obtain v where
      f: "after_same_topic vr i r st = finalize_early v st" by blast
    have pf: "getPrefetchedQuestion (cursor st + 1) st = Some e" using assms(2) c by simp
    from mv1 f have mv2: "cursor (fst (finalize_early v st)) \<noteq> cursor st" by simp
    note t = finalize_early_transition[OF pf mv2]
    let ?st2 = "clearPrefetchedQuestion (cursor st + 1) (setCurrentTopicVerdict v st)"
    have hm: "hasMoreTopics ?st2" using t(3) by simp
    note en = enter_next_topic_valid[OF t(2) hm]
    have fin: "fst (handleAnswerSubmit_resume vr (SameTopic i r) st) =
        setProcessing False (fst (enter_next_topic (topicAgentOutput e) ?st2))"
      using f t(1) en(1) by (simp add: handleAnswerSubmit_resume_def resume_try_def settle_finished)
    show "cursor (fst (handleAnswerSubmit_resume vr (SameTopic i r) st)) = currentTopicIndex s + 1"
      using fin en(3) c by simp
    show "currentQuestion (fst (handleAnswerSubmit_resume vr (SameTopic i r) st)) =
              Some \<lparr>cq_text = output_text (topicAgentOutput e),
                    cq_topicIndex = currentTopicIndex s + 1\<rparr>"
      using fin en(2) c by simp
    show "getPrefetchedQuestion (currentTopicIndex s + 1)
              (fst (handleAnswerSubmit_resume vr (SameTopic i r) st)) = None"
      using fin c by (simp add: enter_next_topic_prefetched getPrefetchedQuestion_cleared)
  }
qed

text \<open>
  The demo interview with a prefetched question for topic 1: the first answer finishes
  topic 0 and the prefetched question becomes the current one.
\<close>

theorem prefetched_question_consumed_witness:
  "cursor (fst (handleAnswerSubmit (Some ''a'') prefetched_app)) = 1 \<and>
   currentQuestion (fst (handleAnswerSubmit (Some ''a'') prefetched_app)) =
     Some \<lparr>cq_text = ''Prefetched question?'', cq_topicIndex = 1\<rparr> \<and>
   getPrefetchedQuestion 1 (fst (handleAnswerSubmit (Some ''a'') prefetched_app)) = None"
proof -
  have mv: "cursor (fst (handleAnswerSubmit (Some ''a'') prefetched_app)) \<noteq> cursor prefetched_app"
    using left_app_facts by (simp add: left_app_def step_def prefetched_app_fields)
  from prefetched_question_consumed[OF prefetched_app_session, of demo_entry "Some ''a''"]
    prefetched_app_entry mv
  show ?thesis
    by (simp add: demo_session_def demo_entry_def ask_output_def output_text_def
        question_text_def)
qed

text \<open>
  C3 as stated fails when the entry arrives while the fallback fetch is in flight: no
  entry is there when the answer is submitted, the prefetch for topic 1 then settles and
  stores its entry, and the submission resumes with the question it fetched itself. The
  cursor moves to topic 1 with the fetched question as the current one, and the entry
  stays in the map.
\<close>

theorem prefetched_question_counterexample:
  "cursor racing_app = 0 \<and>
   getPrefetchedQuestion 1 racing_app = Some demo_entry \<and>
   pf_text demo_entry = ''Prefetched question?'' \<and>
   cursor raced_app = 1 \<and>
   currentQuestion raced_app = Some \<lparr>cq_text = ''Fetched question?'', cq_topicIndex = 1\<rparr> \<and>
   getPrefetchedQuestion 1 raced_app = Some demo_entry"
  by (simp add: raced_app_def racing_app_def example_defs flow_defs2 Let_def fun_upd_twist)

subsection \<open>C4: a submission while another is in flight\<close>

text \<open>
  C4 (as amended). A submission that is suspended at an \<^verbatim>\<open>await\<close> has set the busy flag
  and recorded its answer once, at the end of the history of the current topic. While
  the busy flag is set, a call of \<^verbatim>\<open>handleAnswerSubmit\<close> returns at once, without an
  error: it shows the notice \<^verbatim>\<open>Please wait, processing your answer...\<close>, of kind
  \<^verbatim>\<open>info\<close>, and changes nothing else (session, current question, storage, console,
  calls in flight and busy flag are as before). The submission in flight then
  completes as it would have without that call: every continuation stops at the same
  point with the same state, the notifications apart. In particular, on valid
  responses, the continuation of a topic transition records the verdict on the topic
  being left, moves the cursor by one, sets the fetched question as the current one and
  clears the busy flag; the continuation on the last topic records the verdict and goes
  on to end the interview; and the continuation for the same topic sets the next
  question, leaves the session as it is and clears the busy flag. The history of the
  topic is not touched by any of them, so the answer of the first call is recorded once
  and the answer of the second call never.
\<close>

theorem busy_submit_returns:
  "(snd (handleAnswerSubmit inp0 st0) \<noteq> Finished \<longrightarrow>
      isProcessing (fst (handleAnswerSubmit inp0 st0)) \<and>
      (\<exists>v cq ts0. inp0 = Some v \<and> currentQuestion st0 = Some cq \<and>
         getCurrentTopicState st0 = Some ts0 \<and>
         fst (handleAnswerSubmit inp0 st0) =
           addQaToCurrentTopic (cq_text cq) (trim v) (setProcessing True st0) \<and>
         topicState_at (cursor st0) (fst (handleAnswerSubmit inp0 st0)) =
           Some (ts0\<lparr>qaList := qaList ts0 @ [\<lparr>question = cq_text cq, answer = trim v\<rparr>],
                      status := PROBING\<rparr>))) \<and>
   (isProcessing st \<longrightarrow>
      handleAnswerSubmit inp st =
        (st\<lparr>notifications := notifications st @
             [(''Please wait, processing your answer...'', ''info'')]\<rparr>, Finished) \<and>
      session (fst (handleAnswerSubmit inp st)) = session st \<and>
      currentQuestion (fst (handleAnswerSubmit inp st)) = currentQuestion st \<and>
      localStorage (fst (handleAnswerSubmit inp st)) = localStorage st \<and>
      console (fst (handleAnswerSubmit inp st)) = console st \<and>
      tasks (fst (handleAnswerSubmit inp st)) = tasks st \<and>
      isProcessing (fst (handleAnswerSubmit inp st)) \<and>
      (\<forall>k. snd (handleAnswerSubmit_resume vr k (fst (handleAnswerSubmit inp st))) =
             snd (handleAnswerSubmit_resume vr k st) \<and>
           (fst (handleAnswerSubmit_resume vr k (fst (handleAnswerSubmit inp st))))
              \<lparr>notifications := []\<rparr> =
           (fst (handleAnswerSubmit_resume vr k st))\<lparr>notifications := []\<rparr>) \<and>
      (getCurrentTopicState st = Some ts \<and> hasMoreTopics st \<and>
       validateTopicAgentFinal vr (Some out) = Valid \<and>
       validateTopicAgentAsk vr (Some nxt) = Valid \<longrightarrow>
         (\<exists>st'. handleAnswerSubmit_resume vr
                   (VerdictAndNext (Resolved (Some out)) (Resolved (Some nxt)))
                   (fst (handleAnswerSubmit inp st)) = (st', Finished) \<and>
            \<not> isProcessing st' \<and> cursor st' = cursor st + 1 \<and>
            topicState_at (cursor st) st' =
              Some (ts\<lparr>verdict := out_verdict out, status := DONE\<rparr>) \<and>
            currentQuestion st' =
              Some \<lparr>cq_text = question_text nxt, cq_topicIndex = cursor st + 1\<rparr>)) \<and>
      (getCurrentTopicState st = Some ts \<and> validateTopicAgentFinal vr (Some out) = Valid \<longrightarrow>
         (\<exists>st'. handleAnswerSubmit_resume vr (LastVerdict (Resolved (Some out)))
                   (fst (handleAnswerSubmit inp st)) = (st', AwaitingEndInterview) \<and>
            cursor st' = cursor st \<and>
            topicState_at (cursor st) st' =
              Some (ts\<lparr>verdict := out_verdict out, status := DONE\<rparr>))) \<and>
      (validateTopicAgentResponse vr (Some out) = Valid \<and> out_status out = ASK \<longrightarrow>
         (\<exists>st'. handleAnswerSubmit_resume vr (SameTopic i (Resolved (Some out)))
                   (fst (handleAnswerSubmit inp st)) = (st', Finished) \<and>
            \<not> isProcessing st' \<and> session st' = session st \<and>
            currentQuestion st' =
              Some \<lparr>cq_text = question_text out, cq_topicIndex = cursor st\<rparr>)))"
proof (intro conjI impI allI)
  assume a: "snd (handleAnswerSubmit inp0 st0) \<noteq> Finished"
  then show "isProcessing (fst (handleAnswerSubmit inp0 st0))"
    by (rule handleAnswerSubmit_in_flight)
  from a show "\<exists>v cq ts0. inp0 = Some v \<and> currentQuestion st0 = Some cq \<and>
         getCurrentTopicState st0 = Some ts0 \<and>
         fst (handleAnswerSubmit inp0 st0) =
           addQaToCurrentTopic (cq_text cq) (trim v) (setProcessing True st0) \<and>
         topicState_at (cursor st0) (fst (handleAnswerSubmit inp0 st0)) =
           Some (ts0\<lparr>qaList := qaList ts0 @ [\<lparr>question = cq_text cq, answer = trim v\<rparr>],
                      status := PROBING\<rparr>)"
    by (rule handleAnswerSubmit_recorded)
next
  assume busy: "isProcessing st"
  then show 1: "handleAnswerSubmit inp st =
       (st\<lparr>notifications := notifications st @
            [(''Please wait, processing your answer...'', ''info'')]\<rparr>, Finished)"
    by (simp add: handleAnswerSubmit_def showNotification_def)
  from busy show "session (fst (handleAnswerSubmit inp st)) = session st"
    and "currentQuestion (fst (handleAnswerSubmit inp st)) = currentQuestion st"
    and "localStorage (fst (handleAnswerSubmit inp st)) = localStorage st"
    and "console (fst (handleAnswerSubmit inp st)) = console st"
    and "tasks (fst (handleAnswerSubmit inp st)) = tasks st"
    and "isProcessing (fst (handleAnswerSubmit inp st))"
    by (simp_all add: 1)
  {
    fix k
    obtain st' r where r: "resume_try vr k st = (st', r)" by (cases "resume_try vr k st")
    show "snd (handleAnswerSubmit_resume vr k (fst (handleAnswerSubmit inp st))) =
            snd (handleAnswerSubmit_resume vr k st)"
      using r by (simp add: 1 handleAnswerSubmit_resume_def notif_resume_try settle_def
          split: result.splits flow.splits)
    show "(fst (handleAnswerSubmit_resume vr k (fst (handleAnswerSubmit inp st))))
             \<lparr>notifications := []\<rparr> =
          (fst (handleAnswerSubmit_resume vr k st))\<lparr>notifications := []\<rparr>"
      using r by (simp add: 1 handleAnswerSubmit_resume_def notif_resume_try settle_def
          setProcessing_def handleError_def showNotification_def console_write_def
          split: result.splits flow.splits)
  }
  {
    assume "getCurrentTopicState st = Some ts \<and> hasMoreTopics st \<and>
       validateTopicAgentFinal vr (Some out) = Valid \<and>
       validateTopicAgentAsk vr (Some nxt) = Valid"
    then show "\<exists>st'. handleAnswerSubmit_resume vr
                   (VerdictAndNext (Resolved (Some out)) (Resolved (Some nxt)))
                   (fst (handleAnswerSubmit inp st)) = (st', Finished) \<and>
            \<not> isProcessing st' \<and> cursor st' = cursor st + 1 \<and>
            topicState_at (cursor st) st' =
              Some (ts\<lparr>verdict := out_verdict out, status := DONE\<rparr>) \<and>
            currentQuestion st' =
              Some \<lparr>cq_text = question_text nxt, cq_topicIndex = cursor st + 1\<rparr>"
      using verdict_and_next_completes[of "fst (handleAnswerSubmit inp st)" ts vr out nxt]
      by (simp add: 1 notif_query)
  }
  {
    assume "getCurrentTopicState st = Some ts \<and> validateTopicAgentFinal vr (Some out) = Valid"
    then show "\<exists>st'. handleAnswerSubmit_resume vr (LastVerdict (Resolved (Some out)))
                   (fst (handleAnswerSubmit inp st)) = (st', AwaitingEndInterview) \<and>
            cursor st' = cursor st \<and>
            topicState_at (cursor st) st' =
              Some (ts\<lparr>verdict := out_verdict out, status := DONE\<rparr>)"
      using last_verdict_completes[of "fst (handleAnswerSubmit inp st)" ts vr out]
      by (simp add: 1 notif_query)
  }
  {
    assume "validateTopicAgentResponse vr (Some out) = Valid \<and> out_status out = ASK"
    then show "\<exists>st'. handleAnswerSubmit_resume vr (SameTopic i (Resolved (Some out)))
                   (fst (handleAnswerSubmit inp st)) = (st', Finished) \<and>
            \<not> isProcessing st' \<and> session st' = session st \<and>
            currentQuestion st' =
              Some \<lparr>cq_text = question_text out, cq_topicIndex = cursor st\<rparr>"
      using same_topic_completes[of vr out i "fst (handleAnswerSubmit inp st)"]
      by (simp add: 1 notif_query)
  }
qed

text \<open>
  The demo interview: the first answer is in flight when a second one is submitted, and
  the transition to the second topic then completes. Under a cap of five questions, the
  same with the next question of the first topic.
\<close>

theorem busy_submit_returns_witness:
  "snd (handleAnswerSubmit (Some ''a'') demo_app) = AwaitingVerdictAndNext \<and>
   isProcessing submitted_app \<and>
   topicState_at 0 submitted_app =
     Some \<lparr>status = PROBING,
           qaList = [\<lparr>question = ''What is a join?'', answer = ''a''\<rparr>],
           verdict = None\<rparr> \<and>
   handleAnswerSubmit (Some ''b'') submitted_app =
     (submitted_app\<lparr>notifications :=
        [(''Please wait, processing your answer...'', ''info'')]\<rparr>, Finished) \<and>
   (\<exists>st'. handleAnswerSubmit_resume example_schema_errors
             (VerdictAndNext (Resolved (Some final_output))
                (Resolved (Some (ask_output ''Fetched question?''))))
             (fst (handleAnswerSubmit (Some ''b'') submitted_app)) = (st', Finished) \<and>
      \<not> isProcessing st' \<and> cursor st' = 1 \<and>
      topicState_at 0 st' =
        Some \<lparr>status = DONE,
              qaList = [\<lparr>question = ''What is a join?'', answer = ''a''\<rparr>],
              verdict = Some demo_verdict\<rparr> \<and>
      currentQuestion st' = Some \<lparr>cq_text = ''Fetched question?'', cq_topicIndex = 1\<rparr>) \<and>
   (\<exists>st'. handleAnswerSubmit_resume example_schema_errors
             (SameTopic 0 (Resolved (Some (ask_output ''Follow-up question?''))))
             (fst (handleAnswerSubmit (Some ''b'') continuing_app)) = (st', Finished) \<and>
      \<not> isProcessing st' \<and> session st' = session continuing_app \<and>
      currentQuestion st' = Some \<lparr>cq_text = ''Follow-up question?'', cq_topicIndex = 0\<rparr>)"
proof -
  have ok: "validateTopicAgentFinal example_schema_errors (Some final_output) = Valid"
    by (simp add: validateTopicAgentFinal_def example_defs FINAL_def)
  have good: "validateTopicAgentAsk example_schema_errors
      (Some (ask_output ''Fetched question?'')) = Valid"
    by (simp add: validateTopicAgentAsk_def example_defs ASK_def has_question_def)
  have more: "validateTopicAgentResponse example_schema_errors
      (Some (ask_output ''Follow-up question?'')) = Valid"
    "out_status (ask_output ''Follow-up question?'') = ASK"
    by (simp_all add: validateTopicAgentResponse_def example_defs ASK_def has_question_def)
  have q: "question_text (ask_output ''Fetched question?'') = ''Fetched question?''"
    "question_text (ask_output ''Follow-up question?'') = ''Follow-up question?''"
    "out_verdict final_output = Some demo_verdict"
    by (simp_all add: question_text_def ask_output_def final_output_def)
  note t = busy_submit_returns[where ?inp0.0 = "Some ''a''" and ?st0.0 = demo_app
      and st = submitted_app and inp = "Some ''b''" and vr = example_schema_errors
      and ts = "\<lparr>status = PROBING,
           qaList = [\<lparr>question = ''What is a join?'', answer = ''a''\<rparr>],
           verdict = None\<rparr>"
      and out = final_output and nxt = "ask_output ''Fetched question?''"]
  from t submitted_app_facts(1) have b: "isProcessing submitted_app"
    by (simp add: submitted_app_def)
  have ts: "topicState_at 0 submitted_app =
     Some \<lparr>status = PROBING,
           qaList = [\<lparr>question = ''What is a join?'', answer = ''a''\<rparr>],
           verdict = None\<rparr>"
    by (simp add: submitted_app_eq topicState_at_def)
  from t b submitted_app_facts(4) have 1: "handleAnswerSubmit (Some ''b'') submitted_app =
     (submitted_app\<lparr>notifications :=
        [(''Please wait, processing your answer...'', ''info'')]\<rparr>, Finished)"
    by simp
  have pre: "getCurrentTopicState submitted_app =
       Some \<lparr>status = PROBING,
             qaList = [\<lparr>question = ''What is a join?'', answer = ''a''\<rparr>],
             verdict = None\<rparr> \<and> hasMoreTopics submitted_app \<and>
       validateTopicAgentFinal example_schema_errors (Some final_output) = Valid \<and>
       validateTopicAgentAsk example_schema_errors (Some (ask_output ''Fetched question?''))
         = Valid"
    using submitted_app_facts ok good by simp
  from t b pre
  have "\<exists>st'. handleAnswerSubmit_resume example_schema_errors
             (VerdictAndNext (Resolved (Some final_output))
                (Resolved (Some (ask_output ''Fetched question?''))))
             (fst (handleAnswerSubmit (Some ''b'') submitted_app)) = (st', Finished) \<and>
      \<not> isProcessing st' \<and> cursor st' = cursor submitted_app + 1 \<and>
      topicState_at (cursor submitted_app) st' =
        Some (\<lparr>status = PROBING,
           qaList = [\<lparr>question = ''What is a join?'', answer = ''a''\<rparr>],
           verdict = None\<rparr>\<lparr>verdict := out_verdict final_output, status := DONE\<rparr>) \<and>
      currentQuestion st' =
        Some \<lparr>cq_text = question_text (ask_output ''Fetched question?''),
              cq_topicIndex = cursor submitted_app + 1\<rparr>"
    by blast
  then have 2: "\<exists>st'. handleAnswerSubmit_resume example_schema_errors
             (VerdictAndNext (Resolved (Some final_output))
                (Resolved (Some (ask_output ''Fetched question?''))))
             (fst (handleAnswerSubmit (Some ''b'') submitted_app)) = (st', Finished) \<and>
      \<not> isProcessing st' \<and> cursor st' = 1 \<and>
      topicState_at 0 st' =
        Some \<lparr>status = DONE,
              qaList = [\<lparr>question = ''What is a join?'', answer = ''a''\<rparr>],
              verdict = Some demo_verdict\<rparr> \<and>
      currentQuestion st' = Some \<lparr>cq_text = ''Fetched question?'', cq_topicIndex = 1\<rparr>"
    by (simp add: q submitted_app_facts(2))
  have b2: "isProcessing continuing_app"
    by (simp add: continuing_app_eq)
  note t2 = busy_submit_returns[where st = continuing_app and inp = "Some ''b''"
      and vr = example_schema_errors and out = "ask_output ''Follow-up question?''" and i = 0]
  from t2 b2 more
  have "\<exists>st'. handleAnswerSubmit_resume example_schema_errors
             (SameTopic 0 (Resolved (Some (ask_output ''Follow-up question?''))))
             (fst (handleAnswerSubmit (Some ''b'') continuing_app)) = (st', Finished) \<and>
      \<not> isProcessing st' \<and> session st' = session continuing_app \<and>
      currentQuestion st' =
        Some \<lparr>cq_text = question_text (ask_output ''Follow-up question?''),
              cq_topicIndex = cursor continuing_app\<rparr>"
    by blast
  then have 3: "\<exists>st'. handleAnswerSubmit_resume example_schema_errors
             (SameTopic 0 (Resolved (Some (ask_output ''Follow-up question?''))))
             (fst (handleAnswerSubmit (Some ''b'') continuing_app)) = (st', Finished) \<and>
      \<not> isProcessing st' \<and> session st' = session continuing_app \<and>
      currentQuestion st' = Some \<lparr>cq_text = ''Follow-up question?'', cq_topicIndex = 0\<rparr>"
    by (simp add: q continuing_app_facts(3))
  from submitted_app_facts(1) b ts 1 2 3 show ?thesis by blast
qed

text \<open>
  C4 as stated fails in that the second call is not rejected: it ends by a plain
  \<^verbatim>\<open>return\<close>. On the demo interview with the first answer in flight, the call with a
  second answer ends with one notification, of kind \<^verbatim>\<open>info\<close>; nothing is written to the
  console, where \<^verbatim>\<open>handleError\<close> logs every error, and the session is unchanged.
\<close>

theorem busy_submit_counterexample:
  "isProcessing submitted_app \<and>
   snd (handleAnswerSubmit (Some ''b'') submitted_app) = Finished \<and>
   notifications (fst (handleAnswerSubmit (Some ''b'') submitted_app)) =
     [(''Please wait, processing your answer...'', ''info'')] \<and>
   console (fst (handleAnswerSubmit (Some ''b'') submitted_app)) = [] \<and>
   session (fst (handleAnswerSubmit (Some ''b'') submitted_app)) = session submitted_app"
  by (simp add: submitted_app_eq handleAnswerSubmit_def showNotification_def demo_defs)

subsection \<open>C5: the policy gate \<^verbatim>\<open>shouldContinueCurrentTopic\<close>\<close>

text \<open>
  C5 (as amended). With a session and a current topic state, \<^verbatim>\<open>shouldContinueCurrentTopic\<close>
  returns false exactly when the topic holds at least \<^verbatim>\<open>maxQuestionsPerTopic\<close> answers or
  its status is \<^verbatim>\<open>done\<close>, and true otherwise. The comparison of the code is
  \<^verbatim>\<open>qaList.length < maxQuestionsPerTopic\<close>, so a topic holding more answers than the cap
  does not continue either.
\<close>

theorem shouldContinue_iff:
  "session st = Some s \<Longrightarrow> getCurrentTopicState st = Some ts \<Longrightarrow>
     (\<not> shouldContinueCurrentTopic st) =
     (length (qaList ts) \<ge> maxQuestionsPerTopic s \<or> status ts = DONE)"
  by (auto simp: shouldContinueCurrentTopic_def)

text \<open>With a cap of five: four answers continue, five and six do not.\<close>

theorem shouldContinue_iff_witness:
  "shouldContinueCurrentTopic (probing_app 4) \<and>
   \<not> shouldContinueCurrentTopic (probing_app 5) \<and>
   \<not> shouldContinueCurrentTopic (probing_app 6)"
  using shouldContinue_iff[of "probing_app 4" _ "\<lparr>status = PROBING,
                      qaList = replicate 4 \<lparr>question = ''q'', answer = ''a''\<rparr>,
                      verdict = None\<rparr>"]
    shouldContinue_iff[of "probing_app 5" _ "\<lparr>status = PROBING,
                      qaList = replicate 5 \<lparr>question = ''q'', answer = ''a''\<rparr>,
                      verdict = None\<rparr>"]
    shouldContinue_iff[of "probing_app 6" _ "\<lparr>status = PROBING,
                      qaList = replicate 6 \<lparr>question = ''q'', answer = ''a''\<rparr>,
                      verdict = None\<rparr>"]
  by (simp add: probing_app_def demo_defs getCurrentTopicState_def)

text \<open>
  C5 as stated fails on a topic that holds more answers than the cap: in \<open>over_cap_app\<close>
  the first topic has two answers under a cap of one and is still probing, so neither
  \<^verbatim>\<open>qaList.length == maxQuestionsPerTopic\<close> nor \<^verbatim>\<open>status == done\<close> holds, and the function
  returns false.
\<close>

theorem shouldContinue_counterexample:
  "getCurrentTopicState over_cap_app =
     Some \<lparr>status = PROBING,
           qaList = [\<lparr>question = ''What is a join?'', answer = ''a''\<rparr>,
                     \<lparr>question = ''What is a join?'', answer = ''b''\<rparr>],
           verdict = None\<rparr> \<and>
   cursor over_cap_app = 0 \<and>
   session over_cap_app \<noteq> None \<and>
   shouldContinueCurrentTopic over_cap_app = False"
  by (simp add: over_cap_session getCurrentTopicState_def shouldContinueCurrentTopic_def
      cursor_def demo_session_def demo_topics_def)

subsection \<open>C6: saving and reloading the session\<close>

text \<open>
  C6. When a session is saved (and \<^verbatim>\<open>localStorage\<close> accepts the write) and then loaded
  from that storage, by an application state that may otherwise be a fresh one, the
  load succeeds and the restored session has the topics, the topic states and the
  cursor of the saved one, and no background verdict promise. Whatever the storage
  holds, a session that \<^verbatim>\<open>loadSessionFromCache\<close> restores has no background verdict
  promise.
\<close>

theorem save_load_roundtrip:
  "(session st = Some s \<and> \<not> quota_exceeded (localStorage st) \<and>
      localStorage st2 = localStorage (saveSessionToCache cq scr st) \<longrightarrow>
      (\<exists>st' ld. loadSessionFromCache st2 = (st', Some ld) \<and>
          session st' = Some (ld_session ld) \<and>
          topics (ld_session ld) = topics s \<and>
          topicStates (ld_session ld) = topicStates s \<and>
          currentTopicIndex (ld_session ld) = currentTopicIndex s \<and>
          backgroundVerdictPromises (ld_session ld) = [])) \<and>
   (loadSessionFromCache st0 = (st1, Some ld1) \<longrightarrow>
      session st1 = Some (ld_session ld1) \<and> backgroundVerdictPromises (ld_session ld1) = [])"
  by (auto simp: loadSessionFromCache_def saveSessionToCache_def session_data_of_def
      CACHE_VERSION_def Let_def split: option.splits if_splits)

text \<open>The demo interview, saved and loaded into the initial application state.\<close>

theorem save_load_roundtrip_witness:
  "\<exists>st' ld. loadSessionFromCache
       (initial_app\<lparr>localStorage := localStorage (saveSessionToCache None ''interview'' demo_app)\<rparr>)
       = (st', Some ld) \<and>
     session st' = Some (ld_session ld) \<and>
     topics (ld_session ld) = demo_topics \<and>
     topicStates (ld_session ld) = topicStates demo_session \<and>
     currentTopicIndex (ld_session ld) = 0 \<and>
     backgroundVerdictPromises (ld_session ld) = []"
  using save_load_roundtrip[of demo_app demo_session
      "initial_app\<lparr>localStorage := localStorage (saveSessionToCache None ''interview'' demo_app)\<rparr>"
      None "''interview''"]
  by (simp add: demo_app_def initial_app_def demo_session_def)

subsection \<open>C7: the cursor\<close>

text \<open>
  C7. On the last topic \<^verbatim>\<open>moveToNextTopic\<close> returns false and changes nothing; on an
  earlier topic it returns true and the cursor is one more; in either case the cursor
  moves by at most one and never back. Every event of the interview (a submission, a
  continuation of one, a prefetch or a background verdict settling, the end of the
  interview) keeps the session and its topics and moves the cursor forward by at most
  one; over any sequence of events the cursor never decreases, and a cursor inside
  the topic list stays inside it.
\<close>

theorem advanceTopic_cursor:
  "session st = Some s \<Longrightarrow>
     (int (currentTopicIndex s) = int (length (topics s)) - 1 \<longrightarrow>
        moveToNextTopic st = (st, False)) \<and>
     (int (currentTopicIndex s) < int (length (topics s)) - 1 \<longrightarrow>
        (\<exists>st' s'. moveToNextTopic st = (st', True) \<and> session st' = Some s' \<and>
           currentTopicIndex s' = currentTopicIndex s + 1 \<and> topics s' = topics s)) \<and>
     (\<exists>s'. session (fst (moveToNextTopic st)) = Some s' \<and>
        currentTopicIndex s \<le> currentTopicIndex s' \<and>
        currentTopicIndex s' \<le> currentTopicIndex s + 1) \<and>
     (\<forall>ev. \<exists>s'. session (step vr ev st) = Some s' \<and> topics s' = topics s \<and>
        currentTopicIndex s \<le> currentTopicIndex s' \<and>
        currentTopicIndex s' \<le> currentTopicIndex s + 1) \<and>
     (\<forall>evs. \<exists>s'. session (run vr evs st) = Some s' \<and> topics s' = topics s \<and>
        currentTopicIndex s \<le> currentTopicIndex s' \<and>
        (currentTopicIndex s < length (topics s) \<longrightarrow>
           currentTopicIndex s' < length (topics s')))"
proof (intro conjI allI)
  assume s: "session st = Some s"
  show "int (currentTopicIndex s) = int (length (topics s)) - 1 \<longrightarrow>
        moveToNextTopic st = (st, False)"
    using s by (simp add: moveToNextTopic_def)
  show "int (currentTopicIndex s) < int (length (topics s)) - 1 \<longrightarrow>
        (\<exists>st' s'. moveToNextTopic st = (st', True) \<and> session st' = Some s' \<and>
           currentTopicIndex s' = currentTopicIndex s + 1 \<and> topics s' = topics s)"
    using s by (simp add: moveToNextTopic_def)
  show "\<exists>s'. session (fst (moveToNextTopic st)) = Some s' \<and>
        currentTopicIndex s \<le> currentTopicIndex s' \<and>
        currentTopicIndex s' \<le> currentTopicIndex s + 1"
    using s by (simp add: moveToNextTopic_def)
  show "\<exists>s'. session (step vr ev st) = Some s' \<and> topics s' = topics s \<and>
        currentTopicIndex s \<le> currentTopicIndex s' \<and>
        currentTopicIndex s' \<le> currentTopicIndex s + 1" for ev
    using s advances_step[of st vr ev] by (auto simp: advances_def split: option.splits)
  show "\<exists>s'. session (run vr evs st) = Some s' \<and> topics s' = topics s \<and>
        currentTopicIndex s \<le> currentTopicIndex s' \<and>
        (currentTopicIndex s < length (topics s) \<longrightarrow>
           currentTopicIndex s' < length (topics s'))" for evs
    using s by (rule run_cursor)
qed

text \<open>The demo interview on its last topic, on its first, and after a failed transition.\<close>

theorem advanceTopic_cursor_witness:
  "moveToNextTopic last_topic_app = (last_topic_app, False) \<and>
   (\<exists>st' s'. moveToNextTopic demo_app = (st', True) \<and> session st' = Some s' \<and>
      currentTopicIndex s' = 1) \<and>
   (\<exists>s'. session (run schema_not_loaded
        [Submit (Some ''a''),
         Resume (VerdictAndNext (Rejected ''Network request failed'')
                   (Rejected ''Network request failed''))] demo_app) = Some s' \<and>
      currentTopicIndex s' < 2)"
proof -
  have a: "session last_topic_app = Some (demo_session\<lparr>currentTopicIndex := 1\<rparr>)"
    by (simp add: last_topic_app_def)
  have b: "session demo_app = Some demo_session"
    by (simp add: demo_app_def)
  from advanceTopic_cursor[OF a, of schema_not_loaded]
  have 1: "moveToNextTopic last_topic_app = (last_topic_app, False)"
    by (simp add: demo_session_def demo_topics_def)
  from advanceTopic_cursor[OF b, of schema_not_loaded]
  have 2: "\<exists>st' s'. moveToNextTopic demo_app = (st', True) \<and> session st' = Some s' \<and>
      currentTopicIndex s' = 1"
    by (auto simp: demo_session_def demo_topics_def)
  from advanceTopic_cursor[OF b, of schema_not_loaded]
  have "\<forall>evs. \<exists>s'. session (run schema_not_loaded evs demo_app) = Some s' \<and>
        topics s' = topics demo_session \<and>
        currentTopicIndex demo_session \<le> currentTopicIndex s' \<and>
        (currentTopicIndex demo_session < length (topics demo_session) \<longrightarrow>
           currentTopicIndex s' < length (topics s'))"
    by blast
  then have "\<exists>s'. session (run schema_not_loaded
        [Submit (Some ''a''),
         Resume (VerdictAndNext (Rejected ''Network request failed'')
                   (Rejected ''Network request failed''))] demo_app) = Some s' \<and>
        topics s' = topics demo_session \<and>
        currentTopicIndex demo_session \<le> currentTopicIndex s' \<and>
        (currentTopicIndex demo_session < length (topics demo_session) \<longrightarrow>
           currentTopicIndex s' < length (topics s'))"
    by (rule spec)
  then have 3: "\<exists>s'. session (run schema_not_loaded
        [Submit (Some ''a''),
         Resume (VerdictAndNext (Rejected ''Network request failed'')
                   (Rejected ''Network request failed''))] demo_app) = Some s' \<and>
      currentTopicIndex s' < 2"
    by (auto simp: demo_session_def demo_topics_def)
  from 1 2 3 show ?thesis by blast
qed

subsection \<open>C8: \<^verbatim>\<open>initializeSession\<close>\<close>

lemma init_topicStates_fold:
  "fold (\<lambda>index m. m(index \<mapsto> v)) [0..<n] f = (\<lambda>i. if i < n then Some v else f i)"
  by (induction n arbitrary: f) (auto simp: fun_eq_iff)

lemma init_topicStates_eq:
  "init_topicStates ts = (\<lambda>i. if i < length ts then Some fresh_topic_state else None)"
  by (simp add: init_topicStates_def init_topicStates_fold)

lemma validate_topics_None:
  "validate_topics ts = None \<longleftrightarrow> (\<forall>t \<in> set ts. validate_topic t = None)"
  by (induction ts) (auto split: option.splits)

lemma validate_topic_None:
  "validate_topic t = None \<longleftrightarrow>
     name t \<noteq> [] \<and> 1 \<le> importance t \<and> importance t \<le> 5 \<and>
     required_level t \<in> {''basic'', ''solid'', ''deep''}"
  by (auto simp: validate_topic_def)

text \<open>
  C8. \<^verbatim>\<open>initializeSession\<close> throws when the topic list is empty, or a topic has no
  name, an importance outside 1..5 or a required level other than basic, solid and deep. On a
  non-empty list of valid topics (each with a name, an importance in 1..5 and one of
  the three levels), of any length and so of length 1..10, it succeeds: the session
  has these topics, the cursor 0, and exactly one topic state per topic, each
  \<^verbatim>\<open>not_started\<close> with an empty history and no verdict.
\<close>

theorem initializeSession_spec:
  "((ts = [] \<or> (\<exists>t \<in> set ts. name t = [] \<or> importance t < 1 \<or> importance t > 5 \<or>
        required_level t \<notin> {''basic'', ''solid'', ''deep''}))
      \<longrightarrow> (\<exists>e. initializeSession ts key maxQ efs st = Throw e)) \<and>
   ((ts \<noteq> [] \<and> (\<forall>t \<in> set ts. name t \<noteq> [] \<and> 1 \<le> importance t \<and> importance t \<le> 5 \<and>
        required_level t \<in> {''basic'', ''solid'', ''deep''}))
      \<longrightarrow> (\<exists>st' s. initializeSession ts key maxQ efs st = Ok st' \<and>
             session st' = Some s \<and> topics s = ts \<and> currentTopicIndex s = 0 \<and>
             dom (topicStates s) = {0..<length ts} \<and>
             (\<forall>i < length ts. topicStates s i =
                Some \<lparr>status = NOT_STARTED, qaList = [], verdict = None\<rparr>)))"
proof (intro conjI impI)
  assume "ts = [] \<or> (\<exists>t \<in> set ts. name t = [] \<or> importance t < 1 \<or> importance t > 5 \<or>
        required_level t \<notin> {''basic'', ''solid'', ''deep''})"
  then show "\<exists>e. initializeSession ts key maxQ efs st = Throw e"
  proof
    assume "ts = []"
    then show ?thesis by (simp add: initializeSession_def)
  next
    assume "\<exists>t \<in> set ts. name t = [] \<or> importance t < 1 \<or> importance t > 5 \<or>
        required_level t \<notin> {''basic'', ''solid'', ''deep''}"
    then obtain t where "t \<in> set ts" "validate_topic t \<noteq> None"
      by (auto simp: validate_topic_None)
    then have "validate_topics ts \<noteq> None"
      by (auto simp: validate_topics_None)
    then show ?thesis
      by (auto simp: initializeSession_def)
  qed
next
  assume a: "ts \<noteq> [] \<and> (\<forall>t \<in> set ts. name t \<noteq> [] \<and> 1 \<le> importance t \<and> importance t \<le> 5 \<and>
        required_level t \<in> {''basic'', ''solid'', ''deep''})"
  then have "validate_topics ts = None"
    by (simp add: validate_topics_None validate_topic_None)
  with a show "\<exists>st' s. initializeSession ts key maxQ efs st = Ok st' \<and>
             session st' = Some s \<and> topics s = ts \<and> currentTopicIndex s = 0 \<and>
             dom (topicStates s) = {0..<length ts} \<and>
             (\<forall>i < length ts. topicStates s i =
                Some \<lparr>status = NOT_STARTED, qaList = [], verdict = None\<rparr>)"
    by (auto simp: initializeSession_def init_topicStates_eq fresh_topic_state_def dom_def)
qed

text \<open>An empty list, a topic of importance 6, and the two valid demo topics.\<close>

theorem initializeSession_spec_witness:
  "(\<exists>e. initializeSession [] ''sk-demo'' 5 False initial_app = Throw e) \<and>
   (\<exists>e. initializeSession [\<lparr>name = ''SQL'', importance = 6, required_level = ''solid'',
            merged_from = []\<rparr>] ''sk-demo'' 5 False initial_app = Throw e) \<and>
   (\<exists>st' s. initializeSession demo_topics ''sk-demo'' 5 False initial_app = Ok st' \<and>
      session st' = Some s \<and> topics s = demo_topics \<and> currentTopicIndex s = 0 \<and>
      dom (topicStates s) = {0..<2} \<and>
      topicStates s 0 = Some \<lparr>status = NOT_STARTED, qaList = [], verdict = None\<rparr> \<and>
      topicStates s 1 = Some \<lparr>status = NOT_STARTED, qaList = [], verdict = None\<rparr>)"
proof -
  from initializeSession_spec[of "[]" "''sk-demo''" 5 False initial_app]
  have 1: "\<exists>e. initializeSession [] ''sk-demo'' 5 False initial_app = Throw e" by simp
  from initializeSession_spec[of "[\<lparr>name = ''SQL'', importance = 6, required_level = ''solid'',
            merged_from = []\<rparr>]" "''sk-demo''" 5 False initial_app]
  have 2: "\<exists>e. initializeSession [\<lparr>name = ''SQL'', importance = 6, required_level = ''solid'',
            merged_from = []\<rparr>] ''sk-demo'' 5 False initial_app = Throw e" by simp
  from initializeSession_spec[of demo_topics "''sk-demo''" 5 False initial_app]
  have 3: "\<exists>st' s. initializeSession demo_topics ''sk-demo'' 5 False initial_app = Ok st' \<and>
      session st' = Some s \<and> topics s = demo_topics \<and> currentTopicIndex s = 0 \<and>
      dom (topicStates s) = {0..<2} \<and>
      topicStates s 0 = Some \<lparr>status = NOT_STARTED, qaList = [], verdict = None\<rparr> \<and>
      topicStates s 1 = Some \<lparr>status = NOT_STARTED, qaList = [], verdict = None\<rparr>"
    by (auto simp: demo_topics_def)
  from 1 2 3 show ?thesis by blast
qed

subsection \<open>C9: the prefetch is isolated\<close>

text \<open>
  C9. The synchronous part of \<^verbatim>\<open>prefetchNextTopicQuestion\<close> changes nothing, or records
  that the call for the next topic is in flight. When the call settles, the continuation
  never throws, and leaves the cursor, the current question, the busy flag and the
  notifications as they are. When the call is rejected the only change is a line on the
  console; when the response is not a valid question nothing changes; when it is valid,
  the session changes in \<^verbatim>\<open>prefetchedQuestions\<close> only, where the entry for the captured
  index is stored (if that index is within the topics).
\<close>

theorem prefetch_isolated:
  "(prefetchNextTopicQuestion st = st \<or>
    prefetchNextTopicQuestion st = launch (PrefetchTask (cursor st + 1)) st) \<and>
   (\<exists>st'. prefetchNextTopicQuestion_resume vr i r st = Ok st' \<and>
      cursor st' = cursor st \<and>
      currentQuestion st' = currentQuestion st \<and>
      isProcessing st' = isProcessing st \<and>
      notifications st' = notifications st \<and>
      tasks st' = tasks st \<and>
      (case r of
         Rejected e \<Rightarrow>
           st' = st\<lparr>console := console st @ [''Failed to prefetch question for topic'']\<rparr>
       | Resolved output \<Rightarrow>
           (case validateTopicAgentAsk vr output of
              Invalid e \<Rightarrow> st' = st
            | Valid \<Rightarrow>
                (case session st of
                   None \<Rightarrow> session st' = None
                 | Some s \<Rightarrow>
                     session st' = Some (s\<lparr>prefetchedQuestions :=
                       (if i < length (topics s)
                        then (prefetchedQuestions s)
                               (i \<mapsto> \<lparr>pf_text = output_text output, pf_topicIndex = i,
                                       topicAgentOutput = output\<rparr>)
                        else prefetchedQuestions s)\<rparr>)))))"
proof (rule conjI[OF prefetch_launch])
  show "\<exists>st'. prefetchNextTopicQuestion_resume vr i r st = Ok st' \<and>
      cursor st' = cursor st \<and>
      currentQuestion st' = currentQuestion st \<and>
      isProcessing st' = isProcessing st \<and>
      notifications st' = notifications st \<and>
      tasks st' = tasks st \<and>
      (case r of
         Rejected e \<Rightarrow>
           st' = st\<lparr>console := console st @ [''Failed to prefetch question for topic'']\<rparr>
       | Resolved output \<Rightarrow>
           (case validateTopicAgentAsk vr output of
              Invalid e \<Rightarrow> st' = st
            | Valid \<Rightarrow>
                (case session st of
                   None \<Rightarrow> session st' = None
                 | Some s \<Rightarrow>
                     session st' = Some (s\<lparr>prefetchedQuestions :=
                       (if i < length (topics s)
                        then (prefetchedQuestions s)
                               (i \<mapsto> \<lparr>pf_text = output_text output, pf_topicIndex = i,
                                       topicAgentOutput = output\<rparr>)
                        else prefetchedQuestions s)\<rparr>))))"
  proof (cases r)
    case (Rejected e)
    then show ?thesis
      by (simp add: prefetchNextTopicQuestion_resume_def prefetch_try_def try_catch_def
          console_write_def cursor_def)
  next
    case (Resolved agentOut)
    show ?thesis
    proof (cases "validateTopicAgentAsk vr agentOut")
      case Valid
      with Resolved show ?thesis
        by (simp add: prefetchNextTopicQuestion_resume_def prefetch_try_def try_catch_def
            session_setPrefetchedQuestion output_text_def split: option.splits)
    next
      case (Invalid e)
      with Resolved show ?thesis
        by (simp add: prefetchNextTopicQuestion_resume_def prefetch_try_def try_catch_def)
    qed
  qed
qed

text \<open>
  On the demo interview: a network error, a response that fails the schema, and a valid
  question for topic 1.
\<close>

theorem prefetch_isolated_witness:
  "(\<exists>st'. prefetchNextTopicQuestion_resume example_schema_errors 1
            (Rejected ''Network request failed'') demo_app = Ok st' \<and>
      st' = demo_app\<lparr>console := [''Failed to prefetch question for topic'']\<rparr>) \<and>
   (\<exists>st'. prefetchNextTopicQuestion_resume example_schema_errors 1
            (Resolved (Some odd_output)) demo_app = Ok st' \<and> st' = demo_app) \<and>
   (\<exists>st'. prefetchNextTopicQuestion_resume example_schema_errors 1
            (Resolved (Some (ask_output ''Prefetched question?''))) demo_app = Ok st' \<and>
      cursor st' = 0 \<and>
      session st' = Some (demo_session\<lparr>prefetchedQuestions := [1 \<mapsto> demo_entry]\<rparr>))"
proof -
  have bad: "validateTopicAgentAsk example_schema_errors (Some odd_output) =
      Invalid ''TopicAgent validation failed: Field status must be one of [ask, final], got maybe''"
    by (simp add: validateTopicAgentAsk_def example_defs)
  have good: "validateTopicAgentAsk example_schema_errors
      (Some (ask_output ''Prefetched question?'')) = Valid"
    by (simp add: validateTopicAgentAsk_def example_defs ASK_def has_question_def)
  have d: "session demo_app = Some demo_session" "console demo_app = []" "cursor demo_app = 0"
    "length (topics demo_session) = 2"
    by (simp_all add: demo_defs cursor_def)
  from prefetch_isolated[of demo_app example_schema_errors 1 "Rejected ''Network request failed''"]
  have 1: "\<exists>st'. prefetchNextTopicQuestion_resume example_schema_errors 1
            (Rejected ''Network request failed'') demo_app = Ok st' \<and>
      st' = demo_app\<lparr>console := [''Failed to prefetch question for topic'']\<rparr>"
    using d by auto
  from prefetch_isolated[of demo_app example_schema_errors 1 "Resolved (Some odd_output)"]
  have 2: "\<exists>st'. prefetchNextTopicQuestion_resume example_schema_errors 1
            (Resolved (Some odd_output)) demo_app = Ok st' \<and> st' = demo_app"
    using bad by auto
  from prefetch_isolated[of demo_app example_schema_errors 1
      "Resolved (Some (ask_output ''Prefetched question?''))"]
  have 3: "\<exists>st'. prefetchNextTopicQuestion_resume example_schema_errors 1
            (Resolved (Some (ask_output ''Prefetched question?''))) demo_app = Ok st' \<and>
      cursor st' = 0 \<and>
      session st' = Some (demo_session\<lparr>prefetchedQuestions := [1 \<mapsto> demo_entry]\<rparr>)"
    using good d
    by (auto simp: demo_entry_def output_text_def question_text_def ask_output_def
        demo_session_def)
  from 1 2 3 show ?thesis by blast
qed

subsection \<open>C10: the snapshot holds no API key\<close>

text \<open>
  C10. Two application states that differ only in the \<^verbatim>\<open>apiKey\<close> of their session are
  saved to the same \<^verbatim>\<open>localStorage\<close> contents (at the same clock value, with the same
  current question and screen), and the states after saving differ only in that key.
  The snapshot written is built from \<^verbatim>\<open>topics\<close>, \<^verbatim>\<open>topicStates\<close>, \<^verbatim>\<open>currentTopicIndex\<close>,
  \<^verbatim>\<open>enableFinalSummary\<close>, \<^verbatim>\<open>maxQuestionsPerTopic\<close> and \<^verbatim>\<open>prefetchedQuestions\<close>, with the
  version, the timestamp, the current question and the screen.
\<close>

theorem snapshot_without_apiKey:
  "saveSessionToCache cq scr (st\<lparr>session := Some (s\<lparr>apiKey := k1\<rparr>)\<rparr>) =
     (saveSessionToCache cq scr (st\<lparr>session := Some (s\<lparr>apiKey := k2\<rparr>)\<rparr>))
       \<lparr>session := Some (s\<lparr>apiKey := k1\<rparr>)\<rparr> \<and>
   localStorage (saveSessionToCache cq scr (st\<lparr>session := Some (s\<lparr>apiKey := k1\<rparr>)\<rparr>)) =
     localStorage (saveSessionToCache cq scr (st\<lparr>session := Some (s\<lparr>apiKey := k2\<rparr>)\<rparr>)) \<and>
   interview_session_cache (localStorage (saveSessionToCache cq scr (st\<lparr>session := Some s\<rparr>))) =
     (if quota_exceeded (localStorage st) then interview_session_cache (localStorage st)
      else Some \<lparr>version = ''2.0'', timestamp = clock st,
                 cd_session = \<lparr>sd_topics = topics s, sd_topicStates = topicStates s,
                    sd_currentTopicIndex = currentTopicIndex s,
                    sd_enableFinalSummary = enableFinalSummary s,
                    sd_maxQuestionsPerTopic = maxQuestionsPerTopic s,
                    sd_prefetchedQuestions = prefetchedQuestions s\<rparr>,
                 cd_currentQuestion = cq,
                 cd_currentScreen = (if scr = [] then ''interview'' else scr)\<rparr>)"
  by (simp add: saveSessionToCache_def session_data_of_def CACHE_VERSION_def)

end
